theory Spec2Isabelle
  imports Complex_Main "HOL-Library.Word"
begin

section \<open>Multi-tensor Adam: the per-element update\<close>

text \<open>
  \<^verbatim>\<open>CudaKernelFunctor<T, MT, N>::operator()\<close> of
  \<^verbatim>\<open>paddle/phi/kernels/gpu/multi_tensor_adam_kernel.cu\<close> keeps, per thread,
  four register arrays \<^verbatim>\<open>r_g, r_p, r_m, r_v\<close> of \<^verbatim>\<open>PARALLEL_SIZE\<close> entries of the
  wide type \<^verbatim>\<open>MT\<close>.  One entry of the four arrays (one value of \<^verbatim>\<open>ii\<close>) is a
  \<open>lane\<close> here.  The wide type is the type variable \<open>'a\<close>; nothing but the
  syntax of its operations is fixed by the definitions, and the square root is a
  parameter \<open>sqrt'\<close>, so that they can be read at any arithmetic.
\<close>

record 'a lane =
  r_g :: 'a
  r_p :: 'a
  r_m :: 'a
  r_v :: 'a

definition PARALLEL_SIZE :: nat where
  "PARALLEL_SIZE = 4"

definition BLOCK_SIZE :: nat where
  "BLOCK_SIZE = 512"

text \<open>
  The body of the second unrolled loop (source lines 100--125), for one \<^verbatim>\<open>ii\<close>:
  both branches of \<^verbatim>\<open>if (mode == false)\<close> are kept as they are written.
\<close>

definition compute_lane ::
  "('a \<Rightarrow> 'a) \<Rightarrow> 'a \<Rightarrow> 'a \<Rightarrow> 'a \<Rightarrow> 'a \<Rightarrow> 'a \<Rightarrow> 'a \<Rightarrow> bool \<Rightarrow> 'a \<Rightarrow>
   ('a::{plus,minus,uminus,times,inverse,one}) lane \<Rightarrow> 'a lane" where
  "compute_lane sqrt' beta1 beta2 beta1_pow beta2_pow epsilon lr mode decay r =
     (let p = r_p r; g = r_g r; m = r_m r; v = r_v r in
      if mode = False then
        (let m = beta1 * m + (1 - beta1) * g;
             v = beta2 * v + (1 - beta2) * g * g;
             denom = (sqrt' v / sqrt' (1 - beta2_pow)) + epsilon;
             p = p + (m / denom) * (- (lr / (1 - beta1_pow)))
         in r\<lparr>r_m := m, r_v := v, r_p := p\<rparr>)
      else
        (let p = p * (1 - lr * decay);
             m = beta1 * m + (1 - beta1) * g;
             v = beta2 * v + (1 - beta2) * g * g;
             denom = (sqrt' v / sqrt' (1 - beta2_pow)) + epsilon;
             p = p + (m / denom) * (- (lr / (1 - beta1_pow)))
         in r\<lparr>r_m := m, r_v := v, r_p := p\<rparr>))"

text \<open>
  The update as the specification words it (section 4.1, step 3): the optional
  decoupled shrink of \<open>p\<close>, the two moments, the denominator with \<open>epsilon\<close> added
  outside the square root, and the bias-corrected step.  The result is the triple
  \<open>(p, m, v)\<close>.
\<close>

definition adam_spec_step ::
  "('a \<Rightarrow> 'a) \<Rightarrow> 'a \<Rightarrow> 'a \<Rightarrow> 'a \<Rightarrow> 'a \<Rightarrow> 'a \<Rightarrow> 'a \<Rightarrow> bool \<Rightarrow> 'a \<Rightarrow>
   'a \<times> 'a \<times> 'a \<times> 'a \<Rightarrow> ('a::{plus,minus,uminus,times,inverse,one}) \<times> 'a \<times> 'a" where
  "adam_spec_step sqrt' beta1 beta2 beta1_pow beta2_pow epsilon lr decoupled weight_decay x =
     (case x of (p, g, m, v) \<Rightarrow>
        let p0 = (if decoupled then p * (1 - lr * weight_decay) else p);
            m' = beta1 * m + (1 - beta1) * g;
            v' = beta2 * v + (1 - beta2) * g * g;
            denom = sqrt' v' / sqrt' (1 - beta2_pow) + epsilon;
            p' = p0 - lr * (m' / denom) / (1 - beta1_pow)
        in (p', m', v'))"

section \<open>oneDNN matmul: data\<close>

text \<open>
  Errors are values.  The two \<^verbatim>\<open>PADDLE_ENFORCE\<close> failures of the matmul file carry
  the numbers their messages print; \<open>AttrNotFound\<close> is \<^verbatim>\<open>ctx.Attr\<close> on an attribute the
  context does not have; \<open>NullDereference\<close> and \<open>VectorOutOfRange\<close> stand for the two
  places where the C++ would have undefined behaviour (a member call through a null
  output pointer, a \<^verbatim>\<open>std::vector\<close> written past its end).
  \<open>InvalidArgument_SkipUpdate\<close> belongs to the Adam kernel.
\<close>

datatype error =
    Unimplemented_head_number int
  | InvalidArgument_broadcast nat int nat int
  | InvalidArgument_SkipUpdate nat
  | AttrNotFound string
  | NullDereference
  | VectorOutOfRange

text \<open>
  A tensor is its shape and the buffer it points to.  Element values are never
  inspected by the matmul file itself (they are read and written by the oneDNN
  primitive only), so a buffer is a symbolic name; \<open>Reordered b\<close> is the fresh buffer
  that the \<^verbatim>\<open>abc -> bac\<close> reorder of \<^verbatim>\<open>FoldFirstAndLastDims\<close> fills from \<open>b\<close>.
  Layout descriptors (\<^verbatim>\<open>set_mem_desc\<close>) are not modelled.
\<close>

datatype buffer = Buf string | Reordered buffer

record tensor =
  dims :: "int list"
  holder :: buffer

text \<open>Member names of the source end in an underscore (\<^verbatim>\<open>height_\<close>,
  \<^verbatim>\<open>batch_size_\<close>, \<^verbatim>\<open>x_offset_\<close>); the fields here carry a prefix instead.\<close>

record MatDescriptor =
  m_height :: int
  m_width :: int
  m_stride :: int
  m_batch_size :: int
  m_trans :: bool

text \<open>
  The helpers of \<^verbatim>\<open>phi::funcs\<close> (\<^verbatim>\<open>blas.h\<close>) and the two \<^verbatim>\<open>DDim\<close> methods used by
  \<^verbatim>\<open>GetDimForInput\<close> are not part of the sources at hand: they are parameters of the
  model, collected in one record.
\<close>

record funcs =
  RowMatrixDimsFromVector :: "int list \<Rightarrow> int list"
  ColumnMatrixDimsFromVector :: "int list \<Rightarrow> int list"
  CreateMatrixDescriptor :: "int list \<Rightarrow> int \<Rightarrow> bool \<Rightarrow> MatDescriptor"
  ddim_reshape :: "int list \<Rightarrow> int list \<Rightarrow> int list"
  ddim_transpose :: "int list \<Rightarrow> int list \<Rightarrow> int list"

text \<open>
  The execution context: attributes tested with \<^verbatim>\<open>HasAttr\<close> are optional fields, the
  fused reshape/transpose lists are read without a test and are plain fields, inputs
  are tensors.
\<close>

record ExecutionContext =
  head_number :: "int option"
  trans_x :: "bool option"
  trans_y :: "bool option"
  transpose_X :: "bool option"
  transpose_Y :: "bool option"
  alpha :: "real option"
  force_fp32_output :: "bool option"
  fused_reshape_X :: "int list"
  fused_transpose_X :: "int list"
  fused_reshape_Y :: "int list"
  fused_transpose_Y :: "int list"
  fused_reshape_Out :: "int list"
  fused_transpose_Out :: "int list"
  Input_X :: tensor
  Input_Y :: tensor
  Input_Out_GRAD :: tensor

definition Attr_bool :: "string \<Rightarrow> bool option \<Rightarrow> error + bool" where
  "Attr_bool name a = (case a of None \<Rightarrow> Inl (AttrNotFound name) | Some b \<Rightarrow> Inr b)"

text \<open>What one \<^verbatim>\<open>matmul_p->execute(astream, matmul_args)\<close> is given: the memory
  descriptors the handler built, and the three data handles (a buffer and a byte
  offset into it).\<close>

record matmul_desc =
  x_dims_md :: "int list"
  y_dims_md :: "int list"
  out_dims_md :: "int list"
  x_strides_md :: "int list"
  y_strides_md :: "int list"
  out_strides_md :: "int list"
  output_scale :: "real option"

type_synonym data_handle = "buffer \<times> nat"

record prim_exec =
  e_desc :: matmul_desc
  e_src :: data_handle
  e_weights :: data_handle
  e_dst :: data_handle

section \<open>oneDNN matmul: folding and the handler\<close>

definition FoldOuterDims :: "tensor \<Rightarrow> tensor" where
  "FoldOuterDims input =
     (let in_dims = dims input in
      if length in_dims = 3
      then input\<lparr>dims := [in_dims ! 0 * in_dims ! 1, in_dims ! 2]\<rparr>
      else input)"

definition FoldFirstAndLastDims :: "tensor \<Rightarrow> tensor" where
  "FoldFirstAndLastDims input =
     (let input_dims = dims input in
      if length input_dims \<noteq> 3 then input
      else \<lparr>dims = [input_dims ! 1, input_dims ! 0 * input_dims ! 2],
            holder = Reordered (holder input)\<rparr>)"

text \<open>The constructor of \<^verbatim>\<open>MatMulMKLDNNHandler\<close> (source lines 92--132).  In C++ the
  test \<^verbatim>\<open>x_bs || y_bs\<close> is "one of them is not zero".\<close>

definition MatMulMKLDNNHandler ::
  "funcs \<Rightarrow> tensor \<Rightarrow> bool \<Rightarrow> tensor \<Rightarrow> bool \<Rightarrow> real \<Rightarrow> matmul_desc" where
  "MatMulMKLDNNHandler lib x trans_x' y trans_y' scale =
     (let mat_dim_x = CreateMatrixDescriptor lib (dims x) 0 trans_x';
          mat_dim_y = CreateMatrixDescriptor lib (dims y) 0 trans_y';
          x_bs = m_batch_size mat_dim_x;
          y_bs = m_batch_size mat_dim_y;
          out_bs = (if x_bs \<noteq> 0 \<or> y_bs \<noteq> 0 then max x_bs y_bs else 1);
          M = m_height mat_dim_x;
          N = m_width mat_dim_y;
          K = m_width mat_dim_x
      in \<lparr>x_dims_md = [if x_bs > 0 then x_bs else 1, M, K],
          y_dims_md = [if y_bs > 0 then y_bs else 1, K, N],
          out_dims_md = [out_bs, M, N],
          x_strides_md = (if \<not> trans_x' then [M * K, K, 1] else [M * K, 1, M]),
          y_strides_md = (if \<not> trans_y' then [N * K, N, 1] else [N * K, 1, K]),
          out_strides_md = [M * N, N, 1],
          output_scale = (if scale \<noteq> 1 then Some scale else None)\<rparr>)"

text \<open>
  \<^verbatim>\<open>MatMulMKLDNNHandler::Execute\<close> (source lines 142--175).  The private members
  \<^verbatim>\<open>x_offset_, y_offset_, out_offset_\<close> (\<^verbatim>\<open>uint32_t\<close>) and \<^verbatim>\<open>batch_size_\<close>
  (\<^verbatim>\<open>uint16_t\<close>) are read by the loop and set nowhere in the file, so they are inputs.
  The loop counter is a \<^verbatim>\<open>uint16_t\<close> as well.
\<close>

record handler_members =
  x_offset :: "32 word"
  y_offset :: "32 word"
  out_offset :: "32 word"
  h_batch_size :: "16 word"

function Execute_loop ::
  "handler_members \<Rightarrow> matmul_desc \<Rightarrow> 16 word \<Rightarrow> data_handle \<Rightarrow> data_handle \<Rightarrow> data_handle \<Rightarrow>
   prim_exec list \<Rightarrow> prim_exec list" where
  "Execute_loop h md i x_ptr y_ptr out_ptr es =
     (if i < h_batch_size h
      then Execute_loop h md (i + 1)
             (fst x_ptr, snd x_ptr + unat (x_offset h))
             (fst y_ptr, snd y_ptr + unat (y_offset h))
             (fst out_ptr, snd out_ptr + unat (out_offset h))
             (es @ [\<lparr>e_desc = md, e_src = x_ptr, e_weights = y_ptr, e_dst = out_ptr\<rparr>])
      else es)"
  by pat_completeness auto
termination
proof (relation "measure (\<lambda>(h, md, i, x, y, out, es). unat (h_batch_size h) - unat i)")
  show "wf (measure (\<lambda>(h, md, i, x, y, out, es). unat (h_batch_size h) - unat i))"
    by simp
next
  fix h :: handler_members and md :: matmul_desc and i :: "16 word"
    and x_ptr y_ptr out_ptr :: data_handle and es :: "prim_exec list"
  assume less: "i < h_batch_size h"
  have below: "unat i < unat (h_batch_size h)"
    using less by (simp add: word_less_nat_alt)
  moreover have "unat (h_batch_size h) < 2 ^ 16"
    using unsigned_less [of "h_batch_size h", where 'a = nat] by simp
  ultimately have "unat i + unat (1 :: 16 word) < 2 ^ LENGTH(16)"
    by simp
  then have "unat (i + 1) = unat i + unat (1 :: 16 word)"
    by (simp only: unat_add_lem)
  then have "unat (i + 1) = Suc (unat i)"
    by simp
  moreover note below
  ultimately show
    "((h, md, i + 1, (fst x_ptr, snd x_ptr + unat (x_offset h)),
       (fst y_ptr, snd y_ptr + unat (y_offset h)),
       (fst out_ptr, snd out_ptr + unat (out_offset h)),
       es @ [\<lparr>e_desc = md, e_src = x_ptr, e_weights = y_ptr, e_dst = out_ptr\<rparr>]),
      (h, md, i, x_ptr, y_ptr, out_ptr, es))
     \<in> measure (\<lambda>(h, md, i, x, y, out, es). unat (h_batch_size h) - unat i)"
    by simp
qed

definition Execute ::
  "handler_members \<Rightarrow> matmul_desc \<Rightarrow> tensor \<Rightarrow> tensor \<Rightarrow> tensor \<Rightarrow> prim_exec list \<Rightarrow> prim_exec list" where
  "Execute h md x y out es = Execute_loop h md 0 (holder x, 0) (holder y, 0) (holder out, 0) es"

section \<open>oneDNN matmul: the gradient kernel\<close>

text \<open>
  The gradient kernel works on copies \<open>x\<close>, \<open>y\<close>, \<open>dout\<close> of its inputs and on the two
  output pointers \<^verbatim>\<open>dx\<close>, \<^verbatim>\<open>dy\<close>, either of which may be null.  The state is the two
  outputs and the list of primitive executions issued so far.
\<close>

record grad_state =
  dx :: "tensor option"
  dy :: "tensor option"
  execs :: "prim_exec list"

datatype out_ptr = DX | DY

definition deref :: "out_ptr \<Rightarrow> grad_state \<Rightarrow> tensor option" where
  "deref out s = (case out of DX \<Rightarrow> dx s | DY \<Rightarrow> dy s)"

definition ReshapeTensorToMatrixSequence :: "tensor \<Rightarrow> MatDescriptor \<Rightarrow> tensor" where
  "ReshapeTensorToMatrixSequence x descriptor =
     (let h = m_height descriptor; w = m_width descriptor;
          hw = (if m_trans descriptor then (w, h) else (h, w))
      in if m_batch_size descriptor \<noteq> 0
         then x\<lparr>dims := [m_batch_size descriptor, fst hw, snd hw]\<rparr>
         else x\<lparr>dims := [fst hw, snd hw]\<rparr>)"

definition ReshapeXYOutToMatrixSequence ::
  "funcs \<Rightarrow> tensor \<Rightarrow> tensor \<Rightarrow> tensor \<Rightarrow> bool \<Rightarrow> bool \<Rightarrow> tensor \<times> tensor \<times> tensor" where
  "ReshapeXYOutToMatrixSequence lib x y out trans_x' trans_y' =
     (let x_dim = RowMatrixDimsFromVector lib (dims x);
          y_dim = ColumnMatrixDimsFromVector lib (dims y);
          mat_dim_x = CreateMatrixDescriptor lib x_dim 0 trans_x';
          mat_dim_y = CreateMatrixDescriptor lib y_dim 0 trans_y';
          out' = (if m_batch_size mat_dim_x = 0 \<and> m_batch_size mat_dim_y = 0
                  then out\<lparr>dims := [m_height mat_dim_x, m_width mat_dim_y]\<rparr>
                  else out\<lparr>dims := [max (m_batch_size mat_dim_x) (m_batch_size mat_dim_y),
                                      m_height mat_dim_x, m_width mat_dim_y]\<rparr>)
      in (ReshapeTensorToMatrixSequence x mat_dim_x,
          ReshapeTensorToMatrixSequence y mat_dim_y, out'))"

text \<open>
  \<^verbatim>\<open>ExecuteMatMulGrad\<close> (source lines 641--694).  Its first statement reads
  \<^verbatim>\<open>out->dims()\<close>; there is no test of \<^verbatim>\<open>out\<close> before it.  It builds the handler and
  calls the primitive once, on the data of the (possibly folded) operands.
\<close>

definition ExecuteMatMulGrad ::
  "funcs \<Rightarrow> ExecutionContext \<Rightarrow> tensor \<Rightarrow> bool \<Rightarrow> bool \<Rightarrow> tensor \<Rightarrow> bool \<Rightarrow> bool \<Rightarrow> out_ptr \<Rightarrow>
   grad_state \<Rightarrow> error option \<times> grad_state" where
  "ExecuteMatMulGrad lib ctx x trans_x' is_fold_init_dims_x y trans_y' is_fold_init_dims_y out s =
     (case deref out s of
        None \<Rightarrow> (Some NullDereference, s)
      | Some out_t \<Rightarrow>
          let need_combine = ((length (dims x) = 3 \<or> length (dims y) = 3) \<and> length (dims out_t) = 2);
              x_combined = (if \<not> need_combine then x
                            else if is_fold_init_dims_x then FoldOuterDims x
                            else FoldFirstAndLastDims x);
              y_combined = (if \<not> need_combine then y
                            else if is_fold_init_dims_y then FoldOuterDims y
                            else FoldFirstAndLastDims y);
              alpha' = (case alpha ctx of Some a \<Rightarrow> a | None \<Rightarrow> 1);
              handler = MatMulMKLDNNHandler lib x_combined trans_x' y_combined trans_y' alpha'
          in (None, s\<lparr>execs := execs s @
                [\<lparr>e_desc = handler, e_src = (holder x_combined, 0),
                  e_weights = (holder y_combined, 0), e_dst = (holder out_t, 0)\<rparr>]\<rparr>))"

text \<open>Two statements in sequence: an error of the first leaves the second undone.\<close>

definition and_then ::
  "('s \<Rightarrow> error option \<times> 's) \<Rightarrow> ('s \<Rightarrow> error option \<times> 's) \<Rightarrow> 's \<Rightarrow> error option \<times> 's" where
  "and_then f g s = (case f s of (Some e, s') \<Rightarrow> (Some e, s') | (None, s') \<Rightarrow> g s')"

definition resize_out :: "out_ptr \<Rightarrow> int list \<Rightarrow> grad_state \<Rightarrow> grad_state" where
  "resize_out out d s =
     (case out of
        DX \<Rightarrow> s\<lparr>dx := map_option (\<lambda>t. t\<lparr>dims := d\<rparr>) (dx s)\<rparr>
      | DY \<Rightarrow> s\<lparr>dy := map_option (\<lambda>t. t\<lparr>dims := d\<rparr>) (dy s)\<rparr>)"

text \<open>The four cases of source lines 572--624, in the order and with the arguments of
  the source.\<close>

definition MatMulGrad_cases ::
  "funcs \<Rightarrow> ExecutionContext \<Rightarrow> tensor \<Rightarrow> tensor \<Rightarrow> tensor \<Rightarrow> bool \<Rightarrow> bool \<Rightarrow>
   grad_state \<Rightarrow> error option \<times> grad_state" where
  "MatMulGrad_cases lib ctx x y dout transpose_x transpose_y =
     (if transpose_x \<and> transpose_y then
        and_then (ExecuteMatMulGrad lib ctx y True True dout True False DX)
                 (ExecuteMatMulGrad lib ctx dout True True x True False DY)
      else if transpose_x then
        and_then (ExecuteMatMulGrad lib ctx y False False dout True False DX)
                 (ExecuteMatMulGrad lib ctx x False False dout False True DY)
      else if transpose_y then
        and_then (ExecuteMatMulGrad lib ctx dout False False y False True DX)
                 (ExecuteMatMulGrad lib ctx dout True True x False True DY)
      else
        and_then (ExecuteMatMulGrad lib ctx dout False False y True False DX)
                 (ExecuteMatMulGrad lib ctx x True True dout False True DY))"

definition head_number_check :: "ExecutionContext \<Rightarrow> error option" where
  "head_number_check ctx =
     (case head_number ctx of
        None \<Rightarrow> None
      | Some hn \<Rightarrow> if hn = 1 then None else Some (Unimplemented_head_number hn))"

text \<open>
  The two blocks around the four cases.  Before them (source lines 556--570), an output
  that is present and whose shape differs from that of its reshaped input takes that
  shape, its own being saved; after them (lines 626--637) the saved shape is put back.
\<close>

definition resize_if_differs :: "out_ptr \<Rightarrow> int list \<Rightarrow> grad_state \<Rightarrow> grad_state" where
  "resize_if_differs out d s =
     (case deref out s of
        None \<Rightarrow> s
      | Some t \<Rightarrow> if dims t \<noteq> d then resize_out out d s else s)"

definition restore_dims :: "out_ptr \<Rightarrow> int list option \<Rightarrow> int list \<Rightarrow> grad_state \<Rightarrow> grad_state" where
  "restore_dims out saved d s =
     (case deref out s of
        None \<Rightarrow> s
      | Some t \<Rightarrow>
          (case saved of
             None \<Rightarrow> s
           | Some out_dims \<Rightarrow> if out_dims \<noteq> d then resize_out out out_dims s else s))"

text \<open>\<^verbatim>\<open>MatMulGradMKLDNNKernel::Compute\<close> (source lines 523--638).\<close>

definition MatMulGrad_Compute ::
  "funcs \<Rightarrow> ExecutionContext \<Rightarrow> grad_state \<Rightarrow> error option \<times> grad_state" where
  "MatMulGrad_Compute lib ctx s =
     (case head_number_check ctx of
        Some e \<Rightarrow> (Some e, s)
      | None \<Rightarrow>
         (case (case transpose_X ctx of Some b \<Rightarrow> Inr b | None \<Rightarrow> Attr_bool ''trans_x'' (trans_x ctx)) of
            Inl e \<Rightarrow> (Some e, s)
          | Inr transpose_x \<Rightarrow>
             (case (case transpose_Y ctx of Some b \<Rightarrow> Inr b | None \<Rightarrow> Attr_bool ''trans_y'' (trans_y ctx)) of
                Inl e \<Rightarrow> (Some e, s)
              | Inr transpose_y \<Rightarrow>
                 (case ReshapeXYOutToMatrixSequence lib (Input_X ctx) (Input_Y ctx) (Input_Out_GRAD ctx)
                         transpose_x transpose_y of
                    (x, y, dout) \<Rightarrow>
                      let dx_dims = map_option dims (dx s);
                          s1 = resize_if_differs DX (dims x) s;
                          dy_dims = map_option dims (dy s1);
                          s2 = resize_if_differs DY (dims y) s1
                      in (case MatMulGrad_cases lib ctx x y dout transpose_x transpose_y s2 of
                            (Some e, s3) \<Rightarrow> (Some e, s3)
                          | (None, s3) \<Rightarrow>
                              (None, restore_dims DY dy_dims (dims y)
                                       (restore_dims DX dx_dims (dims x) s3)))))))"

section \<open>oneDNN matmul: the forward kernel\<close>

definition GetDimForInput :: "funcs \<Rightarrow> int list \<Rightarrow> int list \<Rightarrow> tensor \<Rightarrow> int list" where
  "GetDimForInput lib shape axis input =
     (let input_dims = dims input in
      if shape \<noteq> [] \<and> axis \<noteq> []
      then ddim_transpose lib (ddim_reshape lib input_dims shape) axis
      else input_dims)"

definition IsOutputFused :: "ExecutionContext \<Rightarrow> bool" where
  "IsOutputFused ctx = (fused_reshape_Out ctx \<noteq> [] \<and> fused_transpose_Out ctx \<noteq> [])"

text \<open>
  The loop of \<^verbatim>\<open>CalculateMatrixDims\<close> (source lines 500--514) over the leading
  positions: the check of position \<open>i\<close> comes before the write of \<^verbatim>\<open>out_dims[i]\<close>, and
  \<^verbatim>\<open>out_dims\<close> is a local copy of the shape of \<^verbatim>\<open>out\<close>.
\<close>

function broadcast_loop :: "int list \<Rightarrow> int list \<Rightarrow> int list \<Rightarrow> nat \<Rightarrow> error + int list" where
  "broadcast_loop x_bd_dims y_bd_dims out_dims i =
     (if i < length x_bd_dims - 2 then
        (if x_bd_dims ! i = y_bd_dims ! i \<or> x_bd_dims ! i = 1 \<or> y_bd_dims ! i = 1 then
           (if i < length out_dims
            then broadcast_loop x_bd_dims y_bd_dims
                   (out_dims[i := max (x_bd_dims ! i) (y_bd_dims ! i)]) (Suc i)
            else Inl VectorOutOfRange)
         else Inl (InvalidArgument_broadcast i (x_bd_dims ! i) i (y_bd_dims ! i)))
      else Inr out_dims)"
  by pat_completeness auto
termination
  by (relation "measure (\<lambda>(x_bd_dims, y_bd_dims, out_dims, i). length x_bd_dims - 2 - i)") auto

text \<open>
  \<^verbatim>\<open>CalculateMatrixDims\<close> (source lines 471--517).  The index arithmetic is on
  \<^verbatim>\<open>size_t\<close>; its only caller passes two vectors of \<open>ndims \<ge> 3\<close> ones, with \<open>ndims\<close> at
  least both ranks, so no subtraction goes below zero.  The result is the error, if
  any, the two broadcast vectors, and \<^verbatim>\<open>out\<close>.
\<close>

definition CalculateMatrixDims ::
  "ExecutionContext \<Rightarrow> int list \<Rightarrow> int list \<Rightarrow> int list \<Rightarrow> int list \<Rightarrow> tensor \<Rightarrow>
   error option \<times> int list \<times> int list \<times> tensor" where
  "CalculateMatrixDims ctx x_dims y_dims x_bd_dims y_bd_dims out =
     (let x_bd =
            (if length x_dims = 1 then x_bd_dims[length x_bd_dims - 1 := x_dims ! 0]
             else if length x_dims = 2 then
               (x_bd_dims[length x_bd_dims - 1 := x_dims ! 1])[length x_bd_dims - 2 := x_dims ! 0]
             else fold (\<lambda>i bd. bd[length bd - length x_dims + i := x_dims ! i])
                       [0..<length x_dims] x_bd_dims);
          y_bd =
            (if length y_dims = 1 then y_bd_dims[length x_bd - 2 := y_dims ! 0]
             else if length y_dims = 2 then
               (y_bd_dims[length y_bd_dims - 1 := y_dims ! 1])[length y_bd_dims - 2 := y_dims ! 0]
             else fold (\<lambda>i bd. bd[length bd - length y_dims + i := y_dims ! i])
                       [0..<length y_dims] y_bd_dims)
      in if \<not> IsOutputFused ctx \<and> length x_dims > 2 \<and> length y_dims > 2 then
           (case broadcast_loop x_bd y_bd (dims out) 0 of
              Inl e \<Rightarrow> (Some e, x_bd, y_bd, out)
            | Inr out_dims \<Rightarrow> (None, x_bd, y_bd, out\<lparr>dims := out_dims\<rparr>))
         else (None, x_bd, y_bd, out))"

text \<open>
  The forward kernel (source lines 388--468).  \<^verbatim>\<open>ExecuteMatMulV2\<close> rests on
  \<^verbatim>\<open>MatMulV2MKLDNNHandler\<close>, which is not in the sources at hand: it is the parameter
  \<open>exec_v2\<close>, given the output element type, the two broadcast vectors and the two
  flags.  The state is \<^verbatim>\<open>out\<close> together with whatever \<open>exec_v2\<close> acts on.
\<close>

datatype dtype = Float32 | BFloat16 | Int8 | UInt8

definition is_int8 :: "dtype \<Rightarrow> bool" where
  "is_int8 T = (T = Int8 \<or> T = UInt8)"

definition is_bfloat16 :: "dtype \<Rightarrow> bool" where
  "is_bfloat16 T = (T = BFloat16)"

definition MatMulV2_Compute ::
  "funcs \<Rightarrow> (dtype \<Rightarrow> int list \<Rightarrow> bool \<Rightarrow> int list \<Rightarrow> bool \<Rightarrow> tensor \<times> 'w \<Rightarrow> error option \<times> tensor \<times> 'w) \<Rightarrow>
   dtype \<Rightarrow> ExecutionContext \<Rightarrow> tensor \<times> 'w \<Rightarrow> error option \<times> tensor \<times> 'w" where
  "MatMulV2_Compute lib exec_v2 T ctx s =
     (case head_number_check ctx of
        Some e \<Rightarrow> (Some e, s)
      | None \<Rightarrow>
         (let force_fp32 = (case force_fp32_output ctx of Some b \<Rightarrow> b | None \<Rightarrow> False);
              fuse_relu = False
          in case (case trans_x ctx of Some b \<Rightarrow> Inr b | None \<Rightarrow> Attr_bool ''transpose_X'' (transpose_X ctx)) of
               Inl e \<Rightarrow> (Some e, s)
             | Inr trans_x' \<Rightarrow>
                (case (case trans_y ctx of Some b \<Rightarrow> Inr b | None \<Rightarrow> Attr_bool ''transpose_Y'' (transpose_Y ctx)) of
                   Inl e \<Rightarrow> (Some e, s)
                 | Inr trans_y' \<Rightarrow>
                    let x_dims = GetDimForInput lib (fused_reshape_X ctx) (fused_transpose_X ctx) (Input_X ctx);
                        y_dims = GetDimForInput lib (fused_reshape_Y ctx) (fused_transpose_Y ctx) (Input_Y ctx);
                        ndims = max (max (length x_dims) (length y_dims)) 3
                    in (case CalculateMatrixDims ctx x_dims y_dims
                               (replicate ndims 1) (replicate ndims 1) (fst s) of
                          (Some e, x_bd_dims, y_bd_dims, out) \<Rightarrow> (Some e, out, snd s)
                        | (None, x_bd_dims, y_bd_dims, out) \<Rightarrow>
                            let T_out = (if force_fp32 \<or> (\<not> is_int8 T \<and> \<not> is_bfloat16 T) then Float32
                                         else if is_bfloat16 T then BFloat16
                                         else if fuse_relu then UInt8
                                         else Int8)
                            in exec_v2 T_out x_bd_dims trans_x' y_bd_dims trans_y' (out, snd s)))))"

section \<open>Multi-tensor Adam: one block of the kernel\<close>

text \<open>
  The narrow storage type \<^verbatim>\<open>T\<close> is the type variable \<open>'t\<close>.  The two casts and the
  square root are parameters, in one record.
\<close>

record ('t, 'a) numerics =
  sqrt_MT :: "'a \<Rightarrow> 'a"
  to_MT :: "'t \<Rightarrow> 'a"
  to_T :: "'a \<Rightarrow> 't"

text \<open>
  The arrays of one tensor of the group, as the functor sees them after it has read
  the pointers of \<^verbatim>\<open>tensor_id\<close> from the table: \<^verbatim>\<open>p\<close>, \<^verbatim>\<open>m\<close>, \<^verbatim>\<open>v\<close> and, under
  \<^verbatim>\<open>multi_precision\<close>, \<^verbatim>\<open>mp\<close>.  The gradient \<^verbatim>\<open>g\<close> is only read and is passed beside
  them.  The functor advances every pointer by
  \<open>off = compute_group_idx * compute_group_size\<close>; here the arrays stay whole and
  the index \<open>i\<close> of the source is the position \<open>off + i\<close>.

  This section reads the block for the values it computes: index arithmetic is on
  mathematical integers and an array is a total function of the position.  It is what
  the model of the whole kernel runs.  The section on the functor on the device reads
  the same lines with 32-bit counters, with accesses checked against the extent of the
  arrays and with a log of the positions loaded and stored; the lemmas on the guarded
  element loop show that, for sizes at which the counters do not wrap, the device
  returns without a fault and leaves the values of this section.
\<close>

record ('t, 'a) arrays =
  arr_p :: "'t list"
  arr_m :: "'a list"
  arr_v :: "'a list"
  arr_mp :: "'a list"

text \<open>The index \<^verbatim>\<open>i = i_start + threadIdx.x + ii * blockDim.x\<close> and the guard
  \<^verbatim>\<open>i < n && i < compute_group_size\<close> of the first and of the third unrolled loop.\<close>

definition lane_index :: "nat \<Rightarrow> nat \<Rightarrow> int \<Rightarrow> nat \<Rightarrow> int" where
  "lane_index blockDim threadIdx i_start ii = i_start + int threadIdx + int ii * int blockDim"

definition in_guard :: "int \<Rightarrow> int \<Rightarrow> int \<Rightarrow> bool" where
  "in_guard n compute_group_size i = (i < n \<and> i < compute_group_size)"

text \<open>First unrolled loop (source lines 85--98), one \<^verbatim>\<open>ii\<close>, for the values it
  loads.  The lookup is total: a read outside an array is a fault only in
  \<open>device_load_lane\<close>.\<close>

definition load_lane ::
  "('t, 'a) numerics \<Rightarrow> bool \<Rightarrow> 't list \<Rightarrow> int \<Rightarrow> int \<Rightarrow> int \<Rightarrow> ('t, 'a) arrays \<Rightarrow> int \<Rightarrow>
   ('a::{plus,minus,uminus,times,inverse,zero,one}) lane" where
  "load_lane nm multi_precision g off n compute_group_size a i =
     (if in_guard n compute_group_size i then
        \<lparr>r_g = to_MT nm (g ! nat (off + i)),
         r_p = (if multi_precision then arr_mp a ! nat (off + i)
                else to_MT nm (arr_p a ! nat (off + i))),
         r_m = arr_m a ! nat (off + i),
         r_v = arr_v a ! nat (off + i)\<rparr>
      else \<lparr>r_g = 0, r_p = 0, r_m = 0, r_v = 0\<rparr>)"

text \<open>Third unrolled loop (source lines 127--137), one \<^verbatim>\<open>ii\<close>.\<close>

definition store_lane ::
  "('t, 'a) numerics \<Rightarrow> bool \<Rightarrow> int \<Rightarrow> int \<Rightarrow> int \<Rightarrow> int \<times> 'a lane \<Rightarrow> ('t, 'a) arrays \<Rightarrow>
   ('t, 'a) arrays" where
  "store_lane nm multi_precision off n compute_group_size ir a =
     (case ir of (i, r) \<Rightarrow>
        if in_guard n compute_group_size i then
          a\<lparr>arr_p := (arr_p a)[nat (off + i) := to_T nm (r_p r)],
            arr_m := (arr_m a)[nat (off + i) := r_m r],
            arr_v := (arr_v a)[nat (off + i) := r_v r],
            arr_mp := (if multi_precision then (arr_mp a)[nat (off + i) := r_p r] else arr_mp a)\<rparr>
        else a)"

text \<open>
  One pass of the body of the \<^verbatim>\<open>i_start\<close> loop, for one thread: load the
  \<^verbatim>\<open>PARALLEL_SIZE\<close> lanes, compute them, store them.  The four register arrays are one
  list of lanes.
\<close>

definition thread_iteration ::
  "('t, 'a) numerics \<Rightarrow> ('a lane \<Rightarrow> 'a lane) \<Rightarrow> bool \<Rightarrow> nat \<Rightarrow> nat \<Rightarrow> 't list \<Rightarrow> int \<Rightarrow> int \<Rightarrow> int \<Rightarrow>
   int \<Rightarrow> ('t, 'a::{plus,minus,uminus,times,inverse,zero,one}) arrays \<Rightarrow> ('t, 'a) arrays" where
  "thread_iteration nm compute multi_precision blockDim threadIdx g off n compute_group_size i_start a =
     (let idx = map (lane_index blockDim threadIdx i_start) [0..<PARALLEL_SIZE];
          loaded = map (load_lane nm multi_precision g off n compute_group_size a) idx;
          computed = map compute loaded
      in fold (store_lane nm multi_precision off n compute_group_size) (zip idx computed) a)"

text \<open>
  The \<^verbatim>\<open>i_start\<close> loop of one thread (source lines 78--138).  With \<^verbatim>\<open>blockDim.x = 0\<close>
  the step would be 0 and the loop would not end: the result is an option, \<open>None\<close>
  being "does not return".  The counter is a mathematical integer here; the loop with
  the 32-bit counter is \<open>device_thread_loop\<close>.
\<close>

partial_function (option) thread_loop ::
  "('t, 'a) numerics \<Rightarrow> ('a lane \<Rightarrow> 'a lane) \<Rightarrow> bool \<Rightarrow> nat \<Rightarrow> nat \<Rightarrow> 't list \<Rightarrow> int \<Rightarrow> int \<Rightarrow> int \<Rightarrow>
   int \<Rightarrow> ('t, 'a::{plus,minus,uminus,times,inverse,zero,one}) arrays \<Rightarrow> ('t, 'a) arrays option" where
  "thread_loop nm compute multi_precision blockDim threadIdx g off n compute_group_size i_start a =
     (if i_start < n \<and> i_start < compute_group_size
      then thread_loop nm compute multi_precision blockDim threadIdx g off n compute_group_size
             (i_start + int (blockDim * PARALLEL_SIZE))
             (thread_iteration nm compute multi_precision blockDim threadIdx g off n
                compute_group_size i_start a)
      else Some a)"

text \<open>
  The threads of a block share nothing but the arrays and do not synchronise; they are
  run one after the other, \<^verbatim>\<open>threadIdx.x\<close> from 0 to \<^verbatim>\<open>blockDim.x - 1\<close>.  (That no two
  of them touch the same position is part of what is proved below.)
\<close>

definition run_block ::
  "('t, 'a) numerics \<Rightarrow> ('a lane \<Rightarrow> 'a lane) \<Rightarrow> bool \<Rightarrow> nat \<Rightarrow> 't list \<Rightarrow> int \<Rightarrow> int \<Rightarrow> int \<Rightarrow>
   ('t, 'a::{plus,minus,uminus,times,inverse,zero,one}) arrays \<Rightarrow> ('t, 'a) arrays option" where
  "run_block nm compute multi_precision blockDim g off n compute_group_size a =
     fold (\<lambda>threadIdx r. Option.bind r
              (thread_loop nm compute multi_precision blockDim threadIdx g off n compute_group_size 0))
          [0..<blockDim] (Some a)"

text \<open>
  The positions that pass the guard, listed in the order of the loops: for a thread
  from \<^verbatim>\<open>i_start\<close> on, and for the block.  They are relative to the start of the
  compute group.
\<close>

function thread_accesses :: "nat \<Rightarrow> nat \<Rightarrow> int \<Rightarrow> int \<Rightarrow> int \<Rightarrow> int list" where
  "thread_accesses blockDim threadIdx n compute_group_size i_start =
     (if i_start < n \<and> i_start < compute_group_size \<and> 0 < blockDim
      then filter (in_guard n compute_group_size)
             (map (lane_index blockDim threadIdx i_start) [0..<PARALLEL_SIZE])
           @ thread_accesses blockDim threadIdx n compute_group_size
               (i_start + int (blockDim * PARALLEL_SIZE))
      else [])"
  by pat_completeness auto
termination
  by (relation "measure (\<lambda>(blockDim, threadIdx, n, compute_group_size, i_start).
                  nat (min n compute_group_size - i_start))")
     (auto simp: PARALLEL_SIZE_def)

definition block_accesses :: "nat \<Rightarrow> int \<Rightarrow> int \<Rightarrow> int list" where
  "block_accesses blockDim n compute_group_size =
     concat (map (\<lambda>threadIdx. thread_accesses blockDim threadIdx n compute_group_size 0) [0..<blockDim])"

text \<open>
  What a block is expected to leave behind.  \<open>write_where\<close> is the arrays \<open>a\<close> with
  the positions \<open>off + i\<close>, for the relative indices \<open>i\<close> that satisfy \<open>touched\<close>,
  overwritten by what the store loop writes from the lane \<open>h i\<close>, every other position
  and every length as in \<open>a\<close>.  \<open>chunk_update\<close> takes for \<open>touched\<close> the in-range
  part of the compute group and for \<open>h i\<close> the lane loaded from \<open>a\<close> itself at \<open>i\<close>
  and computed once.
\<close>

definition write_where ::
  "('t, 'a) numerics \<Rightarrow> bool \<Rightarrow> int \<Rightarrow> (int \<Rightarrow> bool) \<Rightarrow> (int \<Rightarrow> 'a lane) \<Rightarrow> ('t, 'a) arrays \<Rightarrow>
   ('t, 'a) arrays" where
  "write_where nm multi_precision off touched h a =
     \<lparr>arr_p = map (\<lambda>k. if touched (int k - off) then to_T nm (r_p (h (int k - off))) else arr_p a ! k)
                  [0..<length (arr_p a)],
      arr_m = map (\<lambda>k. if touched (int k - off) then r_m (h (int k - off)) else arr_m a ! k)
                  [0..<length (arr_m a)],
      arr_v = map (\<lambda>k. if touched (int k - off) then r_v (h (int k - off)) else arr_v a ! k)
                  [0..<length (arr_v a)],
      arr_mp = (if multi_precision
                then map (\<lambda>k. if touched (int k - off) then r_p (h (int k - off)) else arr_mp a ! k)
                         [0..<length (arr_mp a)]
                else arr_mp a)\<rparr>"

definition chunk_update ::
  "('t, 'a) numerics \<Rightarrow> ('a lane \<Rightarrow> 'a lane) \<Rightarrow> bool \<Rightarrow> 't list \<Rightarrow> int \<Rightarrow> int \<Rightarrow> int \<Rightarrow>
   ('t, 'a::{plus,minus,uminus,times,inverse,zero,one}) arrays \<Rightarrow> ('t, 'a) arrays" where
  "chunk_update nm compute multi_precision g off n compute_group_size a =
     write_where nm multi_precision off (\<lambda>i. 0 \<le> i \<and> in_guard n compute_group_size i)
       (\<lambda>i. compute (load_lane nm multi_precision g off n compute_group_size a i)) a"

text \<open>The arrays of a tensor of \<open>N\<close> elements.\<close>

definition sized :: "nat \<Rightarrow> bool \<Rightarrow> 't list \<Rightarrow> ('t, 'a) arrays \<Rightarrow> bool" where
  "sized N multi_precision g a =
     (length g = N \<and> length (arr_p a) = N \<and> length (arr_m a) = N \<and> length (arr_v a) = N \<and>
      (if multi_precision then length (arr_mp a) = N else True))"

section \<open>Multi-tensor Adam: the functor and the launch\<close>

text \<open>
  The table \<^verbatim>\<open>TensorAndBlockInf<N>\<close> is declared in
  \<^verbatim>\<open>multi_tensor_adam_utility_kernel.cuh\<close>, which is not among the sources at hand; the
  record has the members the functor reads.  Its pointer members \<^verbatim>\<open>grad[]\<close> and
  \<^verbatim>\<open>tensors_addr[][]\<close> are the lists of arrays below, indexed by \<^verbatim>\<open>tensor_id\<close>.
\<close>

record TensorAndBlockInf =
  tenosr_for_this_block :: "nat list"
  compute_group_for_this_block :: "int list"
  start_compute_group_this_tensor :: int
  sizes :: "int list"

record ('t, 'a) tensors =
  tensors_p :: "'t list list"
  tensors_m :: "'a list list"
  tensors_v :: "'a list list"
  tensors_mp :: "'a list list"

text \<open>\<^verbatim>\<open>CudaKernelFunctor::operator()\<close> for the block \<^verbatim>\<open>blockIdx.x\<close> of a launch with
  \<^verbatim>\<open>blockDim.x\<close> threads.  The three scalars behind pointers are one-element arrays.\<close>

definition CudaKernelFunctor ::
  "('t, 'a) numerics \<Rightarrow> nat \<Rightarrow> nat \<Rightarrow> int \<Rightarrow> TensorAndBlockInf \<Rightarrow> 't list list \<Rightarrow> 'a \<Rightarrow> 'a \<Rightarrow>
   'a list \<Rightarrow> 'a list \<Rightarrow> 'a \<Rightarrow> 'a list \<Rightarrow> bool \<Rightarrow> bool \<Rightarrow> 'a \<Rightarrow>
   ('t, 'a::{plus,minus,uminus,times,inverse,zero,one}) tensors \<Rightarrow> ('t, 'a) tensors option" where
  "CudaKernelFunctor nm blockDim blockIdx compute_group_size tabi grad beta1 beta2 beta1_pow_ptr beta2_pow_ptr
       epsilon learning_rate mode multi_precision decay ts =
     (let lr = learning_rate ! 0;
          beta1_pow = beta1_pow_ptr ! 0;
          beta2_pow = beta2_pow_ptr ! 0;
          tensor_id = tenosr_for_this_block tabi ! blockIdx;
          compute_group_idx = compute_group_for_this_block tabi ! blockIdx
                              + start_compute_group_this_tensor tabi;
          n = sizes tabi ! tensor_id;
          off = compute_group_idx * compute_group_size;
          a = \<lparr>arr_p = tensors_p ts ! tensor_id, arr_m = tensors_m ts ! tensor_id,
               arr_v = tensors_v ts ! tensor_id,
               arr_mp = (if multi_precision then tensors_mp ts ! tensor_id else [])\<rparr>
      in case run_block nm
                (compute_lane (sqrt_MT nm) beta1 beta2 beta1_pow beta2_pow epsilon lr mode decay)
                multi_precision blockDim (grad ! tensor_id) off (n - off) compute_group_size a of
           None \<Rightarrow> None
         | Some a' \<Rightarrow>
             Some (ts\<lparr>tensors_p := (tensors_p ts)[tensor_id := arr_p a'],
                      tensors_m := (tensors_m ts)[tensor_id := arr_m a'],
                      tensors_v := (tensors_v ts)[tensor_id := arr_v a'],
                      tensors_mp := (if multi_precision
                                     then (tensors_mp ts)[tensor_id := arr_mp a']
                                     else tensors_mp ts)\<rparr>))"

text \<open>
  Modelled from the spec: \<^verbatim>\<open>multi_tensor_adam_utility\<close> (of the header that is not at
  hand) builds the compute-group partition and dispatches one work-unit per compute
  group.  Per the data model of the specification, each tensor's flat element range is
  cut into chunks of \<^verbatim>\<open>compute_group_size\<close>, the last one possibly partial; each chunk
  gets a dense work-unit index, and the table records, per work-unit, its tensor and
  its chunk within that tensor.  The work-units are run by the functor, one block each,
  with \<^verbatim>\<open>block_size\<close> threads.
\<close>

definition num_compute_groups :: "int \<Rightarrow> int \<Rightarrow> nat" where
  "num_compute_groups n compute_group_size = nat ((n + compute_group_size - 1) div compute_group_size)"

definition build_partition :: "int list \<Rightarrow> int \<Rightarrow> TensorAndBlockInf" where
  "build_partition tensor_sizes compute_group_size =
     \<lparr>tenosr_for_this_block =
        concat (map (\<lambda>t. replicate (num_compute_groups (tensor_sizes ! t) compute_group_size) t)
                    [0..<length tensor_sizes]),
      compute_group_for_this_block =
        concat (map (\<lambda>t. map int [0..<num_compute_groups (tensor_sizes ! t) compute_group_size])
                    [0..<length tensor_sizes]),
      start_compute_group_this_tensor = 0,
      sizes = tensor_sizes\<rparr>"

definition multi_tensor_adam_utility ::
  "('t, 'a) numerics \<Rightarrow> nat \<Rightarrow> int \<Rightarrow> ('t, 'a) tensors \<Rightarrow> 't list list \<Rightarrow> 'a \<Rightarrow> 'a \<Rightarrow>
   'a list \<Rightarrow> 'a list \<Rightarrow> 'a \<Rightarrow> 'a list \<Rightarrow> bool \<Rightarrow> bool \<Rightarrow>
   ('a::{plus,minus,uminus,times,inverse,zero,one}) \<Rightarrow> (('t, 'a) tensors \<times> nat) option" where
  "multi_tensor_adam_utility nm block_size compute_group_size ts grad beta1 beta2 beta1_pow_ptr beta2_pow_ptr
       epsilon learning_rate mode multi_precision decay =
     (let tabi = build_partition (map (int \<circ> length) (tensors_p ts)) compute_group_size;
          work_units = length (tenosr_for_this_block tabi)
      in map_option (\<lambda>ts'. (ts', work_units))
           (fold (\<lambda>blockIdx r. Option.bind r
                    (CudaKernelFunctor nm block_size blockIdx compute_group_size tabi grad beta1 beta2
                       beta1_pow_ptr beta2_pow_ptr epsilon learning_rate mode multi_precision decay))
                 [0..<work_units] (Some ts)))"

section \<open>Multi-tensor Adam: the functor on the device\<close>

text \<open>
  The functor once more, this time with the machine in view.  A C \<^verbatim>\<open>int\<close> is an
  integer between \<open>- 2\<^sup>3\<^sup>1\<close> and \<open>2\<^sup>3\<^sup>1 - 1\<close>; arithmetic between two of them that
  leaves this range is undefined in C++ and is the fault \<open>SignedOverflow\<close> here.
  \<^verbatim>\<open>blockDim.x\<close> and \<^verbatim>\<open>threadIdx.x\<close> are \<^verbatim>\<open>unsigned\<close>, so the sums and products they
  take part in are computed modulo \<open>2\<^sup>3\<^sup>2\<close> (\<open>uint32\<close>) and the result is converted
  back when it is stored in an \<^verbatim>\<open>int\<close> (\<open>int32\<close>).  An array is accessed through
  \<open>read_at\<close> and \<open>write_at\<close>, which fault outside its extent, and every guarded load
  and store appends the position it touches to a log.
\<close>

datatype fault = SignedOverflow | OutOfBounds int

datatype access = Load int | Store int

definition then_do :: "'e + 'a \<Rightarrow> ('a \<Rightarrow> 'e + 'b) \<Rightarrow> 'e + 'b" where
  "then_do r f = (case r of Inl e \<Rightarrow> Inl e | Inr x \<Rightarrow> f x)"

definition uint32 :: "int \<Rightarrow> int" where
  "uint32 x = x mod 2 ^ 32"

definition int32 :: "int \<Rightarrow> int" where
  "int32 u = (if u < 2 ^ 31 then u else u - 2 ^ 32)"

definition checked_int :: "int \<Rightarrow> fault + int" where
  "checked_int x = (if - (2 ^ 31) \<le> x \<and> x < 2 ^ 31 then Inr x else Inl SignedOverflow)"

definition read_at :: "'x list \<Rightarrow> int \<Rightarrow> fault + 'x" where
  "read_at xs k = (if 0 \<le> k \<and> k < int (length xs) then Inr (xs ! nat k) else Inl (OutOfBounds k))"

definition write_at :: "'x list \<Rightarrow> int \<Rightarrow> 'x \<Rightarrow> fault + 'x list" where
  "write_at xs k x =
     (if 0 \<le> k \<and> k < int (length xs) then Inr (xs[nat k := x]) else Inl (OutOfBounds k))"

text \<open>\<^verbatim>\<open>int i = i_start + threadIdx.x + ii * blockDim.x\<close>: the operands are converted
  to \<^verbatim>\<open>unsigned\<close>, the sum is taken modulo \<open>2\<^sup>3\<^sup>2\<close> and converted to \<^verbatim>\<open>int\<close>.\<close>

definition device_lane_index :: "nat \<Rightarrow> nat \<Rightarrow> int \<Rightarrow> nat \<Rightarrow> int" where
  "device_lane_index blockDim threadIdx i_start ii =
     int32 (uint32 (uint32 (uint32 i_start + int threadIdx) + uint32 (uint32 (int ii) * int blockDim)))"

text \<open>\<^verbatim>\<open>i_start += blockDim.x * PARALLEL_SIZE\<close>, in the same way.\<close>

definition device_next_start :: "nat \<Rightarrow> int \<Rightarrow> int" where
  "device_next_start blockDim i_start =
     int32 (uint32 (uint32 i_start + uint32 (int blockDim * uint32 (int PARALLEL_SIZE))))"

text \<open>First unrolled loop (source lines 85--98), one \<^verbatim>\<open>ii\<close>.  The guard compares
  \<^verbatim>\<open>int\<close>s.  The pointers have been advanced by \<open>off\<close>, so index \<open>i\<close> is position
  \<open>off + i\<close> of the arrays.\<close>

definition device_load_lane ::
  "('t, 'a) numerics \<Rightarrow> bool \<Rightarrow> 't list \<Rightarrow> int \<Rightarrow> int \<Rightarrow> int \<Rightarrow> ('t, 'a) arrays \<Rightarrow> int \<Rightarrow>
   access list \<Rightarrow> fault + ('a::{plus,minus,uminus,times,inverse,zero,one}) lane \<times> access list" where
  "device_load_lane nm multi_precision g off n compute_group_size a i tr =
     (if i < n \<and> i < compute_group_size then
        then_do (read_at g (off + i)) (\<lambda>gv.
        then_do (if multi_precision then read_at (arr_mp a) (off + i)
                 else then_do (read_at (arr_p a) (off + i)) (\<lambda>pv. Inr (to_MT nm pv))) (\<lambda>pv.
        then_do (read_at (arr_m a) (off + i)) (\<lambda>mv.
        then_do (read_at (arr_v a) (off + i)) (\<lambda>vv.
          Inr (\<lparr>r_g = to_MT nm gv, r_p = pv, r_m = mv, r_v = vv\<rparr>, tr @ [Load (off + i)])))))
      else Inr (\<lparr>r_g = 0, r_p = 0, r_m = 0, r_v = 0\<rparr>, tr))"

fun device_load_lanes ::
  "('t, 'a) numerics \<Rightarrow> bool \<Rightarrow> 't list \<Rightarrow> int \<Rightarrow> int \<Rightarrow> int \<Rightarrow> ('t, 'a) arrays \<Rightarrow> int list \<Rightarrow>
   access list \<Rightarrow> fault + ('a::{plus,minus,uminus,times,inverse,zero,one}) lane list \<times> access list" where
  "device_load_lanes nm multi_precision g off n compute_group_size a [] tr = Inr ([], tr)"
| "device_load_lanes nm multi_precision g off n compute_group_size a (i # idx) tr =
     then_do (device_load_lane nm multi_precision g off n compute_group_size a i tr) (\<lambda>(r, tr').
     then_do (device_load_lanes nm multi_precision g off n compute_group_size a idx tr') (\<lambda>(rs, tr'').
       Inr (r # rs, tr'')))"

text \<open>Third unrolled loop (source lines 127--137), one \<^verbatim>\<open>ii\<close>.\<close>

definition device_store_lane ::
  "('t, 'a) numerics \<Rightarrow> bool \<Rightarrow> int \<Rightarrow> int \<Rightarrow> int \<Rightarrow> int \<times> 'a lane \<Rightarrow> ('t, 'a) arrays \<times> access list \<Rightarrow>
   fault + ('t, 'a) arrays \<times> access list" where
  "device_store_lane nm multi_precision off n compute_group_size ir s =
     (case ir of (i, r) \<Rightarrow> case s of (a, tr) \<Rightarrow>
        if i < n \<and> i < compute_group_size then
          then_do (write_at (arr_p a) (off + i) (to_T nm (r_p r))) (\<lambda>p'.
          then_do (write_at (arr_m a) (off + i) (r_m r)) (\<lambda>m'.
          then_do (write_at (arr_v a) (off + i) (r_v r)) (\<lambda>v'.
          then_do (if multi_precision then write_at (arr_mp a) (off + i) (r_p r)
                   else Inr (arr_mp a)) (\<lambda>mp'.
            Inr (\<lparr>arr_p = p', arr_m = m', arr_v = v', arr_mp = mp'\<rparr>, tr @ [Store (off + i)])))))
        else Inr (a, tr))"

fun device_store_lanes ::
  "('t, 'a) numerics \<Rightarrow> bool \<Rightarrow> int \<Rightarrow> int \<Rightarrow> int \<Rightarrow> (int \<times> 'a lane) list \<Rightarrow>
   ('t, 'a) arrays \<times> access list \<Rightarrow> fault + ('t, 'a) arrays \<times> access list" where
  "device_store_lanes nm multi_precision off n compute_group_size [] s = Inr s"
| "device_store_lanes nm multi_precision off n compute_group_size (ir # irs) s =
     then_do (device_store_lane nm multi_precision off n compute_group_size ir s)
       (device_store_lanes nm multi_precision off n compute_group_size irs)"

text \<open>The body of the \<^verbatim>\<open>i_start\<close> loop, for one thread: the three unrolled loops.\<close>

definition device_thread_iteration ::
  "('t, 'a) numerics \<Rightarrow> ('a lane \<Rightarrow> 'a lane) \<Rightarrow> bool \<Rightarrow> nat \<Rightarrow> nat \<Rightarrow> 't list \<Rightarrow> int \<Rightarrow> int \<Rightarrow> int \<Rightarrow>
   int \<Rightarrow> ('t, 'a::{plus,minus,uminus,times,inverse,zero,one}) arrays \<times> access list \<Rightarrow>
   fault + ('t, 'a) arrays \<times> access list" where
  "device_thread_iteration nm compute multi_precision blockDim threadIdx g off n compute_group_size
       i_start s =
     (let idx = map (device_lane_index blockDim threadIdx i_start) [0..<PARALLEL_SIZE] in
      then_do (device_load_lanes nm multi_precision g off n compute_group_size (fst s) idx (snd s))
        (\<lambda>(loaded, tr).
           device_store_lanes nm multi_precision off n compute_group_size
             (zip idx (map compute loaded)) (fst s, tr)))"

text \<open>
  The \<^verbatim>\<open>i_start\<close> loop of one thread (source lines 78--138).  \<open>None\<close> is "does not
  return"; a fault ends the thread.
\<close>

partial_function (option) device_thread_loop ::
  "('t, 'a) numerics \<Rightarrow> ('a lane \<Rightarrow> 'a lane) \<Rightarrow> bool \<Rightarrow> nat \<Rightarrow> nat \<Rightarrow> 't list \<Rightarrow> int \<Rightarrow> int \<Rightarrow> int \<Rightarrow>
   int \<Rightarrow> ('t, 'a::{plus,minus,uminus,times,inverse,zero,one}) arrays \<times> access list \<Rightarrow>
   (fault + ('t, 'a) arrays \<times> access list) option" where
  "device_thread_loop nm compute multi_precision blockDim threadIdx g off n compute_group_size
       i_start s =
     (if i_start < n \<and> i_start < compute_group_size
      then (case device_thread_iteration nm compute multi_precision blockDim threadIdx g off n
                   compute_group_size i_start s of
              Inl e \<Rightarrow> Some (Inl e)
            | Inr s' \<Rightarrow>
                device_thread_loop nm compute multi_precision blockDim threadIdx g off n
                  compute_group_size (device_next_start blockDim i_start) s')
      else Some (Inr s))"

text \<open>The threads of the block, one after the other, each from \<^verbatim>\<open>i_start = 0\<close>.\<close>

definition device_run_block ::
  "('t, 'a) numerics \<Rightarrow> ('a lane \<Rightarrow> 'a lane) \<Rightarrow> bool \<Rightarrow> nat \<Rightarrow> 't list \<Rightarrow> int \<Rightarrow> int \<Rightarrow> int \<Rightarrow>
   ('t, 'a::{plus,minus,uminus,times,inverse,zero,one}) arrays \<times> access list \<Rightarrow>
   (fault + ('t, 'a) arrays \<times> access list) option" where
  "device_run_block nm compute multi_precision blockDim g off n compute_group_size s =
     fold (\<lambda>threadIdx r.
             case r of
               Some (Inr s') \<Rightarrow>
                 device_thread_loop nm compute multi_precision blockDim threadIdx g off n
                   compute_group_size 0 s'
             | _ \<Rightarrow> r)
          [0..<blockDim] (Some (Inr s))"

text \<open>
  \<^verbatim>\<open>CudaKernelFunctor::operator()\<close> (source lines 40--139) for the block
  \<^verbatim>\<open>blockIdx.x\<close>.  \<^verbatim>\<open>compute_group_idx\<close>, the offset
  \<^verbatim>\<open>compute_group_idx * compute_group_size\<close> of the pointers and the remaining length
  \<^verbatim>\<open>n\<close> of line 76 are \<^verbatim>\<open>int\<close>s.  The result is the tensors and the log of the
  positions of tensor \<^verbatim>\<open>tensor_id\<close> that the block has loaded and stored.
\<close>

definition device_CudaKernelFunctor ::
  "('t, 'a) numerics \<Rightarrow> nat \<Rightarrow> nat \<Rightarrow> int \<Rightarrow> TensorAndBlockInf \<Rightarrow> 't list list \<Rightarrow> 'a \<Rightarrow> 'a \<Rightarrow>
   'a list \<Rightarrow> 'a list \<Rightarrow> 'a \<Rightarrow> 'a list \<Rightarrow> bool \<Rightarrow> bool \<Rightarrow> 'a \<Rightarrow>
   ('t, 'a::{plus,minus,uminus,times,inverse,zero,one}) tensors \<Rightarrow>
   (fault + ('t, 'a) tensors \<times> access list) option" where
  "device_CudaKernelFunctor nm blockDim blockIdx compute_group_size tabi grad beta1 beta2
       beta1_pow_ptr beta2_pow_ptr epsilon learning_rate mode multi_precision decay ts =
     (let lr = learning_rate ! 0;
          beta1_pow = beta1_pow_ptr ! 0;
          beta2_pow = beta2_pow_ptr ! 0;
          tensor_id = tenosr_for_this_block tabi ! blockIdx;
          a = \<lparr>arr_p = tensors_p ts ! tensor_id, arr_m = tensors_m ts ! tensor_id,
               arr_v = tensors_v ts ! tensor_id,
               arr_mp = (if multi_precision then tensors_mp ts ! tensor_id else [])\<rparr>
      in case then_do (checked_int (compute_group_for_this_block tabi ! blockIdx
                                    + start_compute_group_this_tensor tabi)) (\<lambda>compute_group_idx.
              then_do (checked_int (compute_group_idx * compute_group_size)) (\<lambda>off.
              then_do (checked_int (sizes tabi ! tensor_id - off)) (\<lambda>n. Inr (off, n)))) of
           Inl e \<Rightarrow> Some (Inl e)
         | Inr (off, n) \<Rightarrow>
             (case device_run_block nm
                     (compute_lane (sqrt_MT nm) beta1 beta2 beta1_pow beta2_pow epsilon lr mode decay)
                     multi_precision blockDim (grad ! tensor_id) off n compute_group_size (a, []) of
                None \<Rightarrow> None
              | Some (Inl e) \<Rightarrow> Some (Inl e)
              | Some (Inr (a', tr)) \<Rightarrow>
                  Some (Inr (ts\<lparr>tensors_p := (tensors_p ts)[tensor_id := arr_p a'],
                                tensors_m := (tensors_m ts)[tensor_id := arr_m a'],
                                tensors_v := (tensors_v ts)[tensor_id := arr_v a'],
                                tensors_mp := (if multi_precision
                                               then (tensors_mp ts)[tensor_id := arr_mp a']
                                               else tensors_mp ts)\<rparr>, tr))))"

text \<open>The positions a log loads and the positions it stores, in order.\<close>

fun loads :: "access list \<Rightarrow> int list" where
  "loads [] = []"
| "loads (Load k # tr) = k # loads tr"
| "loads (Store k # tr) = loads tr"

fun stores :: "access list \<Rightarrow> int list" where
  "stores [] = []"
| "stores (Load k # tr) = stores tr"
| "stores (Store k # tr) = k # stores tr"

text \<open>
  What the block of chunk \<open>[lo, hi)\<close> is expected to leave in the arrays of its
  tensor: at a position of the chunk, what the store loop writes from the lane that is
  computed from the four values the arrays held there; anywhere else, the old value.
\<close>

definition element_lane ::
  "('t, 'a) numerics \<Rightarrow> bool \<Rightarrow> 't list \<Rightarrow> ('t, 'a) arrays \<Rightarrow> nat \<Rightarrow> 'a lane" where
  "element_lane nm multi_precision g a k =
     \<lparr>r_g = to_MT nm (g ! k),
      r_p = (if multi_precision then arr_mp a ! k else to_MT nm (arr_p a ! k)),
      r_m = arr_m a ! k, r_v = arr_v a ! k\<rparr>"

definition chunk_result ::
  "('t, 'a) numerics \<Rightarrow> ('a lane \<Rightarrow> 'a lane) \<Rightarrow> bool \<Rightarrow> 't list \<Rightarrow> int \<Rightarrow> int \<Rightarrow> ('t, 'a) arrays \<Rightarrow>
   ('t, 'a) arrays" where
  "chunk_result nm compute multi_precision g lo hi a =
     \<lparr>arr_p = map (\<lambda>k. if lo \<le> int k \<and> int k < hi
                        then to_T nm (r_p (compute (element_lane nm multi_precision g a k)))
                        else arr_p a ! k) [0..<length (arr_p a)],
      arr_m = map (\<lambda>k. if lo \<le> int k \<and> int k < hi
                        then r_m (compute (element_lane nm multi_precision g a k))
                        else arr_m a ! k) [0..<length (arr_m a)],
      arr_v = map (\<lambda>k. if lo \<le> int k \<and> int k < hi
                        then r_v (compute (element_lane nm multi_precision g a k))
                        else arr_v a ! k) [0..<length (arr_v a)],
      arr_mp = (if multi_precision
                then map (\<lambda>k. if lo \<le> int k \<and> int k < hi
                               then r_p (compute (element_lane nm multi_precision g a k))
                               else arr_mp a ! k) [0..<length (arr_mp a)]
                else arr_mp a)\<rparr>"

text \<open>The arrays of tensor \<open>t\<close> as the functor takes them from the group, and the group
  with the arrays of tensor \<open>t\<close> put back.\<close>

definition tensor_arrays :: "bool \<Rightarrow> ('t, 'a) tensors \<Rightarrow> nat \<Rightarrow> ('t, 'a) arrays" where
  "tensor_arrays multi_precision ts t =
     \<lparr>arr_p = tensors_p ts ! t, arr_m = tensors_m ts ! t, arr_v = tensors_v ts ! t,
      arr_mp = (if multi_precision then tensors_mp ts ! t else [])\<rparr>"

definition put_tensor_arrays :: "bool \<Rightarrow> nat \<Rightarrow> ('t, 'a) arrays \<Rightarrow> ('t, 'a) tensors \<Rightarrow> ('t, 'a) tensors" where
  "put_tensor_arrays multi_precision t a ts =
     ts\<lparr>tensors_p := (tensors_p ts)[t := arr_p a],
        tensors_m := (tensors_m ts)[t := arr_m a],
        tensors_v := (tensors_v ts)[t := arr_v a],
        tensors_mp := (if multi_precision then (tensors_mp ts)[t := arr_mp a] else tensors_mp ts)\<rparr>"

text \<open>The chunk of a block: \<^verbatim>\<open>compute_group_idx\<close> of source lines 58--59.\<close>

definition chunk_of_block :: "TensorAndBlockInf \<Rightarrow> nat \<Rightarrow> int" where
  "chunk_of_block tabi b = compute_group_for_this_block tabi ! b + start_compute_group_this_tensor tabi"




section \<open>Multi-tensor Adam: the kernel\<close>

text \<open>
  \<^verbatim>\<open>MultiTensorAdamKernel\<close> (source lines 153--268).  A \<^verbatim>\<open>DenseTensor\<close> is the list of
  its elements.  The inputs are one record.  The outputs are pointers to tensors that
  exist before the call, so the kernel is a function of the inputs and of the output
  tensors as they are at entry: the skip path overwrites them with copies of inputs,
  the other path updates them in place (it reads \<^verbatim>\<open>params_out\<close>, \<^verbatim>\<open>moments1_out\<close>,
  \<^verbatim>\<open>moments2_out\<close>, \<^verbatim>\<open>master_param_out\<close>, not the input lists).  \<open>work_units\<close> counts
  the compute groups dispatched by the call; it is not a tensor.  The scalars
  \<^verbatim>\<open>beta1\<close>, \<^verbatim>\<open>beta2\<close>, \<^verbatim>\<open>epsilon\<close>, \<^verbatim>\<open>weight_decay\<close> are taken after their
  conversion to \<^verbatim>\<open>MPDType\<close>.
\<close>

record ('t, 'a) adam_inputs =
  params :: "'t list list"
  grads :: "'t list list"
  moments1 :: "'a list list"
  moments2 :: "'a list list"
  master_param :: "'a list list option"
  beta1_pow :: "'a list"
  beta2_pow :: "'a list"
  learning_rate :: "'a list"
  skip_update :: "bool list option"
  beta1 :: 'a
  beta2 :: 'a
  epsilon :: 'a
  compute_group_size :: int
  weight_decay :: 'a
  mode :: bool
  multi_precision :: bool
  use_global_beta_pow :: bool

record ('t, 'a) adam_outputs =
  params_out :: "'t list list"
  moments1_out :: "'a list list"
  moments2_out :: "'a list list"
  master_param_out :: "'a list list"
  beta1_pow_out :: "'a list"
  beta2_pow_out :: "'a list"
  work_units :: nat

text \<open>The copy loop of the skip path (source lines 203--209).  An index past the end
  of one of the vectors is the error \<open>VectorOutOfRange\<close>.\<close>

function skip_copy_loop ::
  "('t, 'a) adam_inputs \<Rightarrow> nat \<Rightarrow> ('t, 'a) adam_outputs \<Rightarrow> error + ('t, 'a) adam_outputs" where
  "skip_copy_loop a i s =
     (if i < length (params a) then
        (if i < length (moments1 a) \<and> i < length (moments2 a) \<and> i < length (params_out s) \<and>
            i < length (moments1_out s) \<and> i < length (moments2_out s)
         then skip_copy_loop a (Suc i)
                (s\<lparr>params_out := (params_out s)[i := params a ! i],
                   moments1_out := (moments1_out s)[i := moments1 a ! i],
                   moments2_out := (moments2_out s)[i := moments2 a ! i]\<rparr>)
         else Inl VectorOutOfRange)
      else Inr s)"
  by pat_completeness auto
termination
  by (relation "measure (\<lambda>(a, i, s). length (params a) - i)") auto

text \<open>\<^verbatim>\<open>UpdateBetaPow\<close> (source lines 142--151): every thread of the launch writes the
  same two values.\<close>

definition UpdateBetaPow ::
  "'a \<Rightarrow> 'a \<Rightarrow> 'a list \<Rightarrow> 'a list \<Rightarrow> ('t, 'a::times) adam_outputs \<Rightarrow> ('t, 'a) adam_outputs" where
  "UpdateBetaPow beta1' beta2' beta1_pow_ptr beta2_pow_ptr s =
     s\<lparr>beta1_pow_out := (beta1_pow_out s)[0 := beta1' * beta1_pow_ptr ! 0],
       beta2_pow_out := (beta2_pow_out s)[0 := beta2' * beta2_pow_ptr ! 0]\<rparr>"

definition MultiTensorAdamKernel ::
  "('t, 'a) numerics \<Rightarrow> ('t, 'a) adam_inputs \<Rightarrow>
   ('t, 'a::{plus,minus,uminus,times,inverse,zero,one}) adam_outputs \<Rightarrow>
   (error + ('t, 'a) adam_outputs) option" where
  "MultiTensorAdamKernel nm a s =
     (case (case skip_update a of
              None \<Rightarrow> Inr False
            | Some skip_update_vec \<Rightarrow>
                if length skip_update_vec \<noteq> 1
                then Inl (InvalidArgument_SkipUpdate (length skip_update_vec))
                else Inr (skip_update_vec ! 0)) of
        Inl e \<Rightarrow> Some (Inl e)
      | Inr skip_update_flag \<Rightarrow>
          if skip_update_flag then
            (case skip_copy_loop a 0 s of
               Inl e \<Rightarrow> Some (Inl e)
             | Inr s' \<Rightarrow> Some (Inr (s'\<lparr>beta1_pow_out := beta1_pow a, beta2_pow_out := beta2_pow a\<rparr>)))
          else
            (case multi_tensor_adam_utility nm BLOCK_SIZE (compute_group_size a)
                    \<lparr>tensors_p = params_out s, tensors_m = moments1_out s,
                     tensors_v = moments2_out s, tensors_mp = master_param_out s\<rparr>
                    (grads a) (beta1 a) (beta2 a) (beta1_pow a) (beta2_pow a) (epsilon a)
                    (learning_rate a) (mode a) (multi_precision a) (weight_decay a) of
               None \<Rightarrow> None
             | Some (ts, launched) \<Rightarrow>
                 let s1 = s\<lparr>params_out := tensors_p ts, moments1_out := tensors_m ts,
                            moments2_out := tensors_v ts, master_param_out := tensors_mp ts,
                            work_units := work_units s + launched\<rparr>
                 in Some (Inr (if \<not> use_global_beta_pow a
                               then UpdateBetaPow (beta1 a) (beta2 a) (beta1_pow a) (beta2_pow a) s1
                               else s1))))"

section \<open>oneDNN matmul: reading the executions\<close>

text \<open>
  A primitive execution multiplies the matrix it is shown at the source handle by the
  one at the weights handle.  Whether an operand is shown as stored or transposed is
  told by the strides alone: for a view of \<open>rows \<times> cols\<close>, the stored layout has
  strides \<open>[rows*cols, cols, 1]\<close> and the transposed one \<open>[rows*cols, 1, rows]\<close>.
\<close>

datatype layout = Plain | Transposed

definition strides_of :: "layout \<Rightarrow> int \<Rightarrow> int \<Rightarrow> int list" where
  "strides_of l rows cols =
     (case l of Plain \<Rightarrow> [rows * cols, cols, 1] | Transposed \<Rightarrow> [rows * cols, 1, rows])"

fun base :: "buffer \<Rightarrow> string" where
  "base (Buf n) = n"
| "base (Reordered b) = base b"

text \<open>\<open>is_product e a b out\<close>: the execution \<open>e\<close> reads the buffer named \<open>fst a\<close> (or a
  reordered copy of it) in layout \<open>snd a\<close> as its left factor, the buffer named \<open>fst b\<close>
  in layout \<open>snd b\<close> as its right factor, and writes the buffer named \<open>out\<close>.\<close>

definition is_product :: "prim_exec \<Rightarrow> string \<times> layout \<Rightarrow> string \<times> layout \<Rightarrow> string \<Rightarrow> bool" where
  "is_product e a b out =
     (let d = e_desc e in
      base (fst (e_src e)) = fst a \<and>
      x_strides_md d = strides_of (snd a) (x_dims_md d ! 1) (x_dims_md d ! 2) \<and>
      base (fst (e_weights e)) = fst b \<and>
      y_strides_md d = strides_of (snd b) (y_dims_md d ! 1) (y_dims_md d ! 2) \<and>
      base (fst (e_dst e)) = out)"

text \<open>
  The table of section 4.3 of the specification, as it is printed there: for each pair
  of forward flags, the two factors of \<open>dX\<close> and the two factors of \<open>dY\<close>.
\<close>

type_synonym product = "(string \<times> layout) \<times> (string \<times> layout)"

definition spec_grad_table :: "string \<Rightarrow> string \<Rightarrow> string \<Rightarrow> bool \<Rightarrow> bool \<Rightarrow> product \<times> product" where
  "spec_grad_table X Y dOut trans_x' trans_y' =
     (if \<not> trans_x' \<and> \<not> trans_y' then
        (((dOut, Plain), (Y, Transposed)), ((X, Transposed), (dOut, Plain)))
      else if \<not> trans_x' \<and> trans_y' then
        (((dOut, Plain), (Y, Plain)), ((X, Transposed), (dOut, Plain)))
      else if trans_x' \<and> \<not> trans_y' then
        (((Y, Plain), (dOut, Transposed)), ((X, Plain), (dOut, Plain)))
      else
        (((Y, Transposed), (dOut, Transposed)), ((dOut, Transposed), (X, Transposed))))"

text \<open>The same table with the one cell changed that the kernel computes otherwise:
  for \<open>(F, T)\<close>, \<open>dY\<close> is the product of \<open>dOut\<close> transposed and \<open>X\<close>.\<close>

definition amended_grad_table :: "string \<Rightarrow> string \<Rightarrow> string \<Rightarrow> bool \<Rightarrow> bool \<Rightarrow> product \<times> product" where
  "amended_grad_table X Y dOut trans_x' trans_y' =
     (if \<not> trans_x' \<and> \<not> trans_y' then
        (((dOut, Plain), (Y, Transposed)), ((X, Transposed), (dOut, Plain)))
      else if \<not> trans_x' \<and> trans_y' then
        (((dOut, Plain), (Y, Plain)), ((dOut, Transposed), (X, Plain)))
      else if trans_x' \<and> \<not> trans_y' then
        (((Y, Plain), (dOut, Transposed)), ((X, Plain), (dOut, Plain)))
      else
        (((Y, Transposed), (dOut, Transposed)), ((dOut, Transposed), (X, Transposed))))"

text \<open>\<open>executes_table lib ctx s tab\<close>: run from \<open>s\<close>, the gradient kernel returns
  without error, having issued two executions, the first being the \<open>dX\<close> product of
  \<open>tab\<close> written to \<^verbatim>\<open>dx\<close> and the second the \<open>dY\<close> product written to \<^verbatim>\<open>dy\<close>.\<close>

definition executes_table :: "funcs \<Rightarrow> ExecutionContext \<Rightarrow> grad_state \<Rightarrow> product \<times> product \<Rightarrow> bool" where
  "executes_table lib ctx s tab =
     (case MatMulGrad_Compute lib ctx s of
        (Some e, s') \<Rightarrow> False
      | (None, s') \<Rightarrow>
          (case (dx s, dy s, drop (length (execs s)) (execs s')) of
             (Some dxt, Some dyt, [e1, e2]) \<Rightarrow>
               is_product e1 (fst (fst tab)) (snd (fst tab)) (base (holder dxt)) \<and>
               is_product e2 (fst (snd tab)) (snd (snd tab)) (base (holder dyt))
           | _ \<Rightarrow> False))"

text \<open>An attribute that is read under one name if the context has it and under a
  second name otherwise, as the kernels read the two transposition flags.\<close>

definition resolved_flag :: "bool option \<Rightarrow> bool option \<Rightarrow> bool option" where
  "resolved_flag first fallback = (case first of Some b \<Rightarrow> Some b | None \<Rightarrow> fallback)"

text \<open>What "one execution per output batch index" would mean for a list of
  executions that share a descriptor.\<close>

definition one_exec_per_batch_index :: "prim_exec list \<Rightarrow> bool" where
  "one_exec_per_batch_index es =
     (case es of [] \<Rightarrow> False | e # _ \<Rightarrow> int (length es) = out_dims_md (e_desc e) ! 0)"

text \<open>The broadcast vector of the specification: a shape right-aligned in \<open>n\<close>
  positions, the missing leading positions being 1.\<close>

definition right_aligned :: "nat \<Rightarrow> int list \<Rightarrow> int list" where
  "right_aligned n ds = replicate (n - length ds) 1 @ ds"

definition incompatible_at :: "int list \<Rightarrow> int list \<Rightarrow> nat \<Rightarrow> bool" where
  "incompatible_at xs ys i = (xs ! i \<noteq> ys ! i \<and> xs ! i \<noteq> 1 \<and> ys ! i \<noteq> 1)"

section \<open>Sample inputs\<close>

text \<open>
  An instance of the library parameters, for running the model on concrete inputs.
  The matrix descriptor follows the data model of the specification: height and width
  are the trailing two sizes, swapped under transposition, and the batch size is the
  product of the leading sizes (0 for a plain matrix, which is what the kernel tests
  for).
\<close>

definition sample_funcs :: funcs where
  "sample_funcs =
     \<lparr>RowMatrixDimsFromVector = (\<lambda>d. if length d > 1 then d else [1, d ! 0]),
      ColumnMatrixDimsFromVector = (\<lambda>d. if length d > 1 then d else [d ! 0, 1]),
      CreateMatrixDescriptor = (\<lambda>d n t.
         let h = d ! (length d - 2); w = d ! (length d - 1) in
         \<lparr>m_height = (if t then w else h), m_width = (if t then h else w), m_stride = h * w,
          m_batch_size = (if length d = 2 then 0 else prod_list (take (length d - 2) d)),
          m_trans = t\<rparr>),
      ddim_reshape = (\<lambda>d shape. shape),
      ddim_transpose = (\<lambda>d axis. map (\<lambda>a. d ! nat a) axis)\<rparr>"

definition sample_ctx :: "int list \<Rightarrow> int list \<Rightarrow> int list \<Rightarrow> ExecutionContext" where
  "sample_ctx xd yd od =
     \<lparr>head_number = None, trans_x = None, trans_y = None,
      transpose_X = Some False, transpose_Y = Some False, alpha = None,
      force_fp32_output = None,
      fused_reshape_X = [], fused_transpose_X = [],
      fused_reshape_Y = [], fused_transpose_Y = [],
      fused_reshape_Out = [], fused_transpose_Out = [],
      Input_X = \<lparr>dims = xd, holder = Buf ''X''\<rparr>,
      Input_Y = \<lparr>dims = yd, holder = Buf ''Y''\<rparr>,
      Input_Out_GRAD = \<lparr>dims = od, holder = Buf ''Out@GRAD''\<rparr>\<rparr>"

definition sample_grad_state :: "int list \<Rightarrow> int list \<Rightarrow> grad_state" where
  "sample_grad_state xd yd =
     \<lparr>dx = Some \<lparr>dims = xd, holder = Buf ''X@GRAD''\<rparr>,
      dy = Some \<lparr>dims = yd, holder = Buf ''Y@GRAD''\<rparr>,
      execs = []\<rparr>"

text \<open>Inputs of the Adam kernel, in real arithmetic with identity casts.\<close>

definition sample_numerics :: "(real, real) numerics" where
  "sample_numerics = \<lparr>sqrt_MT = sqrt, to_MT = (\<lambda>x. x), to_T = (\<lambda>x. x)\<rparr>"





definition sample_adam_inputs :: "bool list option \<Rightarrow> bool \<Rightarrow> (real, real) adam_inputs" where
  "sample_adam_inputs skip global =
     \<lparr>params = [[1, 2]], grads = [[1, 1]], moments1 = [[0, 0]], moments2 = [[0, 0]],
      master_param = None, beta1_pow = [3], beta2_pow = [5], learning_rate = [1],
      skip_update = skip, beta1 = 2, beta2 = 4, epsilon = 1, compute_group_size = 2,
      weight_decay = 0, mode = False, multi_precision = False, use_global_beta_pow = global\<rparr>"

definition sample_adam_outputs :: "(real, real) adam_outputs" where
  "sample_adam_outputs =
     \<lparr>params_out = [[7, 7]], moments1_out = [[7, 7]], moments2_out = [[7, 7]],
      master_param_out = [[9, 9]], beta1_pow_out = [7], beta2_pow_out = [7], work_units = 0\<rparr>"

definition sample_desc :: matmul_desc where
  "sample_desc =
     MatMulMKLDNNHandler sample_funcs \<lparr>dims = [1, 2, 2], holder = Buf ''X''\<rparr> False
       \<lparr>dims = [2, 2, 2], holder = Buf ''Y''\<rparr> False 1"

text \<open>
  The executions that the gradient path issues for \<open>dX\<close> when \<open>Y\<close> is broadcast:
  \<open>dOut\<close> has batch size 2, \<open>Y\<close> has batch size 1, and the output has batch size 2.
\<close>

definition sample_broadcast_execs :: "prim_exec list" where
  "sample_broadcast_execs =
     execs (snd (ExecuteMatMulGrad sample_funcs (sample_ctx [2, 1, 1] [1, 1, 1] [2, 1, 1])
                   \<lparr>dims = [2, 1, 1], holder = Buf ''Out@GRAD''\<rparr> False False
                   \<lparr>dims = [1, 1, 1], holder = Buf ''Y''\<rparr> True False DX
                   (sample_grad_state [2, 1, 1] [1, 1, 1])))"

section \<open>Theorems\<close>

lemma step_as_subtraction:
  fixes p :: "'a::field"
  shows "p + (m / d) * (- (lr / c)) = p - lr * (m / d) / c"
  by (simp add: divide_inverse algebra_simps)

text \<open>
  C1.  In exact (field) arithmetic, whatever function stands for the square root, the
  registers that the kernel computes for an element are the specification's update:
  \<open>m := beta1*m + (1-beta1)*g\<close>, \<open>v := beta2*v + (1-beta2)*g*g\<close>,
  \<open>denom := sqrt(v)/sqrt(1-beta2_pow) + epsilon\<close> with \<open>epsilon\<close> outside the root,
  \<open>p := p - lr*(m/denom)/(1-beta1_pow)\<close>; the two modes differ only by the shrink
  \<open>p * (1 - lr*decay)\<close> applied first in decoupled mode, and the gradient register is
  left as loaded.
\<close>

theorem C1_compute_lane_is_spec_step:
  fixes beta1 beta2 beta1_pow beta2_pow epsilon lr decay :: "'a::field" and mode :: bool
  shows "(let r' = compute_lane sqrt' beta1 beta2 beta1_pow beta2_pow epsilon lr mode decay r
          in ((r_p r', r_m r', r_v r'), r_g r')) =
         (adam_spec_step sqrt' beta1 beta2 beta1_pow beta2_pow epsilon lr mode decay
            (r_p r, r_g r, r_m r, r_v r), r_g r)"
  by (simp add: compute_lane_def adam_spec_step_def Let_def step_as_subtraction)


subsection \<open>oneDNN matmul: rejected attribute\<close>

text \<open>
  C9.  A context that carries \<^verbatim>\<open>head_number\<close> with a value other than 1 makes the forward
  kernel and the gradient kernel stop at their first statement with the error that
  reports that value; the state (the outputs, and the executions issued) is returned as
  it was given.
\<close>

theorem C9_head_number_rejected:
  assumes "head_number ctx = Some hn" and "hn \<noteq> 1"
  shows "MatMulV2_Compute lib exec_v2 T ctx s = (Some (Unimplemented_head_number hn), s) \<and>
         MatMulGrad_Compute lib ctx g = (Some (Unimplemented_head_number hn), g)"
  using assms by (simp add: MatMulV2_Compute_def MatMulGrad_Compute_def head_number_check_def)

theorem C9_head_number_rejected_witness:
  "head_number ((sample_ctx [2, 3] [3, 2] [2, 2])\<lparr>head_number := Some 2\<rparr>) = Some 2 \<and> (2::int) \<noteq> 1 \<and>
   MatMulV2_Compute sample_funcs (\<lambda>T xb tx yb ty s. (None, s)) Float32
       ((sample_ctx [2, 3] [3, 2] [2, 2])\<lparr>head_number := Some 2\<rparr>)
       (\<lparr>dims = [2, 2], holder = Buf ''Out''\<rparr>, ())
     = (Some (Unimplemented_head_number 2), (\<lparr>dims = [2, 2], holder = Buf ''Out''\<rparr>, ())) \<and>
   MatMulGrad_Compute sample_funcs ((sample_ctx [2, 3] [3, 2] [2, 2])\<lparr>head_number := Some 2\<rparr>)
       (sample_grad_state [2, 3] [3, 2])
     = (Some (Unimplemented_head_number 2), sample_grad_state [2, 3] [3, 2])"
  using C9_head_number_rejected [of "(sample_ctx [2, 3] [3, 2] [2, 2])\<lparr>head_number := Some 2\<rparr>" 2
      sample_funcs "\<lambda>T xb tx yb ty s. (None, s)" Float32 "(\<lparr>dims = [2, 2], holder = Buf ''Out''\<rparr>, ())"
      "sample_grad_state [2, 3] [3, 2]"]
  by (simp add: sample_ctx_def)


subsection \<open>oneDNN matmul: the gradient table\<close>

lemma handler_src_layout:
  "x_strides_md (MatMulMKLDNNHandler lib x tx y ty a) =
     strides_of (if tx then Transposed else Plain)
       (x_dims_md (MatMulMKLDNNHandler lib x tx y ty a) ! 1)
       (x_dims_md (MatMulMKLDNNHandler lib x tx y ty a) ! 2)"
  by (simp add: MatMulMKLDNNHandler_def Let_def strides_of_def)

lemma handler_weights_layout:
  "y_strides_md (MatMulMKLDNNHandler lib x tx y ty a) =
     strides_of (if ty then Transposed else Plain)
       (y_dims_md (MatMulMKLDNNHandler lib x tx y ty a) ! 1)
       (y_dims_md (MatMulMKLDNNHandler lib x tx y ty a) ! 2)"
  by (simp add: MatMulMKLDNNHandler_def Let_def strides_of_def mult.commute)

lemma base_fold [simp]:
  "base (holder (FoldOuterDims t)) = base (holder t)"
  "base (holder (FoldFirstAndLastDims t)) = base (holder t)"
  by (simp_all add: FoldOuterDims_def FoldFirstAndLastDims_def Let_def)

lemma ExecuteMatMulGrad_present:
  assumes "deref out s = Some ot"
  shows "\<exists>e. ExecuteMatMulGrad lib ctx x tx fx y ty fy out s = (None, s\<lparr>execs := execs s @ [e]\<rparr>) \<and>
             is_product e (base (holder x), if tx then Transposed else Plain)
                          (base (holder y), if ty then Transposed else Plain) (base (holder ot)) \<and>
             snd (e_src e) = 0 \<and> snd (e_weights e) = 0 \<and> snd (e_dst e) = 0"
proof -
  define nc where "nc = ((length (dims x) = 3 \<or> length (dims y) = 3) \<and> length (dims ot) = 2)"
  define xc where "xc = (if \<not> nc then x else if fx then FoldOuterDims x else FoldFirstAndLastDims x)"
  define yc where "yc = (if \<not> nc then y else if fy then FoldOuterDims y else FoldFirstAndLastDims y)"
  define e where "e = \<lparr>e_desc = MatMulMKLDNNHandler lib xc tx yc ty (case alpha ctx of Some a \<Rightarrow> a | None \<Rightarrow> 1),
                       e_src = (holder xc, 0::nat), e_weights = (holder yc, 0::nat),
                       e_dst = (holder ot, 0::nat)\<rparr>"
  have run: "ExecuteMatMulGrad lib ctx x tx fx y ty fy out s = (None, s\<lparr>execs := execs s @ [e]\<rparr>)"
    using assms by (simp add: ExecuteMatMulGrad_def Let_def e_def xc_def yc_def nc_def)
  have bx: "base (holder xc) = base (holder x)" and "base (holder yc) = base (holder y)"
    by (simp_all add: xc_def yc_def)
  then have "is_product e (base (holder x), if tx then Transposed else Plain)
                          (base (holder y), if ty then Transposed else Plain) (base (holder ot))"
    unfolding is_product_def Let_def e_def
    by (simp add: handler_src_layout handler_weights_layout)
  moreover have "snd (e_src e) = 0 \<and> snd (e_weights e) = 0 \<and> snd (e_dst e) = 0"
    by (simp add: e_def)
  ultimately show ?thesis using run by blast
qed


lemma deref_execs [simp]: "deref out (s\<lparr>execs := es\<rparr>) = deref out s"
  by (simp add: deref_def split: out_ptr.splits)

lemma MatMulGrad_cases_run:
  assumes "dx s = Some a" and "dy s = Some b"
  shows "\<exists>e1 e2. MatMulGrad_cases lib ctx x y dout tx ty s = (None, s\<lparr>execs := execs s @ [e1, e2]\<rparr>) \<and>
           is_product e1
             (fst (fst (amended_grad_table (base (holder x)) (base (holder y)) (base (holder dout)) tx ty)))
             (snd (fst (amended_grad_table (base (holder x)) (base (holder y)) (base (holder dout)) tx ty)))
             (base (holder a)) \<and>
           is_product e2
             (fst (snd (amended_grad_table (base (holder x)) (base (holder y)) (base (holder dout)) tx ty)))
             (snd (snd (amended_grad_table (base (holder x)) (base (holder y)) (base (holder dout)) tx ty)))
             (base (holder b))"
proof -
  have two: "\<exists>e1 e2. and_then (ExecuteMatMulGrad lib ctx u tu fu v tv fv DX)
                               (ExecuteMatMulGrad lib ctx u' tu' fu' v' tv' fv' DY) s
                      = (None, s\<lparr>execs := execs s @ [e1, e2]\<rparr>) \<and>
               is_product e1 (base (holder u), if tu then Transposed else Plain)
                             (base (holder v), if tv then Transposed else Plain) (base (holder a)) \<and>
               is_product e2 (base (holder u'), if tu' then Transposed else Plain)
                             (base (holder v'), if tv' then Transposed else Plain) (base (holder b))"
    for u tu fu v tv fv u' tu' fu' v' tv' fv'
  proof -
    have "deref DX s = Some a"
      using assms by (simp add: deref_def)
    from ExecuteMatMulGrad_present [OF this, of lib ctx u tu fu v tv fv]
    obtain e1 where
      r1: "ExecuteMatMulGrad lib ctx u tu fu v tv fv DX s = (None, s\<lparr>execs := execs s @ [e1]\<rparr>)"
      and p1: "is_product e1 (base (holder u), if tu then Transposed else Plain)
                 (base (holder v), if tv then Transposed else Plain) (base (holder a))"
      by blast
    have "deref DY (s\<lparr>execs := execs s @ [e1]\<rparr>) = Some b"
      using assms by (simp add: deref_def)
    from ExecuteMatMulGrad_present [OF this, of lib ctx u' tu' fu' v' tv' fv']
    obtain e2 where
      r2: "ExecuteMatMulGrad lib ctx u' tu' fu' v' tv' fv' DY (s\<lparr>execs := execs s @ [e1]\<rparr>)
           = (None, s\<lparr>execs := execs s @ [e1]\<rparr>\<lparr>execs := execs (s\<lparr>execs := execs s @ [e1]\<rparr>) @ [e2]\<rparr>)"
      and p2: "is_product e2 (base (holder u'), if tu' then Transposed else Plain)
                 (base (holder v'), if tv' then Transposed else Plain) (base (holder b))"
      by blast
    have "and_then (ExecuteMatMulGrad lib ctx u tu fu v tv fv DX)
                   (ExecuteMatMulGrad lib ctx u' tu' fu' v' tv' fv' DY) s
          = (None, s\<lparr>execs := execs s @ [e1, e2]\<rparr>)"
      by (simp add: and_then_def r1 r2)
    with p1 p2 show ?thesis by blast
  qed
  show ?thesis
  proof (cases tx; cases ty)
    assume "tx" "ty"
    then show ?thesis
      using two [of y True True dout True False dout True True x True False]
      by (simp add: MatMulGrad_cases_def amended_grad_table_def)
  next
    assume "tx" "\<not> ty"
    then show ?thesis
      using two [of y False False dout True False x False False dout False True]
      by (simp add: MatMulGrad_cases_def amended_grad_table_def)
  next
    assume "\<not> tx" "ty"
    then show ?thesis
      using two [of dout False False y False True dout True True x False True]
      by (simp add: MatMulGrad_cases_def amended_grad_table_def)
  next
    assume "\<not> tx" "\<not> ty"
    then show ?thesis
      using two [of dout False False y True False x True True dout False True]
      by (simp add: MatMulGrad_cases_def amended_grad_table_def)
  qed
qed


lemma resolved_flag_Inr:
  "resolved_flag a b = Some t \<Longrightarrow> (case a of Some v \<Rightarrow> Inr v | None \<Rightarrow> Attr_bool n b) = Inr t"
  by (simp add: resolved_flag_def Attr_bool_def split: option.splits)

lemma Reshape_holders:
  "ReshapeXYOutToMatrixSequence lib x y out tx ty = (x', y', out') \<Longrightarrow>
   holder x' = holder x \<and> holder y' = holder y \<and> holder out' = holder out"
  by (auto simp: ReshapeXYOutToMatrixSequence_def ReshapeTensorToMatrixSequence_def Let_def
           split: if_splits)

lemma resize_out_simps [simp]:
  "execs (resize_out out d s) = execs s"
  "map_option holder (dx (resize_out out d s)) = map_option holder (dx s)"
  "map_option holder (dy (resize_out out d s)) = map_option holder (dy s)"
  by (simp_all add: resize_out_def option.map_comp comp_def split: out_ptr.splits)

lemma resize_if_differs_simps [simp]:
  "execs (resize_if_differs out d s) = execs s"
  "map_option holder (dx (resize_if_differs out d s)) = map_option holder (dx s)"
  "map_option holder (dy (resize_if_differs out d s)) = map_option holder (dy s)"
  by (simp_all add: resize_if_differs_def split: option.splits del: map_option_eq_Some)

lemma restore_dims_execs [simp]: "execs (restore_dims out saved d s) = execs s"
  by (simp add: restore_dims_def split: option.splits)

lemma MatMulGrad_Compute_unfold:
  assumes "head_number ctx = None \<or> head_number ctx = Some 1"
    and "resolved_flag (transpose_X ctx) (trans_x ctx) = Some tx"
    and "resolved_flag (transpose_Y ctx) (trans_y ctx) = Some ty"
    and "ReshapeXYOutToMatrixSequence lib (Input_X ctx) (Input_Y ctx) (Input_Out_GRAD ctx) tx ty
         = (x, y, dout)"
  shows "MatMulGrad_Compute lib ctx s =
           (case MatMulGrad_cases lib ctx x y dout tx ty
                   (resize_if_differs DY (dims y) (resize_if_differs DX (dims x) s)) of
              (Some e, s3) \<Rightarrow> (Some e, s3)
            | (None, s3) \<Rightarrow>
                (None, restore_dims DY (map_option dims (dy (resize_if_differs DX (dims x) s))) (dims y)
                         (restore_dims DX (map_option dims (dx s)) (dims x) s3)))"
proof -
  have "head_number_check ctx = None"
    using assms(1) by (auto simp: head_number_check_def)
  then show ?thesis
    using assms(4)
    by (simp add: MatMulGrad_Compute_def resolved_flag_Inr [OF assms(2)]
        resolved_flag_Inr [OF assms(3)] Let_def)
qed

text \<open>
  C2 (amended).  With both outputs present, the flags resolved to \<open>(tx, ty)\<close> and
  \<^verbatim>\<open>head_number\<close> absent or 1, the gradient kernel returns without error after
  exactly two executions: the \<open>dX\<close> product and then the \<open>dY\<close> product of the table
  \<open>(F,F): dX = dOut \<cdot> Y\<^sup>T, dY = X\<^sup>T \<cdot> dOut\<close>;
  \<open>(F,T): dX = dOut \<cdot> Y, dY = dOut\<^sup>T \<cdot> X\<close>;
  \<open>(T,F): dX = Y \<cdot> dOut\<^sup>T, dY = X \<cdot> dOut\<close>;
  \<open>(T,T): dX = Y\<^sup>T \<cdot> dOut\<^sup>T, dY = dOut\<^sup>T \<cdot> X\<^sup>T\<close>,
  each factor being read from the named buffer (or its reordered copy) with the strides
  of the stored or of the transposed layout.
\<close>

theorem C2_gradient_table_amended:
  assumes head: "head_number ctx = None \<or> head_number ctx = Some 1"
    and tx: "resolved_flag (transpose_X ctx) (trans_x ctx) = Some tx"
    and ty: "resolved_flag (transpose_Y ctx) (trans_y ctx) = Some ty"
    and dx: "dx s = Some dxt" and dy: "dy s = Some dyt"
  shows "executes_table lib ctx s
           (amended_grad_table (base (holder (Input_X ctx))) (base (holder (Input_Y ctx)))
              (base (holder (Input_Out_GRAD ctx))) tx ty)"
proof -
  let ?tab = "amended_grad_table (base (holder (Input_X ctx))) (base (holder (Input_Y ctx)))
              (base (holder (Input_Out_GRAD ctx))) tx ty"
  obtain x y dout where
    reshape: "ReshapeXYOutToMatrixSequence lib (Input_X ctx) (Input_Y ctx) (Input_Out_GRAD ctx) tx ty
              = (x, y, dout)"
    by (cases "ReshapeXYOutToMatrixSequence lib (Input_X ctx) (Input_Y ctx) (Input_Out_GRAD ctx) tx ty")
  from Reshape_holders [OF this]
  have holders: "holder x = holder (Input_X ctx)" "holder y = holder (Input_Y ctx)"
    "holder dout = holder (Input_Out_GRAD ctx)"
    by simp_all
  define s2 where "s2 = resize_if_differs DY (dims y) (resize_if_differs DX (dims x) s)"
  have "map_option holder (dx s2) = Some (holder dxt)"
    "map_option holder (dy s2) = Some (holder dyt)" "execs s2 = execs s"
    using dx dy by (simp_all add: s2_def del: map_option_eq_Some)
  then obtain a b where ab: "execs s2 = execs s" "dx s2 = Some a" "holder a = holder dxt"
    "dy s2 = Some b" "holder b = holder dyt"
    by auto
  from MatMulGrad_cases_run [OF ab(2) ab(4), of lib ctx x y dout tx ty]
  obtain e1 e2 where
    run: "MatMulGrad_cases lib ctx x y dout tx ty s2 = (None, s2\<lparr>execs := execs s2 @ [e1, e2]\<rparr>)"
    and p1: "is_product e1 (fst (fst ?tab)) (snd (fst ?tab)) (base (holder dxt))"
    and p2: "is_product e2 (fst (snd ?tab)) (snd (snd ?tab)) (base (holder dyt))"
    unfolding holders ab(3) ab(5) by blast
  have "fst (MatMulGrad_Compute lib ctx s) = None"
    "execs (snd (MatMulGrad_Compute lib ctx s)) = execs s @ [e1, e2]"
    unfolding MatMulGrad_Compute_unfold [OF head tx ty reshape] s2_def [symmetric] run
    by (simp_all add: ab(1))
  then obtain s' where "MatMulGrad_Compute lib ctx s = (None, s')" "execs s' = execs s @ [e1, e2]"
    by (cases "MatMulGrad_Compute lib ctx s") auto
  then show ?thesis
    using dx dy p1 p2 by (simp add: executes_table_def)
qed

theorem C2_gradient_table_amended_witness:
  "executes_table sample_funcs ((sample_ctx [1, 2] [1, 2] [1, 1])\<lparr>transpose_Y := Some True\<rparr>)
     (sample_grad_state [1, 2] [1, 2])
     (((''Out@GRAD'', Plain), (''Y'', Plain)), ((''Out@GRAD'', Transposed), (''X'', Plain)))"
  using C2_gradient_table_amended [of "(sample_ctx [1, 2] [1, 2] [1, 1])\<lparr>transpose_Y := Some True\<rparr>"
      False True "sample_grad_state [1, 2] [1, 2]" _ _ sample_funcs]
  by (simp add: sample_ctx_def sample_grad_state_def resolved_flag_def amended_grad_table_def)

text \<open>
  The table as the specification prints it has \<open>dY = X\<^sup>T \<cdot> dOut\<close> in row \<open>(F,T)\<close>;
  for \<open>X\<close> and \<open>Y\<close> of shape \<open>1 \<times> 2\<close> the kernel does not execute that table.
\<close>

theorem C2_spec_table_counterexample:
  "\<not> executes_table sample_funcs ((sample_ctx [1, 2] [1, 2] [1, 1])\<lparr>transpose_Y := Some True\<rparr>)
       (sample_grad_state [1, 2] [1, 2])
       (spec_grad_table ''X'' ''Y'' ''Out@GRAD'' False True)"
  by (simp add: executes_table_def MatMulGrad_Compute_def head_number_check_def sample_ctx_def
      sample_grad_state_def ReshapeXYOutToMatrixSequence_def ReshapeTensorToMatrixSequence_def
      sample_funcs_def Let_def resize_if_differs_def restore_dims_def deref_def resize_out_def
      MatMulGrad_cases_def and_then_def ExecuteMatMulGrad_def MatMulMKLDNNHandler_def
      is_product_def spec_grad_table_def strides_of_def)

subsection \<open>oneDNN matmul: broadcast check of the forward kernel\<close>

declare broadcast_loop.simps [simp del]

lemma right_aligned_nth:
  "length ds \<le> n \<Longrightarrow> i < n \<Longrightarrow>
   right_aligned n ds ! i = (if i < n - length ds then 1 else ds ! (i - (n - length ds)))"
  by (simp add: right_aligned_def nth_append)

lemma length_right_aligned: "length ds \<le> n \<Longrightarrow> length (right_aligned n ds) = n"
  by (simp add: right_aligned_def)

lemma length_fold_align [simp]:
  "length (fold (\<lambda>i bd. bd[length bd - k + i := xs ! i]) [0..<j] bd) = length bd"
  by (induction j) simp_all

lemma nth_fold_align:
  assumes "k \<le> length bd" and "p < length bd"
  shows "fold (\<lambda>i bd. bd[length bd - k + i := xs ! i]) [0..<j] bd ! p
         = (if length bd - k \<le> p \<and> p < length bd - k + j then xs ! (p - (length bd - k)) else bd ! p)"
proof (induction j)
  case 0
  then show ?case by auto
next
  case (Suc j)
  show ?case
  proof (cases "p = length bd - k + j")
    case True
    then show ?thesis using assms by auto
  next
    case False
    then have "fold (\<lambda>i bd. bd[length bd - k + i := xs ! i]) [0..<Suc j] bd ! p
               = fold (\<lambda>i bd. bd[length bd - k + i := xs ! i]) [0..<j] bd ! p"
      by simp
    with Suc False show ?thesis by (simp add: less_Suc_eq)
  qed
qed

lemma fold_right_align:
  assumes "length xs \<le> n"
  shows "fold (\<lambda>i bd. bd[length bd - length xs + i := xs ! i]) [0..<length xs] (replicate n 1)
         = right_aligned n xs"
proof (rule nth_equalityI)
  show "length (fold (\<lambda>i bd. bd[length bd - length xs + i := xs ! i]) [0..<length xs] (replicate n 1))
        = length (right_aligned n xs)"
    using assms by (simp add: right_aligned_def)
next
  fix p
  assume "p < length (fold (\<lambda>i bd. bd[length bd - length xs + i := xs ! i]) [0..<length xs]
                       (replicate n 1))"
  then have p: "p < n" by simp
  then show "fold (\<lambda>i bd. bd[length bd - length xs + i := xs ! i]) [0..<length xs] (replicate n 1) ! p
             = right_aligned n xs ! p"
    using assms nth_fold_align [of "length xs" "replicate n 1" p xs "length xs"]
    by (simp add: right_aligned_nth)
qed


lemma broadcast_loop_compatible:
  assumes "n = length xb - 2" and "n \<le> length od"
    and "\<forall>j. i \<le> j \<and> j < n \<longrightarrow> \<not> incompatible_at xb yb j"
    and "i \<le> n"
  shows "broadcast_loop xb yb od i
         = Inr (take i od @ map (\<lambda>j. max (xb ! j) (yb ! j)) [i..<n] @ drop n od)"
  using assms
proof (induction xb yb od i rule: broadcast_loop.induct)
  case (1 xb yb od i)
  show ?case
  proof (cases "i < n")
    case False
    with 1 show ?thesis
      by (subst broadcast_loop.simps) simp
  next
    case True
    then have ok: "xb ! i = yb ! i \<or> xb ! i = 1 \<or> yb ! i = 1" and i: "i < length od"
      using "1.prems" by (auto simp: incompatible_at_def)
    have "broadcast_loop xb yb od i
          = broadcast_loop xb yb (od[i := max (xb ! i) (yb ! i)]) (Suc i)"
      using True ok i "1.prems"(1) by (subst broadcast_loop.simps) simp
    also have "\<dots> = Inr (take (Suc i) (od[i := max (xb ! i) (yb ! i)])
                       @ map (\<lambda>j. max (xb ! j) (yb ! j)) [Suc i..<n]
                       @ drop n (od[i := max (xb ! i) (yb ! i)]))"
      using True ok i "1.prems" by (intro "1.IH") auto
    also have "\<dots> = Inr (take i od @ map (\<lambda>j. max (xb ! j) (yb ! j)) [i..<n] @ drop n od)"
      using True i by (simp add: take_Suc_conv_app_nth upt_conv_Cons)
    finally show ?thesis .
  qed
qed

lemma broadcast_loop_incompatible:
  assumes "k < length xb - 2" and "k \<le> length od"
    and "incompatible_at xb yb k"
    and "\<forall>j. i \<le> j \<and> j < k \<longrightarrow> \<not> incompatible_at xb yb j"
    and "i \<le> k"
  shows "broadcast_loop xb yb od i = Inl (InvalidArgument_broadcast k (xb ! k) k (yb ! k))"
  using assms
proof (induction xb yb od i rule: broadcast_loop.induct)
  case (1 xb yb od i)
  show ?case
  proof (cases "i = k")
    case True
    with 1 show ?thesis
      by (subst broadcast_loop.simps) (simp add: incompatible_at_def)
  next
    case False
    then have lt: "i < k" using "1.prems" by simp
    then have ok: "xb ! i = yb ! i \<or> xb ! i = 1 \<or> yb ! i = 1" and i: "i < length od"
      and i2: "i < length xb - 2"
      using "1.prems" by (auto simp: incompatible_at_def)
    have "broadcast_loop xb yb od i
          = broadcast_loop xb yb (od[i := max (xb ! i) (yb ! i)]) (Suc i)"
      using ok i i2 by (subst broadcast_loop.simps) simp
    also have "\<dots> = Inl (InvalidArgument_broadcast k (xb ! k) k (yb ! k))"
      using lt ok i i2 "1.prems" by (intro "1.IH") auto
    finally show ?thesis .
  qed
qed


lemma CalculateMatrixDims_high_rank:
  assumes "length x_dims > 2" and "length y_dims > 2"
    and "n = max (max (length x_dims) (length y_dims)) 3"
  shows "CalculateMatrixDims ctx x_dims y_dims (replicate n 1) (replicate n 1) out =
           (if \<not> IsOutputFused ctx then
              (case broadcast_loop (right_aligned n x_dims) (right_aligned n y_dims) (dims out) 0 of
                 Inl e \<Rightarrow> (Some e, right_aligned n x_dims, right_aligned n y_dims, out)
               | Inr out_dims \<Rightarrow>
                   (None, right_aligned n x_dims, right_aligned n y_dims, out\<lparr>dims := out_dims\<rparr>))
            else (None, right_aligned n x_dims, right_aligned n y_dims, out))"
proof -
  have "length x_dims \<le> n" "length y_dims \<le> n"
    using assms(3) by simp_all
  then show ?thesis
    using assms(1,2) fold_right_align [of x_dims n] fold_right_align [of y_dims n]
    by (simp add: CalculateMatrixDims_def Let_def)
qed

lemma incompatible_high_rank:
  assumes "length ds \<le> n" and "k < n - 2" and "right_aligned n ds ! k \<noteq> 1"
  shows "length ds > 2"
proof (rule ccontr)
  assume "\<not> length ds > 2"
  then have "k < n - length ds" using assms(2) by simp
  then have "right_aligned n ds ! k = 1"
    using assms(1,2) by (simp add: right_aligned_nth)
  with assms(3) show False by simp
qed

text \<open>
  C3 (amended).  Let \<open>n\<close> be the common rank (at least 3), \<open>xb\<close> and \<open>yb\<close> the two
  shapes right-aligned in \<open>n\<close> positions, and let \<^verbatim>\<open>out\<close> have at least \<open>n - 2\<close>
  dimensions.  If the output is not fused and \<open>k\<close> is the first leading position where
  the sizes differ and neither is 1, \<^verbatim>\<open>CalculateMatrixDims\<close> fails with the error that
  names \<open>k\<close> and the two sizes, and \<^verbatim>\<open>out\<close> is as it was.  If the output is not fused,
  both ranks exceed 2 and no leading position is incompatible, there is no error and
  the leading \<open>n - 2\<close> sizes of \<^verbatim>\<open>out\<close> become the position-wise maxima, the others
  staying.  If the output is fused, or one rank is at most 2, nothing is checked, no
  error is reported and \<^verbatim>\<open>out\<close> is as it was.
\<close>

theorem C3_broadcast_check_amended:
  fixes x_dims y_dims :: "int list" and ctx :: ExecutionContext and out :: tensor and k :: nat
  defines "n \<equiv> max (max (length x_dims) (length y_dims)) 3"
  defines "xb \<equiv> right_aligned n x_dims" and "yb \<equiv> right_aligned n y_dims"
  defines "r \<equiv> CalculateMatrixDims ctx x_dims y_dims (replicate n 1) (replicate n 1) out"
  assumes out_rank: "n - 2 \<le> length (dims out)"
  shows "(\<not> IsOutputFused ctx \<and> k < n - 2 \<and> incompatible_at xb yb k \<and>
            (\<forall>j<k. \<not> incompatible_at xb yb j) \<longrightarrow>
          fst r = Some (InvalidArgument_broadcast k (xb ! k) k (yb ! k)) \<and> snd (snd (snd r)) = out) \<and>
         (\<not> IsOutputFused ctx \<and> length x_dims > 2 \<and> length y_dims > 2 \<and>
            (\<forall>j<n - 2. \<not> incompatible_at xb yb j) \<longrightarrow>
          fst r = None \<and>
          snd (snd (snd r)) =
            out\<lparr>dims := map (\<lambda>j. max (xb ! j) (yb ! j)) [0..<n - 2] @ drop (n - 2) (dims out)\<rparr>) \<and>
         (IsOutputFused ctx \<or> length x_dims \<le> 2 \<or> length y_dims \<le> 2 \<longrightarrow>
          fst r = None \<and> snd (snd (snd r)) = out)"
proof (intro conjI impI)
  have lens: "length x_dims \<le> n" "length y_dims \<le> n" "length xb = n" "length yb = n"
    by (simp_all add: n_def xb_def yb_def right_aligned_def)
  have nval: "n = max (max (length x_dims) (length y_dims)) 3"
    by (simp add: n_def)
  {
    assume a: "\<not> IsOutputFused ctx \<and> k < n - 2 \<and> incompatible_at xb yb k \<and>
               (\<forall>j<k. \<not> incompatible_at xb yb j)"
    then have ranks: "length x_dims > 2" "length y_dims > 2"
      using incompatible_high_rank [of x_dims n k] incompatible_high_rank [of y_dims n k] lens
      by (auto simp: incompatible_at_def xb_def yb_def)
    have r: "r = (case broadcast_loop xb yb (dims out) 0 of
                    Inl e \<Rightarrow> (Some e, xb, yb, out)
                  | Inr out_dims \<Rightarrow> (None, xb, yb, out\<lparr>dims := out_dims\<rparr>))"
      using a unfolding r_def xb_def yb_def
      by (simp add: CalculateMatrixDims_high_rank [OF ranks nval])
    have "broadcast_loop xb yb (dims out) 0 = Inl (InvalidArgument_broadcast k (xb ! k) k (yb ! k))"
      using a out_rank lens by (intro broadcast_loop_incompatible) auto
    with r show "fst r = Some (InvalidArgument_broadcast k (xb ! k) k (yb ! k))"
      and "snd (snd (snd r)) = out"
      by simp_all
  }
  {
    assume a: "\<not> IsOutputFused ctx \<and> length x_dims > 2 \<and> length y_dims > 2 \<and>
               (\<forall>j<n - 2. \<not> incompatible_at xb yb j)"
    then have ranks: "length x_dims > 2" "length y_dims > 2"
      by simp_all
    have r: "r = (case broadcast_loop xb yb (dims out) 0 of
                    Inl e \<Rightarrow> (Some e, xb, yb, out)
                  | Inr out_dims \<Rightarrow> (None, xb, yb, out\<lparr>dims := out_dims\<rparr>))"
      using a unfolding r_def xb_def yb_def
      by (simp add: CalculateMatrixDims_high_rank [OF ranks nval])
    have "broadcast_loop xb yb (dims out) 0
          = Inr (take 0 (dims out) @ map (\<lambda>j. max (xb ! j) (yb ! j)) [0..<n - 2]
                 @ drop (n - 2) (dims out))"
      using a out_rank lens by (intro broadcast_loop_compatible) auto
    with r show "fst r = None"
      and "snd (snd (snd r)) =
            out\<lparr>dims := map (\<lambda>j. max (xb ! j) (yb ! j)) [0..<n - 2] @ drop (n - 2) (dims out)\<rparr>"
      by simp_all
  }
  {
    assume "IsOutputFused ctx \<or> length x_dims \<le> 2 \<or> length y_dims \<le> 2"
    then show "fst r = None" and "snd (snd (snd r)) = out"
      by (auto simp: r_def CalculateMatrixDims_def Let_def)
  }
qed

text \<open>
  With the output fused, batch sizes 3 and 2 at position 0 pass without the
  shape-mismatch error.
\<close>

theorem C3_fused_output_counterexample:
  "incompatible_at (right_aligned 3 [3, 2, 2]) (right_aligned 3 [2, 2, 2]) 0 \<and>
   CalculateMatrixDims
     ((sample_ctx [3, 2, 2] [2, 2, 2] [])\<lparr>fused_reshape_Out := [0, 0, 2], fused_transpose_Out := [0, 2, 1]\<rparr>)
     [3, 2, 2] [2, 2, 2] (replicate 3 1) (replicate 3 1) \<lparr>dims = [3, 2, 2], holder = Buf ''Out''\<rparr>
   = (None, [3, 2, 2], [2, 2, 2], \<lparr>dims = [3, 2, 2], holder = Buf ''Out''\<rparr>)"
  by (simp add: incompatible_at_def right_aligned_def CalculateMatrixDims_def IsOutputFused_def
      sample_ctx_def Let_def numeral_3_eq_3)

theorem C3_broadcast_check_amended_witness:
  "(fst (CalculateMatrixDims (sample_ctx [3, 2, 2] [2, 2, 2] []) [3, 2, 2] [2, 2, 2]
       (replicate 3 1) (replicate 3 1) \<lparr>dims = [7, 2, 2], holder = Buf ''Out''\<rparr>)
       = Some (InvalidArgument_broadcast 0 3 0 2) \<and>
    snd (snd (snd (CalculateMatrixDims (sample_ctx [3, 2, 2] [2, 2, 2] []) [3, 2, 2] [2, 2, 2]
       (replicate 3 1) (replicate 3 1) \<lparr>dims = [7, 2, 2], holder = Buf ''Out''\<rparr>)))
       = \<lparr>dims = [7, 2, 2], holder = Buf ''Out''\<rparr>) \<and>
   (fst (CalculateMatrixDims (sample_ctx [1, 3, 4] [2, 4, 5] []) [1, 3, 4] [2, 4, 5]
       (replicate 3 1) (replicate 3 1) \<lparr>dims = [7, 3, 5], holder = Buf ''Out''\<rparr>) = None \<and>
    snd (snd (snd (CalculateMatrixDims (sample_ctx [1, 3, 4] [2, 4, 5] []) [1, 3, 4] [2, 4, 5]
       (replicate 3 1) (replicate 3 1) \<lparr>dims = [7, 3, 5], holder = Buf ''Out''\<rparr>)))
       = \<lparr>dims = [2, 3, 5], holder = Buf ''Out''\<rparr>) \<and>
   (fst (CalculateMatrixDims (sample_ctx [3, 4] [2, 4, 5] []) [3, 4] [2, 4, 5]
       (replicate 3 1) (replicate 3 1) \<lparr>dims = [7, 3, 5], holder = Buf ''Out''\<rparr>) = None \<and>
    snd (snd (snd (CalculateMatrixDims (sample_ctx [3, 4] [2, 4, 5] []) [3, 4] [2, 4, 5]
       (replicate 3 1) (replicate 3 1) \<lparr>dims = [7, 3, 5], holder = Buf ''Out''\<rparr>)))
       = \<lparr>dims = [7, 3, 5], holder = Buf ''Out''\<rparr>)"
proof -
  have fused: "\<not> IsOutputFused (sample_ctx a b c)" for a b c
    by (simp add: IsOutputFused_def sample_ctx_def)
  have "fst (CalculateMatrixDims (sample_ctx [3, 2, 2] [2, 2, 2] []) [3, 2, 2] [2, 2, 2]
       (replicate 3 1) (replicate 3 1) \<lparr>dims = [7, 2, 2], holder = Buf ''Out''\<rparr>)
       = Some (InvalidArgument_broadcast 0 3 0 2) \<and>
       snd (snd (snd (CalculateMatrixDims (sample_ctx [3, 2, 2] [2, 2, 2] []) [3, 2, 2] [2, 2, 2]
       (replicate 3 1) (replicate 3 1) \<lparr>dims = [7, 2, 2], holder = Buf ''Out''\<rparr>)))
       = \<lparr>dims = [7, 2, 2], holder = Buf ''Out''\<rparr>"
    using C3_broadcast_check_amended [of "[3, 2, 2]" "[2, 2, 2]"
        "\<lparr>dims = [7, 2, 2], holder = Buf ''Out''\<rparr>" "sample_ctx [3, 2, 2] [2, 2, 2] []" 0]
    by (simp add: fused incompatible_at_def right_aligned_def numeral_3_eq_3)
  moreover have "fst (CalculateMatrixDims (sample_ctx [1, 3, 4] [2, 4, 5] []) [1, 3, 4] [2, 4, 5]
       (replicate 3 1) (replicate 3 1) \<lparr>dims = [7, 3, 5], holder = Buf ''Out''\<rparr>) = None \<and>
       snd (snd (snd (CalculateMatrixDims (sample_ctx [1, 3, 4] [2, 4, 5] []) [1, 3, 4] [2, 4, 5]
       (replicate 3 1) (replicate 3 1) \<lparr>dims = [7, 3, 5], holder = Buf ''Out''\<rparr>)))
       = \<lparr>dims = [2, 3, 5], holder = Buf ''Out''\<rparr>"
    using C3_broadcast_check_amended [of "[1, 3, 4]" "[2, 4, 5]"
        "\<lparr>dims = [7, 3, 5], holder = Buf ''Out''\<rparr>" "sample_ctx [1, 3, 4] [2, 4, 5] []" 0]
    by (simp add: fused incompatible_at_def right_aligned_def numeral_3_eq_3)
  moreover have "fst (CalculateMatrixDims (sample_ctx [3, 4] [2, 4, 5] []) [3, 4] [2, 4, 5]
       (replicate 3 1) (replicate 3 1) \<lparr>dims = [7, 3, 5], holder = Buf ''Out''\<rparr>) = None \<and>
       snd (snd (snd (CalculateMatrixDims (sample_ctx [3, 4] [2, 4, 5] []) [3, 4] [2, 4, 5]
       (replicate 3 1) (replicate 3 1) \<lparr>dims = [7, 3, 5], holder = Buf ''Out''\<rparr>)))
       = \<lparr>dims = [7, 3, 5], holder = Buf ''Out''\<rparr>"
    using C3_broadcast_check_amended [of "[3, 4]" "[2, 4, 5]"
        "\<lparr>dims = [7, 3, 5], holder = Buf ''Out''\<rparr>" "sample_ctx [3, 4] [2, 4, 5] []" 0]
    by (simp add: numeral_3_eq_3)
  ultimately show ?thesis
    by blast
qed

subsection \<open>oneDNN matmul: the batched execution loop\<close>

declare Execute_loop.simps [simp del]

lemma uint16_succ:
  fixes i b :: "16 word"
  assumes "i < b"
  shows "unat (i + 1) = Suc (unat i)"
proof -
  have "unat i < unat b"
    using assms by (simp add: word_less_nat_alt)
  moreover have "unat b < 2 ^ 16"
    using unsigned_less [of b, where 'a = nat] by simp
  ultimately have "unat i + unat (1 :: 16 word) < 2 ^ LENGTH(16)"
    by simp
  then have "unat (i + 1) = unat i + unat (1 :: 16 word)"
    by (simp only: unat_add_lem)
  then show ?thesis
    by simp
qed

lemma Execute_loop_trace:
  assumes "n = unat (h_batch_size h) - unat i"
  shows "Execute_loop h md i (bx, ox) (by, oy) (bo, oo) es
         = es @ map (\<lambda>j. \<lparr>e_desc = md, e_src = (bx, ox + j * unat (x_offset h)),
                           e_weights = (by, oy + j * unat (y_offset h)),
                           e_dst = (bo, oo + j * unat (out_offset h))\<rparr>) [0..<n]"
  using assms
proof (induction n arbitrary: i ox oy oo es)
  case 0
  then have "\<not> i < h_batch_size h"
    by (simp add: word_less_nat_alt)
  then show ?case
    by (subst Execute_loop.simps) simp
next
  case (Suc n)
  then have less: "i < h_batch_size h"
    by (simp add: word_less_nat_alt)
  have next_i: "n = unat (h_batch_size h) - unat (i + 1)"
    using Suc.prems uint16_succ [OF less] by simp
  have "Execute_loop h md i (bx, ox) (by, oy) (bo, oo) es
        = Execute_loop h md (i + 1) (bx, ox + unat (x_offset h)) (by, oy + unat (y_offset h))
            (bo, oo + unat (out_offset h))
            (es @ [\<lparr>e_desc = md, e_src = (bx, ox), e_weights = (by, oy), e_dst = (bo, oo)\<rparr>])"
    using less by (subst Execute_loop.simps) simp
  also have "\<dots> = (es @ [\<lparr>e_desc = md, e_src = (bx, ox), e_weights = (by, oy), e_dst = (bo, oo)\<rparr>])
        @ map (\<lambda>j. \<lparr>e_desc = md, e_src = (bx, ox + unat (x_offset h) + j * unat (x_offset h)),
                     e_weights = (by, oy + unat (y_offset h) + j * unat (y_offset h)),
                     e_dst = (bo, oo + unat (out_offset h) + j * unat (out_offset h))\<rparr>) [0..<n]"
    by (rule Suc.IH [OF next_i])
  also have "\<dots> = es @ map (\<lambda>j. \<lparr>e_desc = md, e_src = (bx, ox + j * unat (x_offset h)),
                           e_weights = (by, oy + j * unat (y_offset h)),
                           e_dst = (bo, oo + j * unat (out_offset h))\<rparr>) [0..<Suc n]"
    by (simp add: upt_conv_Cons map_Suc_upt [symmetric] del: upt_Suc add: add.assoc)
  finally show ?case .
qed

text \<open>
  C8 (amended).  \<^verbatim>\<open>Execute\<close> issues \<^verbatim>\<open>batch_size_\<close> executions in sequence, all with
  the one descriptor, the \<open>j\<close>-th with the three handles at \<open>j\<close> times the offset
  member of \<open>X\<close>, of \<open>Y\<close> and of \<open>Out\<close>.  An operand whose offset member is 0 is
  therefore bound at its base pointer in every iteration.  (The file sets neither the
  offsets nor \<^verbatim>\<open>batch_size_\<close>, so how they follow from the batch sizes of the operands
  is not decided here.)  The gradient path does not run this loop:
  \<^verbatim>\<open>ExecuteMatMulGrad\<close>, for an output that is present, issues exactly one execution,
  with the three handles at offset 0.
\<close>

theorem C8_execution_loop_amended:
  "Execute h md x y out es
     = es @ map (\<lambda>j. \<lparr>e_desc = md, e_src = (holder x, j * unat (x_offset h)),
                       e_weights = (holder y, j * unat (y_offset h)),
                       e_dst = (holder out, j * unat (out_offset h))\<rparr>)
                [0..<unat (h_batch_size h)] \<and>
   (x_offset h = 0 \<longrightarrow>
      (\<forall>e \<in> set (drop (length es) (Execute h md x y out es)). e_src e = (holder x, 0))) \<and>
   (y_offset h = 0 \<longrightarrow>
      (\<forall>e \<in> set (drop (length es) (Execute h md x y out es)). e_weights e = (holder y, 0))) \<and>
   (deref outp s \<noteq> None \<longrightarrow>
      (\<exists>e. ExecuteMatMulGrad lib ctx gx tx fx gy ty fy outp s = (None, s\<lparr>execs := execs s @ [e]\<rparr>) \<and>
           snd (e_src e) = 0 \<and> snd (e_weights e) = 0 \<and> snd (e_dst e) = 0))"
proof -
  have trace: "Execute h md x y out es
     = es @ map (\<lambda>j. \<lparr>e_desc = md, e_src = (holder x, j * unat (x_offset h)),
                       e_weights = (holder y, j * unat (y_offset h)),
                       e_dst = (holder out, j * unat (out_offset h))\<rparr>)
                [0..<unat (h_batch_size h)]"
    using Execute_loop_trace [of "unat (h_batch_size h)" h 0 md "holder x" 0 "holder y" 0 "holder out" 0 es]
    by (simp add: Execute_def)
  have grad: "deref outp s \<noteq> None \<longrightarrow>
      (\<exists>e. ExecuteMatMulGrad lib ctx gx tx fx gy ty fy outp s = (None, s\<lparr>execs := execs s @ [e]\<rparr>) \<and>
           snd (e_src e) = 0 \<and> snd (e_weights e) = 0 \<and> snd (e_dst e) = 0)"
    using ExecuteMatMulGrad_present [of outp s _ lib ctx gx tx fx gy ty fy] by auto
  have x0: "x_offset h = 0 \<longrightarrow>
      (\<forall>e \<in> set (drop (length es) (Execute h md x y out es)). e_src e = (holder x, 0))"
    by (subst trace) auto
  have y0: "y_offset h = 0 \<longrightarrow>
      (\<forall>e \<in> set (drop (length es) (Execute h md x y out es)). e_weights e = (holder y, 0))"
    by (subst trace) auto
  from trace x0 y0 grad show ?thesis
    by blast
qed

text \<open>
  With \<open>Y\<close> broadcast (batch size 1 against 2 for \<open>dOut\<close> and for the output) the
  gradient path issues one execution, whose descriptor carries the batch extents 2, 1
  and 2; it does not issue one execution per output batch index.
\<close>

theorem C8_gradient_path_counterexample:
  "length sample_broadcast_execs = 1 \<and>
   x_dims_md (e_desc (hd sample_broadcast_execs)) ! 0 = 2 \<and>
   y_dims_md (e_desc (hd sample_broadcast_execs)) ! 0 = 1 \<and>
   out_dims_md (e_desc (hd sample_broadcast_execs)) ! 0 = 2 \<and>
   \<not> one_exec_per_batch_index sample_broadcast_execs"
  by (simp add: sample_broadcast_execs_def one_exec_per_batch_index_def ExecuteMatMulGrad_def
      deref_def sample_grad_state_def sample_ctx_def Let_def MatMulMKLDNNHandler_def sample_funcs_def)

theorem C8_execution_loop_amended_witness:
  "Execute \<lparr>x_offset = 0, y_offset = 16, out_offset = 8, h_batch_size = 2\<rparr>
       sample_desc
       \<lparr>dims = [1, 2, 2], holder = Buf ''X''\<rparr> \<lparr>dims = [2, 2, 2], holder = Buf ''Y''\<rparr>
       \<lparr>dims = [2, 2, 2], holder = Buf ''Out''\<rparr> []
     = [\<lparr>e_desc = sample_desc, e_src = (Buf ''X'', 0), e_weights = (Buf ''Y'', 0), e_dst = (Buf ''Out'', 0)\<rparr>,
        \<lparr>e_desc = sample_desc, e_src = (Buf ''X'', 0), e_weights = (Buf ''Y'', 16), e_dst = (Buf ''Out'', 8)\<rparr>] \<and>
   length (execs (snd (ExecuteMatMulGrad sample_funcs (sample_ctx [2, 1, 1] [1, 1, 1] [2, 1, 1])
                      \<lparr>dims = [2, 1, 1], holder = Buf ''Out@GRAD''\<rparr> False False
                      \<lparr>dims = [1, 1, 1], holder = Buf ''Y''\<rparr> True False DX
                      (sample_grad_state [2, 1, 1] [1, 1, 1])))) = 1"
  using C8_execution_loop_amended [of "\<lparr>x_offset = 0, y_offset = 16, out_offset = 8, h_batch_size = 2\<rparr>"
       sample_desc
       "\<lparr>dims = [1, 2, 2], holder = Buf ''X''\<rparr>" "\<lparr>dims = [2, 2, 2], holder = Buf ''Y''\<rparr>"
       "\<lparr>dims = [2, 2, 2], holder = Buf ''Out''\<rparr>" "[]" DX "sample_grad_state [2, 1, 1] [1, 1, 1]"
       sample_funcs "sample_ctx [2, 1, 1] [1, 1, 1] [2, 1, 1]"
       "\<lparr>dims = [2, 1, 1], holder = Buf ''Out@GRAD''\<rparr>" False False
       "\<lparr>dims = [1, 1, 1], holder = Buf ''Y''\<rparr>" True False]
  by (auto simp: deref_def sample_grad_state_def upt_conv_Cons)


subsection \<open>Multi-tensor Adam: the skip path, the beta powers, the two modes\<close>

declare skip_copy_loop.simps [simp del]

lemma skip_copy_loop_result:
  assumes "length (moments1 a) = length (params a)" and "length (moments2 a) = length (params a)"
    and "length (params_out s) = length (params a)"
    and "length (moments1_out s) = length (params a)"
    and "length (moments2_out s) = length (params a)"
    and "i \<le> length (params a)"
  shows "skip_copy_loop a i s =
           Inr (s\<lparr>params_out := take i (params_out s) @ drop i (params a),
                  moments1_out := take i (moments1_out s) @ drop i (moments1 a),
                  moments2_out := take i (moments2_out s) @ drop i (moments2 a)\<rparr>)"
  using assms
proof (induction a i s rule: skip_copy_loop.induct)
  case (1 a i s)
  show ?case
  proof (cases "i < length (params a)")
    case False
    with "1.prems" show ?thesis
      by (subst skip_copy_loop.simps) simp
  next
    case True
    let ?s = "s\<lparr>params_out := (params_out s)[i := params a ! i],
                  moments1_out := (moments1_out s)[i := moments1 a ! i],
                  moments2_out := (moments2_out s)[i := moments2 a ! i]\<rparr>"
    have "skip_copy_loop a i s = skip_copy_loop a (Suc i) ?s"
      using True "1.prems" by (subst skip_copy_loop.simps) simp
    also have "\<dots> = Inr (?s\<lparr>params_out := take (Suc i) (params_out ?s) @ drop (Suc i) (params a),
                  moments1_out := take (Suc i) (moments1_out ?s) @ drop (Suc i) (moments1 a),
                  moments2_out := take (Suc i) (moments2_out ?s) @ drop (Suc i) (moments2 a)\<rparr>)"
      using True "1.prems" by (intro "1.IH") simp_all
    also have "\<dots> = Inr (s\<lparr>params_out := take i (params_out s) @ drop i (params a),
                  moments1_out := take i (moments1_out s) @ drop i (moments1 a),
                  moments2_out := take i (moments2_out s) @ drop i (moments2 a)\<rparr>)"
      using True "1.prems"
      by (simp add: take_Suc_conv_app_nth Cons_nth_drop_Suc)
    finally show ?thesis .
  qed
qed

lemma skip_path_result:
  assumes "skip_update a = Some [True]"
    and "length (moments1 a) = length (params a)" and "length (moments2 a) = length (params a)"
    and "length (params_out s) = length (params a)"
    and "length (moments1_out s) = length (params a)"
    and "length (moments2_out s) = length (params a)"
  shows "MultiTensorAdamKernel nm a s =
           Some (Inr (s\<lparr>params_out := params a, moments1_out := moments1 a,
                        moments2_out := moments2 a,
                        beta1_pow_out := beta1_pow a, beta2_pow_out := beta2_pow a\<rparr>))"
  using assms skip_copy_loop_result [of a s 0]
  by (simp add: MultiTensorAdamKernel_def)


lemma thread_loop_returns:
  assumes "0 < bd"
  shows "\<exists>a'. thread_loop nm c mp bd tid g off n cgs i_start a = Some a'"
proof (induction "nat (min n cgs - i_start)" arbitrary: i_start a rule: less_induct)
  case less
  show ?case
  proof (cases "i_start < n \<and> i_start < cgs")
    case False
    then show ?thesis
      by (subst thread_loop.simps) auto
  next
    case True
    have "nat (min n cgs - (i_start + int (bd * PARALLEL_SIZE))) < nat (min n cgs - i_start)"
      using True assms by (simp add: PARALLEL_SIZE_def)
    from less [OF this] show ?thesis
      using True by (subst thread_loop.simps) simp
  qed
qed

lemma fold_bind_returns:
  assumes "\<And>x a. \<exists>a'. f x a = Some a'"
  shows "\<exists>a'. fold (\<lambda>x r. Option.bind r (f x)) xs (Some a) = Some a'"
proof (induction xs arbitrary: a)
  case Nil
  then show ?case by simp
next
  case (Cons x xs)
  obtain a1 where "f x a = Some a1"
    using assms by blast
  then show ?case
    using Cons [of a1] by simp
qed

lemma run_block_returns:
  assumes "0 < bd"
  shows "\<exists>a'. run_block nm c mp bd g off n cgs a = Some a'"
  unfolding run_block_def
  by (rule fold_bind_returns) (rule thread_loop_returns [OF assms])

lemma CudaKernelFunctor_returns:
  assumes "0 < bd"
  shows "\<exists>ts'. CudaKernelFunctor nm bd blk cgs tabi grad b1 b2 b1p b2p eps lr md mp decay ts = Some ts'"
proof -
  obtain a' where "run_block nm
      (compute_lane (sqrt_MT nm) b1 b2 (b1p ! 0) (b2p ! 0) eps (lr ! 0) md decay) mp bd
      (grad ! (tenosr_for_this_block tabi ! blk))
      ((compute_group_for_this_block tabi ! blk + start_compute_group_this_tensor tabi) * cgs)
      (sizes tabi ! (tenosr_for_this_block tabi ! blk)
         - (compute_group_for_this_block tabi ! blk + start_compute_group_this_tensor tabi) * cgs)
      cgs
      \<lparr>arr_p = tensors_p ts ! (tenosr_for_this_block tabi ! blk),
       arr_m = tensors_m ts ! (tenosr_for_this_block tabi ! blk),
       arr_v = tensors_v ts ! (tenosr_for_this_block tabi ! blk),
       arr_mp = (if mp then tensors_mp ts ! (tenosr_for_this_block tabi ! blk) else [])\<rparr> = Some a'"
    using run_block_returns [OF assms] by blast
  then show ?thesis
    by (simp add: CudaKernelFunctor_def Let_def)
qed

lemma multi_tensor_adam_utility_returns:
  assumes "0 < bd"
  shows "\<exists>r. multi_tensor_adam_utility nm bd cgs ts grad b1 b2 b1p b2p eps lr md mp decay = Some r"
proof -
  obtain ts' where
    "fold (\<lambda>blockIdx r. Option.bind r
             (CudaKernelFunctor nm bd blockIdx cgs (build_partition (map (int \<circ> length) (tensors_p ts)) cgs)
                grad b1 b2 b1p b2p eps lr md mp decay))
          [0..<length (tenosr_for_this_block (build_partition (map (int \<circ> length) (tensors_p ts)) cgs))]
          (Some ts) = Some ts'"
    using fold_bind_returns [of "\<lambda>blockIdx.
             CudaKernelFunctor nm bd blockIdx cgs (build_partition (map (int \<circ> length) (tensors_p ts)) cgs)
                grad b1 b2 b1p b2p eps lr md mp decay"] CudaKernelFunctor_returns [OF assms]
    by blast
  then show ?thesis
    by (simp add: multi_tensor_adam_utility_def Let_def)
qed

lemma update_path_result:
  assumes "skip_update a = None \<or> skip_update a = Some [False]"
  shows "\<exists>ts launched.
           multi_tensor_adam_utility nm BLOCK_SIZE (compute_group_size a)
              \<lparr>tensors_p = params_out s, tensors_m = moments1_out s,
               tensors_v = moments2_out s, tensors_mp = master_param_out s\<rparr>
              (grads a) (beta1 a) (beta2 a) (beta1_pow a) (beta2_pow a) (epsilon a)
              (learning_rate a) (mode a) (multi_precision a) (weight_decay a) = Some (ts, launched) \<and>
           MultiTensorAdamKernel nm a s =
             Some (Inr (let s1 = s\<lparr>params_out := tensors_p ts, moments1_out := tensors_m ts,
                                   moments2_out := tensors_v ts, master_param_out := tensors_mp ts,
                                   work_units := work_units s + launched\<rparr>
                        in if \<not> use_global_beta_pow a
                           then UpdateBetaPow (beta1 a) (beta2 a) (beta1_pow a) (beta2_pow a) s1
                           else s1))"
proof -
  have "0 < BLOCK_SIZE"
    by (simp add: BLOCK_SIZE_def)
  from multi_tensor_adam_utility_returns [OF this]
  obtain ts launched where
    "multi_tensor_adam_utility nm BLOCK_SIZE (compute_group_size a)
        \<lparr>tensors_p = params_out s, tensors_m = moments1_out s,
         tensors_v = moments2_out s, tensors_mp = master_param_out s\<rparr>
        (grads a) (beta1 a) (beta2 a) (beta1_pow a) (beta2_pow a) (epsilon a)
        (learning_rate a) (mode a) (multi_precision a) (weight_decay a) = Some (ts, launched)"
    by fastforce
  then show ?thesis
    using assms by (auto simp: MultiTensorAdamKernel_def Let_def)
qed


text \<open>
  C4.  When \<^verbatim>\<open>skip_update\<close> holds the one value true (and the tensor lists have one
  length), the kernel returns with \<^verbatim>\<open>params_out\<close>, \<^verbatim>\<open>moments1_out\<close>, \<^verbatim>\<open>moments2_out\<close>
  equal to \<^verbatim>\<open>params\<close>, \<^verbatim>\<open>moments1\<close>, \<^verbatim>\<open>moments2\<close> and the two beta-pow outputs
  equal to the beta-pow inputs; everything else of the output state is as at entry, in
  particular no compute group has been dispatched.  Run again on its own outputs, it
  returns them unchanged.
\<close>

theorem C4_skip_update_is_copy:
  assumes "skip_update a = Some [True]"
    and "length (moments1 a) = length (params a)" and "length (moments2 a) = length (params a)"
    and "length (params_out s) = length (params a)"
    and "length (moments1_out s) = length (params a)"
    and "length (moments2_out s) = length (params a)"
  shows "MultiTensorAdamKernel nm a s =
           Some (Inr (s\<lparr>params_out := params a, moments1_out := moments1 a,
                        moments2_out := moments2 a,
                        beta1_pow_out := beta1_pow a, beta2_pow_out := beta2_pow a\<rparr>)) \<and>
         (let s' = s\<lparr>params_out := params a, moments1_out := moments1 a,
                      moments2_out := moments2 a,
                      beta1_pow_out := beta1_pow a, beta2_pow_out := beta2_pow a\<rparr>;
              a' = a\<lparr>params := params_out s', moments1 := moments1_out s',
                      moments2 := moments2_out s',
                      beta1_pow := beta1_pow_out s', beta2_pow := beta2_pow_out s'\<rparr>
          in MultiTensorAdamKernel nm a' s' = Some (Inr s'))"
proof -
  let ?s' = "s\<lparr>params_out := params a, moments1_out := moments1 a, moments2_out := moments2 a,
                beta1_pow_out := beta1_pow a, beta2_pow_out := beta2_pow a\<rparr>"
  let ?a' = "a\<lparr>params := params_out ?s', moments1 := moments1_out ?s', moments2 := moments2_out ?s',
                beta1_pow := beta1_pow_out ?s', beta2_pow := beta2_pow_out ?s'\<rparr>"
  have first: "MultiTensorAdamKernel nm a s = Some (Inr ?s')"
    by (rule skip_path_result [OF assms])
  have "MultiTensorAdamKernel nm ?a' ?s' =
          Some (Inr (?s'\<lparr>params_out := params ?a', moments1_out := moments1 ?a',
                         moments2_out := moments2 ?a',
                         beta1_pow_out := beta1_pow ?a', beta2_pow_out := beta2_pow ?a'\<rparr>))"
    using assms by (intro skip_path_result) simp_all
  then have "MultiTensorAdamKernel nm ?a' ?s' = Some (Inr ?s')"
    by simp
  with first show ?thesis
    by (simp add: Let_def)
qed

theorem C4_skip_update_is_copy_witness:
  "MultiTensorAdamKernel sample_numerics (sample_adam_inputs (Some [True]) False) sample_adam_outputs
     = Some (Inr \<lparr>params_out = [[1, 2]], moments1_out = [[0, 0]], moments2_out = [[0, 0]],
                  master_param_out = [[9, 9]], beta1_pow_out = [3], beta2_pow_out = [5],
                  work_units = 0\<rparr>) \<and>
   MultiTensorAdamKernel sample_numerics (sample_adam_inputs (Some [True]) False)
     \<lparr>params_out = [[1, 2]], moments1_out = [[0, 0]], moments2_out = [[0, 0]],
      master_param_out = [[9, 9]], beta1_pow_out = [3], beta2_pow_out = [5], work_units = 0\<rparr>
     = Some (Inr \<lparr>params_out = [[1, 2]], moments1_out = [[0, 0]], moments2_out = [[0, 0]],
                  master_param_out = [[9, 9]], beta1_pow_out = [3], beta2_pow_out = [5],
                  work_units = 0\<rparr>)"
  using C4_skip_update_is_copy [of "sample_adam_inputs (Some [True]) False" sample_adam_outputs
      sample_numerics]
  by (simp add: sample_adam_inputs_def sample_adam_outputs_def Let_def)

text \<open>
  C10.  On the skip path with \<^verbatim>\<open>multi_precision\<close> set, the kernel returns with
  \<^verbatim>\<open>master_param_out\<close> as it was at entry, and its result is the same whatever
  \<^verbatim>\<open>master_param\<close> is: the master parameters are neither written nor read.
\<close>

theorem C10_skip_path_leaves_master_param_out:
  assumes "skip_update a = Some [True]" and "multi_precision a"
    and "length (moments1 a) = length (params a)" and "length (moments2 a) = length (params a)"
    and "length (params_out s) = length (params a)"
    and "length (moments1_out s) = length (params a)"
    and "length (moments2_out s) = length (params a)"
  shows "\<exists>s'. MultiTensorAdamKernel nm a s = Some (Inr s') \<and>
              master_param_out s' = master_param_out s \<and>
              MultiTensorAdamKernel nm (a\<lparr>master_param := mp\<rparr>) s = Some (Inr s')"
proof -
  let ?s' = "s\<lparr>params_out := params a, moments1_out := moments1 a, moments2_out := moments2 a,
                beta1_pow_out := beta1_pow a, beta2_pow_out := beta2_pow a\<rparr>"
  have "MultiTensorAdamKernel nm a s = Some (Inr ?s')"
    using assms by (intro skip_path_result) simp_all
  moreover have "MultiTensorAdamKernel nm (a\<lparr>master_param := mp\<rparr>) s = Some (Inr ?s')"
    using assms skip_path_result [of "a\<lparr>master_param := mp\<rparr>" s nm] by simp
  moreover have "master_param_out ?s' = master_param_out s"
    by simp
  ultimately show ?thesis
    by blast
qed

theorem C10_skip_path_leaves_master_param_out_witness:
  "\<exists>s'. MultiTensorAdamKernel sample_numerics
            ((sample_adam_inputs (Some [True]) False)\<lparr>multi_precision := True,
                                                       master_param := Some [[4, 4]]\<rparr>)
            sample_adam_outputs = Some (Inr s') \<and>
        master_param_out s' = [[9, 9]] \<and>
        MultiTensorAdamKernel sample_numerics
            ((sample_adam_inputs (Some [True]) False)\<lparr>multi_precision := True, master_param := None\<rparr>)
            sample_adam_outputs = Some (Inr s')"
  using C10_skip_path_leaves_master_param_out
      [of "(sample_adam_inputs (Some [True]) False)\<lparr>multi_precision := True,
                                                     master_param := Some [[4, 4]]\<rparr>"
          sample_adam_outputs sample_numerics None]
  by (simp add: sample_adam_inputs_def sample_adam_outputs_def)

text \<open>
  C5 (amended).  When the update is not skipped, the kernel returns; if
  \<^verbatim>\<open>use_global_beta_pow\<close> is false, element 0 of \<^verbatim>\<open>beta1_pow_out\<close> and of
  \<^verbatim>\<open>beta2_pow_out\<close> has been written with \<open>beta1 * beta1_pow[0]\<close> and
  \<open>beta2 * beta2_pow[0]\<close>, read from the inputs; if it is true, the two outputs are as
  they were at entry.
\<close>

theorem C5_beta_pow_amended:
  assumes "skip_update a = None \<or> skip_update a = Some [False]"
  shows "\<exists>s'. MultiTensorAdamKernel nm a s = Some (Inr s') \<and>
              (if use_global_beta_pow a
               then beta1_pow_out s' = beta1_pow_out s \<and> beta2_pow_out s' = beta2_pow_out s
               else beta1_pow_out s' = (beta1_pow_out s)[0 := beta1 a * beta1_pow a ! 0] \<and>
                    beta2_pow_out s' = (beta2_pow_out s)[0 := beta2 a * beta2_pow a ! 0])"
  using update_path_result [OF assms, of nm s]
  by (auto simp: Let_def UpdateBetaPow_def)

theorem C5_beta_pow_amended_witness:
  "\<exists>s'. MultiTensorAdamKernel sample_numerics (sample_adam_inputs None False) sample_adam_outputs
           = Some (Inr s') \<and> beta1_pow_out s' = [6] \<and> beta2_pow_out s' = [20]"
  using C5_beta_pow_amended [of "sample_adam_inputs None False" sample_numerics sample_adam_outputs]
  by (simp add: sample_adam_inputs_def sample_adam_outputs_def)

text \<open>
  On the skip path the beta-pow outputs are copies of the inputs whatever the flag:
  with \<open>beta1 = 2\<close> and \<open>beta1_pow = [3]\<close> the output is \<open>[3]\<close>, not \<open>[6]\<close>, when the flag
  is false; and when it is true the output, \<open>[7]\<close> at entry, is overwritten.
\<close>

theorem C5_skip_path_counterexample:
  "MultiTensorAdamKernel sample_numerics (sample_adam_inputs (Some [True]) False) sample_adam_outputs
     = Some (Inr (sample_adam_outputs\<lparr>params_out := [[1, 2]], moments1_out := [[0, 0]],
                    moments2_out := [[0, 0]], beta1_pow_out := [3], beta2_pow_out := [5]\<rparr>)) \<and>
   beta1 (sample_adam_inputs (Some [True]) False) * beta1_pow (sample_adam_inputs (Some [True]) False) ! 0 = 6 \<and>
   MultiTensorAdamKernel sample_numerics (sample_adam_inputs (Some [True]) True) sample_adam_outputs
     = Some (Inr (sample_adam_outputs\<lparr>params_out := [[1, 2]], moments1_out := [[0, 0]],
                    moments2_out := [[0, 0]], beta1_pow_out := [3], beta2_pow_out := [5]\<rparr>)) \<and>
   beta1_pow_out sample_adam_outputs = [7]"
  using skip_path_result [of "sample_adam_inputs (Some [True]) False" sample_adam_outputs sample_numerics]
    skip_path_result [of "sample_adam_inputs (Some [True]) True" sample_adam_outputs sample_numerics]
  by (simp add: sample_adam_inputs_def sample_adam_outputs_def)

lemma compute_lane_zero_decay:
  fixes b1 :: "'a::field"
  shows "compute_lane sq b1 b2 p1 p2 e lr True 0 = compute_lane sq b1 b2 p1 p2 e lr False d"
  by (rule ext) (simp add: compute_lane_def Let_def)

lemma skip_copy_loop_cong:
  assumes "params a = params b" and "moments1 a = moments1 b" and "moments2 a = moments2 b"
  shows "skip_copy_loop a i s = skip_copy_loop b i s"
  using assms
proof (induction a i s rule: skip_copy_loop.induct)
  case (1 a i s)
  show ?case
  proof (cases "i < length (params a) \<and> i < length (moments1 a) \<and> i < length (moments2 a) \<and>
                i < length (params_out s) \<and> i < length (moments1_out s) \<and> i < length (moments2_out s)")
    case True
    then show ?thesis
      using "1.IH" "1.prems"
      by (subst skip_copy_loop.simps, subst (2) skip_copy_loop.simps) simp
  next
    case False
    then show ?thesis
      using "1.prems"
      by (subst skip_copy_loop.simps, subst (2) skip_copy_loop.simps) auto
  qed
qed

lemma functor_zero_decay:
  fixes b1 :: "'a::field"
  shows "CudaKernelFunctor nm bd blk cgs tabi g b1 b2 p1 p2 e lr True mp 0 =
         CudaKernelFunctor nm bd blk cgs tabi g b1 b2 p1 p2 e lr False mp d"
  by (rule ext)
    (simp add: CudaKernelFunctor_def compute_lane_zero_decay [where d = d] Let_def)

lemma utility_zero_decay:
  fixes b1 :: "'a::field"
  shows "multi_tensor_adam_utility nm bs cgs ts g b1 b2 p1 p2 e lr True mp 0 =
         multi_tensor_adam_utility nm bs cgs ts g b1 b2 p1 p2 e lr False mp d"
  by (simp add: multi_tensor_adam_utility_def functor_zero_decay [where d = d] Let_def)

text \<open>
  C6.  In exact (field) arithmetic, the kernel run in decoupled-decay mode with
  \<open>weight_decay = 0\<close> returns what it returns in plain mode on the same inputs and the
  same output tensors: all of \<^verbatim>\<open>params_out\<close>, \<^verbatim>\<open>moments1_out\<close>, \<^verbatim>\<open>moments2_out\<close>,
  \<^verbatim>\<open>master_param_out\<close> and the beta-pow outputs.
\<close>

theorem C6_decoupled_zero_decay_is_plain:
  fixes a :: "('t, 'a::field) adam_inputs"
  shows "MultiTensorAdamKernel nm (a\<lparr>mode := True, weight_decay := 0\<rparr>) s =
         MultiTensorAdamKernel nm (a\<lparr>mode := False\<rparr>) s"
proof -
  have "skip_copy_loop (a\<lparr>mode := True, weight_decay := 0\<rparr>) 0 s = skip_copy_loop (a\<lparr>mode := False\<rparr>) 0 s"
    by (rule skip_copy_loop_cong) simp_all
  then show ?thesis
    by (simp add: MultiTensorAdamKernel_def utility_zero_decay [where d = "weight_decay a"]
        cong: if_cong sum.case_cong option.case_cong)
qed


subsection \<open>Multi-tensor Adam: the guarded element loop\<close>

declare thread_accesses.simps [simp del]

lemma lanes_unrolled:
  "map (lane_index bd tid i_start) [0..<PARALLEL_SIZE]
   = [i_start + int tid, i_start + int tid + int bd, i_start + int tid + 2 * int bd,
      i_start + int tid + 3 * int bd]"
  by (simp add: PARALLEL_SIZE_def lane_index_def upt_conv_Cons numeral_eq_Suc)

lemma split_quotient:
  "(\<exists>q::nat. (i::int) = i_start + int tid + int q * int bd)
   \<longleftrightarrow> (i = i_start + int tid \<or> i = i_start + int tid + int bd \<or>
        i = i_start + int tid + 2 * int bd \<or> i = i_start + int tid + 3 * int bd)
       \<or> (\<exists>q::nat. i = i_start + int (bd * PARALLEL_SIZE) + int tid + int q * int bd)"
proof
  assume "\<exists>q::nat. i = i_start + int tid + int q * int bd"
  then obtain q :: nat where q: "i = i_start + int tid + int q * int bd" by blast
  consider "q = 0" | "q = 1" | "q = 2" | "q = 3" | "4 \<le> q" by linarith
  then show "(i = i_start + int tid \<or> i = i_start + int tid + int bd \<or>
        i = i_start + int tid + 2 * int bd \<or> i = i_start + int tid + 3 * int bd)
       \<or> (\<exists>q::nat. i = i_start + int (bd * PARALLEL_SIZE) + int tid + int q * int bd)"
  proof cases
    case 1 with q show ?thesis by simp
  next
    case 2 with q show ?thesis by simp
  next
    case 3 with q show ?thesis by simp
  next
    case 4 with q show ?thesis by simp
  next
    case 5
    then have "int q = 4 + int (q - 4)" by linarith
    then have "int q * int bd = 4 * int bd + int (q - 4) * int bd"
      by (simp only: distrib_right)
    then have "i = i_start + int (bd * PARALLEL_SIZE) + int tid + int (q - 4) * int bd"
      using q by (simp add: PARALLEL_SIZE_def)
    then show ?thesis by blast
  qed
next
  assume "(i = i_start + int tid \<or> i = i_start + int tid + int bd \<or>
        i = i_start + int tid + 2 * int bd \<or> i = i_start + int tid + 3 * int bd)
       \<or> (\<exists>q::nat. i = i_start + int (bd * PARALLEL_SIZE) + int tid + int q * int bd)"
  then consider "i = i_start + int tid + int (0::nat) * int bd"
    | "i = i_start + int tid + int (1::nat) * int bd"
    | "i = i_start + int tid + int (2::nat) * int bd"
    | "i = i_start + int tid + int (3::nat) * int bd"
    | q :: nat where "i = i_start + int (bd * PARALLEL_SIZE) + int tid + int q * int bd"
    by auto
  then show "\<exists>q::nat. i = i_start + int tid + int q * int bd"
  proof cases
    case 1 then show ?thesis by (rule exI)
  next
    case 2 then show ?thesis by (rule exI)
  next
    case 3 then show ?thesis by (rule exI)
  next
    case 4 then show ?thesis by (rule exI)
  next
    case 5
    have "int (q + 4) * int bd = 4 * int bd + int q * int bd"
      by (simp add: distrib_right)
    then have "i = i_start + int tid + int (q + 4) * int bd"
      using 5 by (simp add: PARALLEL_SIZE_def)
    then show ?thesis by (rule exI)
  qed
qed


lemma thread_accesses_unfold:
  assumes "i_start < n" and "i_start < cgs" and "0 < bd"
  shows "thread_accesses bd tid n cgs i_start
         = filter (in_guard n cgs) (map (lane_index bd tid i_start) [0..<PARALLEL_SIZE])
           @ thread_accesses bd tid n cgs (i_start + int (bd * PARALLEL_SIZE))"
  using assms by (subst thread_accesses.simps) simp

lemma thread_accesses_done:
  assumes "\<not> (i_start < n \<and> i_start < cgs)"
  shows "thread_accesses bd tid n cgs i_start = []"
proof -
  have "\<not> (i_start < n \<and> i_start < cgs \<and> 0 < bd)"
    using assms by blast
  then show ?thesis
    by (subst thread_accesses.simps) (simp only: if_False)
qed

lemma set_thread_accesses:
  assumes "0 < bd"
  shows "set (thread_accesses bd tid n cgs i_start)
         = {i. (\<exists>q::nat. i = i_start + int tid + int q * int bd) \<and> in_guard n cgs i}"
  using assms
proof (induction bd tid n cgs i_start rule: thread_accesses.induct)
  case (1 bd tid n cgs i_start)
  show ?case
  proof (cases "i_start < n \<and> i_start < cgs")
    case False
    have "\<not> in_guard n cgs (i_start + int tid + int q * int bd)" for q
    proof -
      have "0 \<le> int tid + int q * int bd" by simp
      then show ?thesis
        using False unfolding in_guard_def by linarith
    qed
    then have "{i. (\<exists>q::nat. i = i_start + int tid + int q * int bd) \<and> in_guard n cgs i} = {}"
      by blast
    then show ?thesis
      by (simp only: thread_accesses_done [OF False] list.set)
  next
    case True
    then have c: "i_start < n" "i_start < cgs" by simp_all
    note unfold = thread_accesses_unfold [OF c "1.prems", of tid]
    have IH: "set (thread_accesses bd tid n cgs (i_start + int (bd * PARALLEL_SIZE)))
          = {i. (\<exists>q::nat. i = i_start + int (bd * PARALLEL_SIZE) + int tid + int q * int bd)
                  \<and> in_guard n cgs i}"
      using True "1.prems" by (intro "1.IH") simp_all
    show ?thesis
    proof (rule set_eqI)
      fix i
      define A where "A \<longleftrightarrow> (\<exists>q::nat. i = i_start + int tid + int q * int bd)"
      define A4 where "A4 \<longleftrightarrow> (i = i_start + int tid \<or> i = i_start + int tid + int bd \<or>
        i = i_start + int tid + 2 * int bd \<or> i = i_start + int tid + 3 * int bd)"
      define A' where
        "A' \<longleftrightarrow> (\<exists>q::nat. i = i_start + int (bd * PARALLEL_SIZE) + int tid + int q * int bd)"
      have key: "A \<longleftrightarrow> A4 \<or> A'"
        unfolding A_def A4_def A'_def by (rule split_quotient)
      have head: "i \<in> set (filter (in_guard n cgs) (map (lane_index bd tid i_start) [0..<PARALLEL_SIZE]))
                  \<longleftrightarrow> A4 \<and> in_guard n cgs i"
        unfolding lanes_unrolled A4_def by simp blast
      have tail: "i \<in> set (thread_accesses bd tid n cgs (i_start + int (bd * PARALLEL_SIZE)))
                  \<longleftrightarrow> A' \<and> in_guard n cgs i"
        unfolding IH A'_def by simp
      have "i \<in> set (thread_accesses bd tid n cgs i_start) \<longleftrightarrow> A \<and> in_guard n cgs i"
        unfolding unfold set_append Un_iff head tail key by blast
      then show "i \<in> set (thread_accesses bd tid n cgs i_start)
                 \<longleftrightarrow> i \<in> {i. (\<exists>q::nat. i = i_start + int tid + int q * int bd) \<and> in_guard n cgs i}"
        unfolding A_def by simp
    qed
  qed
qed

lemma distinct_thread_accesses:
  assumes "0 < bd"
  shows "distinct (thread_accesses bd tid n cgs i_start)"
  using assms
proof (induction bd tid n cgs i_start rule: thread_accesses.induct)
  case (1 bd tid n cgs i_start)
  show ?case
  proof (cases "i_start < n \<and> i_start < cgs")
    case False
    show ?thesis
      by (simp only: thread_accesses_done [OF False] distinct.simps)
  next
    case True
    then have c: "i_start < n" "i_start < cgs" by simp_all
    note unfold = thread_accesses_unfold [OF c "1.prems", of tid]
    have IH: "distinct (thread_accesses bd tid n cgs (i_start + int (bd * PARALLEL_SIZE)))"
      using True "1.prems" by (intro "1.IH") simp_all
    have head: "distinct (filter (in_guard n cgs) (map (lane_index bd tid i_start) [0..<PARALLEL_SIZE]))"
      using "1.prems" unfolding lanes_unrolled by (intro distinct_filter) simp
    have upper: "x \<le> i_start + int tid + 3 * int bd"
      if "x \<in> set (filter (in_guard n cgs) (map (lane_index bd tid i_start) [0..<PARALLEL_SIZE]))" for x
    proof -
      from that have "x \<in> set (map (lane_index bd tid i_start) [0..<PARALLEL_SIZE])"
        by (simp only: set_filter mem_Collect_eq)
      then have "x = i_start + int tid \<or> x = i_start + int tid + int bd \<or>
                 x = i_start + int tid + 2 * int bd \<or> x = i_start + int tid + 3 * int bd"
        unfolding lanes_unrolled by simp
      then show ?thesis
        using "1.prems" by linarith
    qed
    have lower: "i_start + 4 * int bd + int tid \<le> x"
      if "x \<in> set (thread_accesses bd tid n cgs (i_start + int (bd * PARALLEL_SIZE)))" for x
    proof -
      from that obtain q :: nat where "x = i_start + int (bd * PARALLEL_SIZE) + int tid + int q * int bd"
        unfolding set_thread_accesses [OF "1.prems"] by blast
      moreover have "0 \<le> int q * int bd" by simp
      ultimately show ?thesis by (simp add: PARALLEL_SIZE_def)
    qed
    have "set (filter (in_guard n cgs) (map (lane_index bd tid i_start) [0..<PARALLEL_SIZE]))
          \<inter> set (thread_accesses bd tid n cgs (i_start + int (bd * PARALLEL_SIZE))) = {}"
    proof (rule ccontr)
      assume "set (filter (in_guard n cgs) (map (lane_index bd tid i_start) [0..<PARALLEL_SIZE]))
          \<inter> set (thread_accesses bd tid n cgs (i_start + int (bd * PARALLEL_SIZE))) \<noteq> {}"
      then obtain x where
        "x \<in> set (filter (in_guard n cgs) (map (lane_index bd tid i_start) [0..<PARALLEL_SIZE]))"
        "x \<in> set (thread_accesses bd tid n cgs (i_start + int (bd * PARALLEL_SIZE)))"
        by blast
      from upper [OF this(1)] lower [OF this(2)] "1.prems" show False by simp
    qed
    with head IH show ?thesis
      unfolding unfold by (simp only: distinct_append)
  qed
qed


lemma residue:
  assumes "0 < bd" and "tid < bd"
  shows "(\<exists>q::nat. (i::int) = 0 + int tid + int q * int bd) \<longleftrightarrow> (0 \<le> i \<and> i mod int bd = int tid)"
proof
  assume "\<exists>q::nat. i = 0 + int tid + int q * int bd"
  then obtain q :: nat where q: "i = int tid + int q * int bd" by auto
  have "0 \<le> int q * int bd" by simp
  then have "0 \<le> i" using q by linarith
  moreover have "i mod int bd = int tid"
    using assms q by simp
  ultimately show "0 \<le> i \<and> i mod int bd = int tid" by blast
next
  assume a: "0 \<le> i \<and> i mod int bd = int tid"
  then have "0 \<le> i div int bd"
    using assms by (simp add: pos_imp_zdiv_nonneg_iff)
  then have "int (nat (i div int bd)) = i div int bd" by simp
  moreover have "i = i mod int bd + (i div int bd) * int bd"
    by simp
  ultimately have "i = 0 + int tid + int (nat (i div int bd)) * int bd"
    using a by simp
  then show "\<exists>q::nat. i = 0 + int tid + int q * int bd" by (rule exI)
qed

lemma set_thread_accesses_0:
  assumes "0 < bd" and "tid < bd"
  shows "set (thread_accesses bd tid n cgs 0)
         = {i. 0 \<le> i \<and> i mod int bd = int tid \<and> in_guard n cgs i}"
  unfolding set_thread_accesses [OF assms(1)] residue [OF assms] by blast

lemma distinct_concat_upt:
  assumes "\<And>t. t < m \<Longrightarrow> distinct (f t)"
    and "\<And>s t. s < t \<Longrightarrow> t < m \<Longrightarrow> set (f s) \<inter> set (f t) = {}"
  shows "distinct (concat (map f [0..<m]))"
  using assms
proof (induction m)
  case 0
  then show ?case by simp
next
  case (Suc m)
  have "distinct (concat (map f [0..<m]))"
    using Suc.prems by (intro Suc.IH) simp_all
  moreover have "distinct (f m)"
    using Suc.prems(1) by simp
  moreover have "set (concat (map f [0..<m])) \<inter> set (f m) = {}"
  proof -
    have "x \<notin> set (f m)" if "s < m" and "x \<in> set (f s)" for s x
      using Suc.prems(2) [of s m] that by blast
    then show ?thesis
      by auto
  qed
  ultimately show ?case
    by simp
qed

lemma distinct_block_accesses:
  assumes "0 < bd"
  shows "distinct (block_accesses bd n cgs)"
  unfolding block_accesses_def
proof (rule distinct_concat_upt)
  fix t assume "t < bd"
  show "distinct (thread_accesses bd t n cgs 0)"
    by (rule distinct_thread_accesses [OF assms])
next
  fix s t assume "s < t" "t < bd"
  then have "s < bd" by simp
  show "set (thread_accesses bd s n cgs 0) \<inter> set (thread_accesses bd t n cgs 0) = {}"
    unfolding set_thread_accesses_0 [OF assms \<open>s < bd\<close>] set_thread_accesses_0 [OF assms \<open>t < bd\<close>]
    using \<open>s < t\<close> by auto
qed

lemma set_block_accesses:
  assumes "0 < bd"
  shows "set (block_accesses bd n cgs) = {i. 0 \<le> i \<and> in_guard n cgs i}"
proof (rule set_eqI)
  fix i
  have "i \<in> set (block_accesses bd n cgs)
        \<longleftrightarrow> (\<exists>t<bd. i \<in> set (thread_accesses bd t n cgs 0))"
    unfolding block_accesses_def by auto
  also have "\<dots> \<longleftrightarrow> (\<exists>t<bd. 0 \<le> i \<and> i mod int bd = int t \<and> in_guard n cgs i)"
    using set_thread_accesses_0 [OF assms] by auto
  also have "\<dots> \<longleftrightarrow> 0 \<le> i \<and> in_guard n cgs i"
  proof
    assume "\<exists>t<bd. 0 \<le> i \<and> i mod int bd = int t \<and> in_guard n cgs i"
    then show "0 \<le> i \<and> in_guard n cgs i" by blast
  next
    assume a: "0 \<le> i \<and> in_guard n cgs i"
    have "0 \<le> i mod int bd" "i mod int bd < int bd"
      using assms by simp_all
    then have "nat (i mod int bd) < bd" "i mod int bd = int (nat (i mod int bd))"
      by simp_all
    with a show "\<exists>t<bd. 0 \<le> i \<and> i mod int bd = int t \<and> in_guard n cgs i"
      by blast
  qed
  finally show "i \<in> set (block_accesses bd n cgs) \<longleftrightarrow> i \<in> {i. 0 \<le> i \<and> in_guard n cgs i}"
    by simp
qed

lemma sized_write_where [simp]:
  "sized N mp g (write_where nm mp off T h a) = sized N mp g a"
  by (simp add: sized_def write_where_def)

lemma write_where_nothing:
  "write_where nm mp off (\<lambda>i. False) h a = a"
  by (simp add: write_where_def map_nth)

lemma write_where_compose:
  "write_where nm mp off T2 h2 (write_where nm mp off T1 h1 a)
   = write_where nm mp off (\<lambda>i. T1 i \<or> T2 i) (\<lambda>i. if T2 i then h2 i else h1 i) a"
  by (simp add: write_where_def)

lemma write_where_cong:
  assumes "\<And>i. T i = T' i" and "\<And>i. T i \<Longrightarrow> h i = h' i"
  shows "write_where nm mp off T h a = write_where nm mp off T' h' a"
  using assms by (simp add: write_where_def cong: if_cong)


lemma list_update_as_map:
  assumes "0 \<le> off + i" and "nat (off + i) < length xs"
  shows "xs[nat (off + i) := v] = map (\<lambda>k. if int k - off = i then v else xs ! k) [0..<length xs]"
proof (rule nth_equalityI)
  show "length (xs[nat (off + i) := v])
        = length (map (\<lambda>k. if int k - off = i then v else xs ! k) [0..<length xs])"
    by simp
next
  fix k assume "k < length (xs[nat (off + i) := v])"
  then have k: "k < length xs" by simp
  have "int k - off = i \<longleftrightarrow> k = nat (off + i)"
    using assms(1) by linarith
  then show "xs[nat (off + i) := v] ! k
             = map (\<lambda>k. if int k - off = i then v else xs ! k) [0..<length xs] ! k"
    using k by (simp add: nth_list_update)
qed

lemma store_lane_outside:
  "\<not> in_guard n cgs i \<Longrightarrow> store_lane nm mp off n cgs (i, r) a = a"
  by (simp add: store_lane_def)

lemma store_lane_inside:
  assumes "in_guard n cgs i" and "sized N mp g a" and "0 \<le> off + i" and "nat (off + i) < N"
  shows "store_lane nm mp off n cgs (i, r) a = write_where nm mp off (\<lambda>j. j = i) (\<lambda>j. r) a"
proof -
  have "(arr_p a)[nat (off + i) := to_T nm (r_p r)]
        = map (\<lambda>k. if int k - off = i then to_T nm (r_p r) else arr_p a ! k) [0..<length (arr_p a)]"
    using assms by (intro list_update_as_map) (simp_all add: sized_def)
  moreover have "(arr_m a)[nat (off + i) := r_m r]
        = map (\<lambda>k. if int k - off = i then r_m r else arr_m a ! k) [0..<length (arr_m a)]"
    using assms by (intro list_update_as_map) (simp_all add: sized_def)
  moreover have "(arr_v a)[nat (off + i) := r_v r]
        = map (\<lambda>k. if int k - off = i then r_v r else arr_v a ! k) [0..<length (arr_v a)]"
    using assms by (intro list_update_as_map) (simp_all add: sized_def)
  moreover have "(arr_mp a)[nat (off + i) := r_p r]
        = map (\<lambda>k. if int k - off = i then r_p r else arr_mp a ! k) [0..<length (arr_mp a)]" if mp
    using assms that by (intro list_update_as_map) (simp_all add: sized_def)
  ultimately show ?thesis
    using assms(1) by (simp add: store_lane_def write_where_def)
qed

lemma load_lane_write_where:
  assumes "\<not> T i" and "sized N mp g a" and "0 \<le> off + i" and "nat (off + i) < N"
  shows "load_lane nm mp g off n cgs (write_where nm mp off T h a) i = load_lane nm mp g off n cgs a i"
proof -
  have "int (nat (off + i)) - off = i"
    using assms(3) by simp
  then show ?thesis
    using assms by (simp add: load_lane_def write_where_def sized_def)
qed

lemma fold_store_lane:
  assumes "sized N mp g a"
    and "\<And>i. i \<in> set idx \<Longrightarrow> in_guard n cgs i \<Longrightarrow> 0 \<le> off + i \<and> nat (off + i) < N"
  shows "fold (store_lane nm mp off n cgs) (zip idx (map h idx)) a
         = write_where nm mp off (\<lambda>j. j \<in> set idx \<and> in_guard n cgs j) h a"
  using assms
proof (induction idx arbitrary: a)
  case Nil
  then show ?case
    by (simp add: write_where_nothing)
next
  case (Cons i idx)
  show ?case
  proof (cases "in_guard n cgs i")
    case False
    have "fold (store_lane nm mp off n cgs) (zip (i # idx) (map h (i # idx))) a
          = fold (store_lane nm mp off n cgs) (zip idx (map h idx)) a"
      using False by (simp add: store_lane_outside)
    also have "\<dots> = write_where nm mp off (\<lambda>j. j \<in> set idx \<and> in_guard n cgs j) h a"
      using Cons.prems by (intro Cons.IH) simp_all
    also have "\<dots> = write_where nm mp off (\<lambda>j. j \<in> set (i # idx) \<and> in_guard n cgs j) h a"
      using False by (intro write_where_cong) auto
    finally show ?thesis .
  next
    case True
    then have range: "0 \<le> off + i" "nat (off + i) < N"
      using Cons.prems(2) [of i] by simp_all
    let ?a = "write_where nm mp off (\<lambda>j. j = i) (\<lambda>j. h i) a"
    have "fold (store_lane nm mp off n cgs) (zip (i # idx) (map h (i # idx))) a
          = fold (store_lane nm mp off n cgs) (zip idx (map h idx)) ?a"
      using store_lane_inside [OF True Cons.prems(1) range] by simp
    also have "\<dots> = write_where nm mp off (\<lambda>j. j \<in> set idx \<and> in_guard n cgs j) h ?a"
      using Cons.prems by (intro Cons.IH) simp_all
    also have "\<dots> = write_where nm mp off (\<lambda>j. j = i \<or> j \<in> set idx \<and> in_guard n cgs j)
                        (\<lambda>j. if j \<in> set idx \<and> in_guard n cgs j then h j else h i) a"
      by (rule write_where_compose)
    also have "\<dots> = write_where nm mp off (\<lambda>j. j \<in> set (i # idx) \<and> in_guard n cgs j) h a"
      using True by (intro write_where_cong) auto
    finally show ?thesis .
  qed
qed


lemma lane_lower_bound:
  assumes "i \<in> set (map (lane_index bd tid i_start) [0..<PARALLEL_SIZE])"
  shows "i_start \<le> i"
proof -
  from assms obtain ii where "i = lane_index bd tid i_start ii" by auto
  moreover have "0 \<le> int tid + int ii * int bd" by simp
  ultimately show ?thesis
    unfolding lane_index_def by linarith
qed

lemma guarded_in_range:
  assumes "in_guard n cgs i" and "0 \<le> i" and "0 \<le> off" and "n \<le> int N - off"
  shows "0 \<le> off + i \<and> nat (off + i) < N"
  using assms unfolding in_guard_def by linarith

lemma thread_iteration_write:
  assumes "sized N mp g a" and "0 \<le> off" and "0 \<le> i_start" and "n \<le> int N - off"
  shows "thread_iteration nm compute mp bd tid g off n cgs i_start a
         = write_where nm mp off
             (\<lambda>j. j \<in> set (filter (in_guard n cgs) (map (lane_index bd tid i_start) [0..<PARALLEL_SIZE])))
             (\<lambda>j. compute (load_lane nm mp g off n cgs a j)) a"
proof -
  let ?idx = "map (lane_index bd tid i_start) [0..<PARALLEL_SIZE]"
  have range: "0 \<le> off + i \<and> nat (off + i) < N" if "i \<in> set ?idx" "in_guard n cgs i" for i
    using lane_lower_bound [OF that(1)] assms(2-4) that(2) by (intro guarded_in_range) simp_all
  have "thread_iteration nm compute mp bd tid g off n cgs i_start a
        = fold (store_lane nm mp off n cgs)
            (zip ?idx (map (\<lambda>j. compute (load_lane nm mp g off n cgs a j)) ?idx)) a"
    unfolding thread_iteration_def Let_def by (simp only: map_map comp_def)
  also have "\<dots> = write_where nm mp off (\<lambda>j. j \<in> set ?idx \<and> in_guard n cgs j)
                      (\<lambda>j. compute (load_lane nm mp g off n cgs a j)) a"
    using assms(1) range by (rule fold_store_lane)
  also have "\<dots> = write_where nm mp off (\<lambda>j. j \<in> set (filter (in_guard n cgs) ?idx))
                      (\<lambda>j. compute (load_lane nm mp g off n cgs a j)) a"
    by (intro write_where_cong) simp_all
  finally show ?thesis .
qed

lemma thread_accesses_range:
  assumes "0 < bd" and "j \<in> set (thread_accesses bd tid n cgs i_start)"
  shows "i_start \<le> j \<and> in_guard n cgs j"
proof -
  from assms(2) obtain q :: nat where "j = i_start + int tid + int q * int bd" and "in_guard n cgs j"
    unfolding set_thread_accesses [OF assms(1)] by blast
  moreover have "0 \<le> int tid + int q * int bd" by simp
  ultimately show ?thesis by linarith
qed

lemma thread_loop_write:
  assumes "0 < bd" and "sized N mp g a" and "0 \<le> off" and "0 \<le> i_start" and "n \<le> int N - off"
  shows "thread_loop nm compute mp bd tid g off n cgs i_start a
         = Some (write_where nm mp off (\<lambda>j. j \<in> set (thread_accesses bd tid n cgs i_start))
                   (\<lambda>j. compute (load_lane nm mp g off n cgs a j)) a)"
  using assms(2,4)
proof (induction "nat (min n cgs - i_start)" arbitrary: i_start a rule: less_induct)
  case less
  show ?case
  proof (cases "i_start < n \<and> i_start < cgs")
    case False
    have "thread_loop nm compute mp bd tid g off n cgs i_start a = Some a"
      using False by (subst thread_loop.simps) auto
    then show ?thesis
      by (simp only: thread_accesses_done [OF False] list.set empty_iff write_where_nothing)
  next
    case True
    then have c: "i_start < n" "i_start < cgs" by simp_all
    let ?next = "i_start + int (bd * PARALLEL_SIZE)"
    let ?head = "filter (in_guard n cgs) (map (lane_index bd tid i_start) [0..<PARALLEL_SIZE])"
    let ?h = "\<lambda>a j. compute (load_lane nm mp g off n cgs a j)"
    let ?a1 = "write_where nm mp off (\<lambda>j. j \<in> set ?head) (?h a) a"
    note unfold = thread_accesses_unfold [OF c assms(1), of tid]
    have smaller: "nat (min n cgs - ?next) < nat (min n cgs - i_start)"
      using True assms(1) by (simp add: PARALLEL_SIZE_def)
    have disjoint: "set ?head \<inter> set (thread_accesses bd tid n cgs ?next) = {}"
      using distinct_thread_accesses [OF assms(1), of tid n cgs i_start]
      unfolding unfold by (simp only: distinct_append)
    have "thread_loop nm compute mp bd tid g off n cgs i_start a
          = thread_loop nm compute mp bd tid g off n cgs ?next
              (thread_iteration nm compute mp bd tid g off n cgs i_start a)"
      using True by (subst thread_loop.simps) simp
    also have "\<dots> = thread_loop nm compute mp bd tid g off n cgs ?next ?a1"
      by (simp only: thread_iteration_write [OF less.prems(1) assms(3) less.prems(2) assms(5)])
    also have "\<dots> = Some (write_where nm mp off (\<lambda>j. j \<in> set (thread_accesses bd tid n cgs ?next))
                             (?h ?a1) ?a1)"
      using less.prems by (intro less.hyps [OF smaller]) simp_all
    also have "write_where nm mp off (\<lambda>j. j \<in> set (thread_accesses bd tid n cgs ?next)) (?h ?a1) ?a1
               = write_where nm mp off
                   (\<lambda>j. j \<in> set ?head \<or> j \<in> set (thread_accesses bd tid n cgs ?next))
                   (\<lambda>j. if j \<in> set (thread_accesses bd tid n cgs ?next) then ?h ?a1 j else ?h a j) a"
      by (rule write_where_compose)
    also have "\<dots> = write_where nm mp off (\<lambda>j. j \<in> set (thread_accesses bd tid n cgs i_start))
                        (?h a) a"
    proof (rule write_where_cong)
      fix j
      show "(j \<in> set ?head \<or> j \<in> set (thread_accesses bd tid n cgs ?next))
            = (j \<in> set (thread_accesses bd tid n cgs i_start))"
        unfolding unfold by simp
    next
      fix j
      assume "j \<in> set ?head \<or> j \<in> set (thread_accesses bd tid n cgs ?next)"
      show "(if j \<in> set (thread_accesses bd tid n cgs ?next) then ?h ?a1 j else ?h a j) = ?h a j"
      proof (cases "j \<in> set (thread_accesses bd tid n cgs ?next)")
        case False
        then show ?thesis by simp
      next
        case True
        then have notin: "\<not> j \<in> set ?head"
          using disjoint by blast
        have bounds: "?next \<le> j \<and> in_guard n cgs j"
          using thread_accesses_range [OF assms(1) True] .
        have "0 \<le> int (bd * PARALLEL_SIZE)" by simp
        then have "0 \<le> j"
          using bounds less.prems(2) by linarith
        then have range: "0 \<le> off + j" "nat (off + j) < N"
          using bounds assms(3,5) guarded_in_range [of n cgs j off N] by blast+
        have "load_lane nm mp g off n cgs ?a1 j = load_lane nm mp g off n cgs a j"
          by (rule load_lane_write_where [where T = "\<lambda>j. j \<in> set ?head", OF notin less.prems(1) range])
        then show ?thesis
          using True by simp
      qed
    qed
    finally show ?thesis .
  qed
qed


lemma threads_write:
  assumes "0 < bd" and "sized N mp g a" and "0 \<le> off" and "n \<le> int N - off" and "m \<le> bd"
  shows "fold (\<lambda>threadIdx r. Option.bind r (thread_loop nm compute mp bd threadIdx g off n cgs 0))
              [0..<m] (Some a)
         = Some (write_where nm mp off (\<lambda>j. \<exists>t<m. j \<in> set (thread_accesses bd t n cgs 0))
                   (\<lambda>j. compute (load_lane nm mp g off n cgs a j)) a)"
  using assms(5)
proof (induction m)
  case 0
  show ?case
    by (simp add: write_where_nothing)
next
  case (Suc m)
  let ?h = "\<lambda>a j. compute (load_lane nm mp g off n cgs a j)"
  let ?T = "\<lambda>m j. \<exists>t<m. j \<in> set (thread_accesses bd t n cgs 0)"
  let ?am = "write_where nm mp off (?T m) (?h a) a"
  have m: "m < bd" using Suc.prems by simp
  have IH: "fold (\<lambda>threadIdx r. Option.bind r (thread_loop nm compute mp bd threadIdx g off n cgs 0))
              [0..<m] (Some a) = Some ?am"
    using Suc.prems by (intro Suc.IH) simp
  have sized_am: "sized N mp g ?am"
    using assms(2) by simp
  have "fold (\<lambda>threadIdx r. Option.bind r (thread_loop nm compute mp bd threadIdx g off n cgs 0))
              [0..<Suc m] (Some a)
        = thread_loop nm compute mp bd m g off n cgs 0 ?am"
    by (simp add: IH)
  also have "\<dots> = Some (write_where nm mp off (\<lambda>j. j \<in> set (thread_accesses bd m n cgs 0))
                           (?h ?am) ?am)"
    by (rule thread_loop_write [OF assms(1) sized_am assms(3) order_refl assms(4)])
  also have "write_where nm mp off (\<lambda>j. j \<in> set (thread_accesses bd m n cgs 0)) (?h ?am) ?am
             = write_where nm mp off (\<lambda>j. ?T m j \<or> j \<in> set (thread_accesses bd m n cgs 0))
                 (\<lambda>j. if j \<in> set (thread_accesses bd m n cgs 0) then ?h ?am j else ?h a j) a"
    by (rule write_where_compose)
  also have "\<dots> = write_where nm mp off (?T (Suc m)) (?h a) a"
  proof (rule write_where_cong)
    fix j
    show "(?T m j \<or> j \<in> set (thread_accesses bd m n cgs 0)) = ?T (Suc m) j"
      by (auto simp: less_Suc_eq)
  next
    fix j
    assume "?T m j \<or> j \<in> set (thread_accesses bd m n cgs 0)"
    show "(if j \<in> set (thread_accesses bd m n cgs 0) then ?h ?am j else ?h a j) = ?h a j"
    proof (cases "j \<in> set (thread_accesses bd m n cgs 0)")
      case False
      then show ?thesis by simp
    next
      case True
      then have here: "0 \<le> j \<and> j mod int bd = int m \<and> in_guard n cgs j"
        unfolding set_thread_accesses_0 [OF assms(1) m] by simp
      have notin: "\<not> ?T m j"
      proof
        assume "?T m j"
        then obtain t where t: "t < m" "j \<in> set (thread_accesses bd t n cgs 0)" by blast
        then have "t < bd" using m by simp
        from t(2) have "j mod int bd = int t"
          unfolding set_thread_accesses_0 [OF assms(1) \<open>t < bd\<close>] by simp
        with here t(1) show False by simp
      qed
      have range: "0 \<le> off + j" "nat (off + j) < N"
        using here assms(3,4) guarded_in_range [of n cgs j off N] by blast+
      have "load_lane nm mp g off n cgs ?am j = load_lane nm mp g off n cgs a j"
        by (rule load_lane_write_where [where T = "?T m", OF notin assms(2) range])
      then show ?thesis
        using True by simp
    qed
  qed
  finally show ?case .
qed

lemma run_block_is_chunk_update:
  assumes "0 < bd" and "sized N mp g a" and "0 \<le> off" and "n \<le> int N - off"
  shows "run_block nm compute mp bd g off n cgs a = Some (chunk_update nm compute mp g off n cgs a)"
proof -
  have "run_block nm compute mp bd g off n cgs a
        = Some (write_where nm mp off (\<lambda>j. \<exists>t<bd. j \<in> set (thread_accesses bd t n cgs 0))
                  (\<lambda>j. compute (load_lane nm mp g off n cgs a j)) a)"
    unfolding run_block_def by (rule threads_write [OF assms order_refl])
  also have "write_where nm mp off (\<lambda>j. \<exists>t<bd. j \<in> set (thread_accesses bd t n cgs 0))
                  (\<lambda>j. compute (load_lane nm mp g off n cgs a j)) a
             = chunk_update nm compute mp g off n cgs a"
    unfolding chunk_update_def
  proof (rule write_where_cong)
    fix j
    have "(\<exists>t<bd. j \<in> set (thread_accesses bd t n cgs 0)) \<longleftrightarrow> j \<in> set (block_accesses bd n cgs)"
      unfolding block_accesses_def by auto
    then show "(\<exists>t<bd. j \<in> set (thread_accesses bd t n cgs 0)) = (0 \<le> j \<and> in_guard n cgs j)"
      unfolding set_block_accesses [OF assms(1)] by simp
  qed simp
  finally show ?thesis .
qed

lemma loads_append [simp]: "loads (xs @ ys) = loads xs @ loads ys"
  by (induction xs rule: loads.induct) simp_all

lemma stores_append [simp]: "stores (xs @ ys) = stores xs @ stores ys"
  by (induction xs rule: stores.induct) simp_all

lemma loads_map [simp]:
  "loads (map (\<lambda>j. Load (f j)) ks) = map f ks" "loads (map (\<lambda>j. Store (f j)) ks) = []"
  by (induction ks) simp_all

lemma stores_map [simp]:
  "stores (map (\<lambda>j. Store (f j)) ks) = map f ks" "stores (map (\<lambda>j. Load (f j)) ks) = []"
  by (induction ks) simp_all

lemma uint32_id: "0 \<le> x \<Longrightarrow> x < 2 ^ 32 \<Longrightarrow> uint32 x = x"
  by (simp add: uint32_def)

lemma int32_id: "x < 2 ^ 31 \<Longrightarrow> int32 x = x"
  by (simp add: int32_def)

lemma device_lane_index_exact:
  assumes "0 \<le> i_start" and "ii < PARALLEL_SIZE" 
    and "i_start + int (bd * PARALLEL_SIZE) \<le> 2 ^ 31" and "tid < bd"
  shows "device_lane_index bd tid i_start ii = lane_index bd tid i_start ii"
proof -
  define P where "P = int ii * int bd"
  have ii: "int ii \<le> 3"
    using assms(2) by (simp add: PARALLEL_SIZE_def)
  have P: "0 \<le> P" "P \<le> 3 * int bd"
    using ii by (simp_all add: P_def mult_right_mono)
  have four: "i_start + 4 * int bd \<le> 2147483648"
    using assms(3) by (simp add: PARALLEL_SIZE_def)
  have tid: "int tid < int bd"
    using assms(4) by simp
  have a: "uint32 i_start = i_start"
    using assms(1) four by (intro uint32_id) simp_all
  have b: "uint32 (i_start + int tid) = i_start + int tid"
    using assms(1) four tid by (intro uint32_id) simp_all
  have c: "uint32 (int ii) = int ii"
    using ii by (intro uint32_id) simp_all
  have d: "uint32 P = P"
    using P four assms(1) by (intro uint32_id) simp_all
  have e: "uint32 (i_start + int tid + P) = i_start + int tid + P"
    using assms(1) four tid P by (intro uint32_id) simp_all
  have f: "int32 (i_start + int tid + P) = i_start + int tid + P"
    using assms(1) four tid P by (intro int32_id) simp_all
  show ?thesis
    unfolding device_lane_index_def lane_index_def c a b P_def [symmetric] d e f ..
qed

lemma device_next_start_exact:
  assumes "0 \<le> i_start" and "i_start + int (bd * PARALLEL_SIZE) < 2 ^ 31"
  shows "device_next_start bd i_start = i_start + int (bd * PARALLEL_SIZE)"
proof -
  have four: "i_start + 4 * int bd < 2 ^ 31"
    using assms(2) by (simp add: PARALLEL_SIZE_def)
  have a: "uint32 i_start = i_start"
    using assms(1) four by (intro uint32_id) simp_all
  have b: "uint32 (int PARALLEL_SIZE) = 4"
    by (simp add: uint32_def PARALLEL_SIZE_def)
  have c: "uint32 (int bd * 4) = int bd * 4"
    using assms(1) four by (intro uint32_id) simp_all
  have d: "uint32 (i_start + int bd * 4) = i_start + int bd * 4"
    using assms(1) four by (intro uint32_id) simp_all
  have e: "int32 (i_start + int bd * 4) = i_start + int bd * 4"
    using four by (intro int32_id) simp
  show ?thesis
    by (simp add: device_next_start_def a b c d e) (simp add: PARALLEL_SIZE_def)
qed

lemma device_load_lane_exact:
  assumes "sized N mp g a" and "in_guard n cgs i \<longrightarrow> 0 \<le> off + i \<and> nat (off + i) < N"
  shows "device_load_lane nm mp g off n cgs a i tr
         = Inr (load_lane nm mp g off n cgs a i,
                tr @ map (\<lambda>j. Load (off + j)) (filter (in_guard n cgs) [i]))"
  using assms
  by (auto simp: device_load_lane_def load_lane_def in_guard_def sized_def read_at_def then_do_def
      split: if_splits)

lemma device_load_lanes_exact:
  assumes "sized N mp g a"
    and "\<And>i. i \<in> set idx \<Longrightarrow> in_guard n cgs i \<Longrightarrow> 0 \<le> off + i \<and> nat (off + i) < N"
  shows "device_load_lanes nm mp g off n cgs a idx tr
         = Inr (map (load_lane nm mp g off n cgs a) idx,
                tr @ map (\<lambda>j. Load (off + j)) (filter (in_guard n cgs) idx))"
  using assms(2)
proof (induction idx arbitrary: tr)
  case Nil
  show ?case by simp
next
  case (Cons i idx)
  have one: "device_load_lane nm mp g off n cgs a i tr
         = Inr (load_lane nm mp g off n cgs a i,
                tr @ map (\<lambda>j. Load (off + j)) (filter (in_guard n cgs) [i]))"
    using assms(1) Cons.prems [of i] by (intro device_load_lane_exact) auto
  have rest: "device_load_lanes nm mp g off n cgs a idx tr'
         = Inr (map (load_lane nm mp g off n cgs a) idx,
                tr' @ map (\<lambda>j. Load (off + j)) (filter (in_guard n cgs) idx))" for tr'
    using Cons.prems by (intro Cons.IH) simp_all
  show ?case
    by (simp add: one rest then_do_def)
qed

lemma sized_store_lane:
  "sized N mp g a \<Longrightarrow> sized N mp g (store_lane nm mp off n cgs ir a)"
  by (cases ir) (simp add: store_lane_def sized_def)

lemma device_store_lane_exact:
  assumes "sized N mp g a" and "in_guard n cgs i \<longrightarrow> 0 \<le> off + i \<and> nat (off + i) < N"
  shows "device_store_lane nm mp off n cgs (i, r) (a, tr)
         = Inr (store_lane nm mp off n cgs (i, r) a,
                tr @ map (\<lambda>j. Store (off + j)) (filter (in_guard n cgs) [i]))"
  using assms
  by (auto simp: device_store_lane_def store_lane_def in_guard_def sized_def write_at_def then_do_def
      split: if_splits)

lemma device_store_lanes_exact:
  assumes "sized N mp g a"
    and "\<And>i. i \<in> set (map fst irs) \<Longrightarrow> in_guard n cgs i \<Longrightarrow> 0 \<le> off + i \<and> nat (off + i) < N"
  shows "device_store_lanes nm mp off n cgs irs (a, tr)
         = Inr (fold (store_lane nm mp off n cgs) irs a,
                tr @ map (\<lambda>j. Store (off + j)) (filter (in_guard n cgs) (map fst irs)))"
  using assms
proof (induction irs arbitrary: a tr)
  case Nil
  show ?case by simp
next
  case (Cons ir irs)
  obtain i r where ir: "ir = (i, r)" by (cases ir)
  have one: "device_store_lane nm mp off n cgs (i, r) (a, tr)
         = Inr (store_lane nm mp off n cgs (i, r) a,
                tr @ map (\<lambda>j. Store (off + j)) (filter (in_guard n cgs) [i]))"
    using Cons.prems(1) Cons.prems(2) [of i] ir by (intro device_store_lane_exact) auto
  have sz: "sized N mp g (store_lane nm mp off n cgs (i, r) a)"
    using Cons.prems(1) by (rule sized_store_lane)
  have rest: "device_store_lanes nm mp off n cgs irs (store_lane nm mp off n cgs (i, r) a, tr')
         = Inr (fold (store_lane nm mp off n cgs) irs (store_lane nm mp off n cgs (i, r) a),
                tr' @ map (\<lambda>j. Store (off + j)) (filter (in_guard n cgs) (map fst irs)))" for tr'
    using sz Cons.prems(2) by (intro Cons.IH) simp_all
  show ?case
    by (simp add: ir one rest then_do_def)
qed

lemma device_thread_iteration_exact:
  assumes "sized N mp g a" and "0 \<le> off" and "0 \<le> i_start" and "n \<le> int N - off"
    and "i_start + int (bd * PARALLEL_SIZE) \<le> 2 ^ 31" and "tid < bd"
  shows "device_thread_iteration nm compute mp bd tid g off n cgs i_start (a, tr)
         = Inr (thread_iteration nm compute mp bd tid g off n cgs i_start a,
                tr @ map (\<lambda>j. Load (off + j))
                       (filter (in_guard n cgs) (map (lane_index bd tid i_start) [0..<PARALLEL_SIZE]))
                   @ map (\<lambda>j. Store (off + j))
                       (filter (in_guard n cgs) (map (lane_index bd tid i_start) [0..<PARALLEL_SIZE])))"
proof -
  let ?idx = "map (lane_index bd tid i_start) [0..<PARALLEL_SIZE]"
  have idx: "map (device_lane_index bd tid i_start) [0..<PARALLEL_SIZE] = ?idx"
    using assms(3,5,6) by (intro map_cong refl device_lane_index_exact) simp_all
  have range: "0 \<le> off + i \<and> nat (off + i) < N" if "i \<in> set ?idx" "in_guard n cgs i" for i
    using lane_lower_bound [OF that(1)] assms(2-4) that(2) by (intro guarded_in_range) simp_all
  have ld: "device_load_lanes nm mp g off n cgs a ?idx tr
            = Inr (map (load_lane nm mp g off n cgs a) ?idx,
                   tr @ map (\<lambda>j. Load (off + j)) (filter (in_guard n cgs) ?idx))"
    using assms(1) range by (rule device_load_lanes_exact)
  have fst_zip: "map fst (zip ?idx (map compute (map (load_lane nm mp g off n cgs a) ?idx))) = ?idx"
    by (simp add: map_fst_zip)
  have st: "device_store_lanes nm mp off n cgs
              (zip ?idx (map compute (map (load_lane nm mp g off n cgs a) ?idx))) (a, tr')
            = Inr (fold (store_lane nm mp off n cgs)
                     (zip ?idx (map compute (map (load_lane nm mp g off n cgs a) ?idx))) a,
                   tr' @ map (\<lambda>j. Store (off + j)) (filter (in_guard n cgs) ?idx))" for tr'
    using device_store_lanes_exact [OF assms(1), where irs = "zip ?idx (map compute (map (load_lane nm mp g off n cgs a) ?idx))"
        and n = n and cgs = cgs and off = off and nm = nm and tr = tr'] range
    unfolding fst_zip by blast
  show ?thesis
    unfolding device_thread_iteration_def thread_iteration_def Let_def idx
    by (simp only: fst_conv snd_conv ld then_do_def sum.case prod.case st append_assoc)
qed

lemma sized_thread_iteration:
  assumes "sized N mp g a" and "0 \<le> off" and "0 \<le> i_start" and "n \<le> int N - off"
  shows "sized N mp g (thread_iteration nm compute mp bd tid g off n cgs i_start a)"
  using assms by (simp add: thread_iteration_write)

lemma device_thread_loop_exact:
  assumes "0 < bd" and "tid < bd" and "0 \<le> off" and "n \<le> int N - off"
    and "min n cgs + int (bd * PARALLEL_SIZE) \<le> 2 ^ 31"
    and "sized N mp g a" and "0 \<le> i_start"
    and "thread_loop nm compute mp bd tid g off n cgs i_start a = Some a'"
  shows "\<exists>tr'. device_thread_loop nm compute mp bd tid g off n cgs i_start (a, tr) = Some (Inr (a', tr')) \<and>
               loads tr' = loads tr @ map (\<lambda>j. off + j) (thread_accesses bd tid n cgs i_start) \<and>
               stores tr' = stores tr @ map (\<lambda>j. off + j) (thread_accesses bd tid n cgs i_start)"
  using assms(6-8)
proof (induction "nat (min n cgs - i_start)" arbitrary: i_start a tr rule: less_induct)
  case less
  show ?case
  proof (cases "i_start < n \<and> i_start < cgs")
    case False
    have "thread_loop nm compute mp bd tid g off n cgs i_start a = Some a"
      using False by (subst thread_loop.simps) auto
    then have a': "a' = a"
      using less.prems(3) by simp
    have "device_thread_loop nm compute mp bd tid g off n cgs i_start (a, tr) = Some (Inr (a, tr))"
      using False by (subst device_thread_loop.simps) auto
    then show ?thesis
      using False by (simp add: a' thread_accesses_done)
  next
    case True
    let ?L = "filter (in_guard n cgs) (map (lane_index bd tid i_start) [0..<PARALLEL_SIZE])"
    let ?a1 = "thread_iteration nm compute mp bd tid g off n cgs i_start a"
    let ?tr1 = "tr @ map (\<lambda>j. Load (off + j)) ?L @ map (\<lambda>j. Store (off + j)) ?L"
    let ?next = "i_start + int (bd * PARALLEL_SIZE)"
    have small: "i_start + int (bd * PARALLEL_SIZE) < 2 ^ 31"
      using True assms(5) by linarith
    have it: "device_thread_iteration nm compute mp bd tid g off n cgs i_start (a, tr) = Inr (?a1, ?tr1)"
      using less.prems(1) assms(3) less.prems(2) assms(4) _ assms(2)
      by (rule device_thread_iteration_exact) (use small in simp)
    have nx: "device_next_start bd i_start = ?next"
      using less.prems(2) small by (rule device_next_start_exact)
    have dev: "device_thread_loop nm compute mp bd tid g off n cgs i_start (a, tr)
               = device_thread_loop nm compute mp bd tid g off n cgs ?next (?a1, ?tr1)"
      using True by (subst device_thread_loop.simps) (simp add: it nx)
    have val: "thread_loop nm compute mp bd tid g off n cgs ?next ?a1 = Some a'"
      using True less.prems(3) by (subst (asm) thread_loop.simps) simp
    have smaller: "nat (min n cgs - ?next) < nat (min n cgs - i_start)"
      using True assms(1) by (simp add: PARALLEL_SIZE_def)
    have sz: "sized N mp g ?a1"
      using less.prems(1) assms(3) less.prems(2) assms(4) by (rule sized_thread_iteration)
    have nonneg: "0 \<le> ?next"
      using less.prems(2) by simp
    obtain tr' where tr':
      "device_thread_loop nm compute mp bd tid g off n cgs ?next (?a1, ?tr1) = Some (Inr (a', tr'))"
      "loads tr' = loads ?tr1 @ map (\<lambda>j. off + j) (thread_accesses bd tid n cgs ?next)"
      "stores tr' = stores ?tr1 @ map (\<lambda>j. off + j) (thread_accesses bd tid n cgs ?next)"
      using less.hyps [OF smaller sz nonneg val, of ?tr1] by blast
    have unfold: "thread_accesses bd tid n cgs i_start = ?L @ thread_accesses bd tid n cgs ?next"
      using True assms(1) by (intro thread_accesses_unfold) simp_all
    have l1: "loads ?tr1 = loads tr @ map (\<lambda>j. off + j) ?L"
      by simp
    have s1: "stores ?tr1 = stores tr @ map (\<lambda>j. off + j) ?L"
      by simp
    show ?thesis
      using tr' by (simp only: dev unfold l1 s1 map_append append_assoc) blast
  qed
qed

lemma device_threads_exact:
  assumes "0 < bd" and "0 \<le> off" and "n \<le> int N - off"
    and "min n cgs + int (bd * PARALLEL_SIZE) \<le> 2 ^ 31"
    and "sized N mp g a" and "m \<le> bd"
  shows "\<exists>tr'. fold (\<lambda>threadIdx r.
                   case r of
                     Some (Inr s') \<Rightarrow> device_thread_loop nm compute mp bd threadIdx g off n cgs 0 s'
                   | _ \<Rightarrow> r)
               [0..<m] (Some (Inr (a, [])))
             = Some (Inr (write_where nm mp off (\<lambda>j. \<exists>t<m. j \<in> set (thread_accesses bd t n cgs 0))
                            (\<lambda>j. compute (load_lane nm mp g off n cgs a j)) a, tr')) \<and>
             loads tr' = map (\<lambda>j. off + j)
                           (concat (map (\<lambda>t. thread_accesses bd t n cgs 0) [0..<m])) \<and>
             stores tr' = map (\<lambda>j. off + j)
                            (concat (map (\<lambda>t. thread_accesses bd t n cgs 0) [0..<m]))"
  using assms(6)
proof (induction m)
  case 0
  show ?case
    by (simp add: write_where_nothing)
next
  case (Suc m)
  let ?A = "\<lambda>m. write_where nm mp off (\<lambda>j. \<exists>t<m. j \<in> set (thread_accesses bd t n cgs 0))
                   (\<lambda>j. compute (load_lane nm mp g off n cgs a j)) a"
  let ?acc = "\<lambda>m. map (\<lambda>j. off + j) (concat (map (\<lambda>t. thread_accesses bd t n cgs 0) [0..<m]))"
  have m: "m < bd" "m \<le> bd"
    using Suc.prems by simp_all
  obtain tr1 where tr1:
    "fold (\<lambda>threadIdx r.
             case r of
               Some (Inr s') \<Rightarrow> device_thread_loop nm compute mp bd threadIdx g off n cgs 0 s'
             | _ \<Rightarrow> r)
          [0..<m] (Some (Inr (a, []))) = Some (Inr (?A m, tr1))"
    "loads tr1 = ?acc m" "stores tr1 = ?acc m"
    using Suc.IH [OF m(2)] by blast
  have v0: "fold (\<lambda>threadIdx r. Option.bind r (thread_loop nm compute mp bd threadIdx g off n cgs 0))
              [0..<m] (Some a) = Some (?A m)"
    using assms(1,5,2,3) m(2) by (rule threads_write)
  have v1: "fold (\<lambda>threadIdx r. Option.bind r (thread_loop nm compute mp bd threadIdx g off n cgs 0))
              [0..<Suc m] (Some a) = Some (?A (Suc m))"
    using assms(1,5,2,3) Suc.prems by (rule threads_write)
  have val: "thread_loop nm compute mp bd m g off n cgs 0 (?A m) = Some (?A (Suc m))"
    using v1 by (simp add: v0)
  have sz: "sized N mp g (?A m)"
    using assms(5) by simp
  obtain tr' where tr':
    "device_thread_loop nm compute mp bd m g off n cgs 0 (?A m, tr1) = Some (Inr (?A (Suc m), tr'))"
    "loads tr' = loads tr1 @ map (\<lambda>j. off + j) (thread_accesses bd m n cgs 0)"
    "stores tr' = stores tr1 @ map (\<lambda>j. off + j) (thread_accesses bd m n cgs 0)"
    using device_thread_loop_exact [OF assms(1) m(1) assms(2,3,4) sz order_refl val, of tr1] by blast
  have "fold (\<lambda>threadIdx r.
             case r of
               Some (Inr s') \<Rightarrow> device_thread_loop nm compute mp bd threadIdx g off n cgs 0 s'
             | _ \<Rightarrow> r)
          [0..<Suc m] (Some (Inr (a, []))) = Some (Inr (?A (Suc m), tr'))"
    by (simp add: tr1(1) tr'(1))
  moreover have "loads tr' = ?acc (Suc m)" "stores tr' = ?acc (Suc m)"
    by (simp_all add: tr'(2,3) tr1(2,3))
  ultimately show ?case
    by blast
qed

lemma chunk_update_as_result:
  "chunk_update nm compute mp g off n cgs a
   = chunk_result nm compute mp g off (off + min n cgs) a"
proof -
  have t: "(0 \<le> int k - off \<and> in_guard n cgs (int k - off))
           \<longleftrightarrow> (off \<le> int k \<and> int k < off + min n cgs)" for k
    by (auto simp: in_guard_def)
  have h: "load_lane nm b g off n cgs a (int k - off) = element_lane nm b g a k"
    if "off \<le> int k \<and> int k < off + min n cgs" for k b
  proof -
    have "int k - off < n" "int k - off < cgs"
      using that by linarith+
    then show ?thesis
      by (simp add: load_lane_def element_lane_def in_guard_def)
  qed
  show ?thesis
    unfolding chunk_update_def write_where_def chunk_result_def t
    by (auto simp: h)
qed

lemma device_run_block_exact:
  assumes "0 < bd" and "0 \<le> off" and "n \<le> int N - off"
    and "min n cgs + int (bd * PARALLEL_SIZE) \<le> 2 ^ 31"
    and "sized N mp g a"
  shows "\<exists>tr. device_run_block nm compute mp bd g off n cgs (a, [])
              = Some (Inr (chunk_result nm compute mp g off (off + min n cgs) a, tr)) \<and>
             loads tr = stores tr \<and> distinct (stores tr) \<and>
             set (stores tr) = {k. off \<le> k \<and> k < off + min n cgs}"
proof -
  let ?A = "write_where nm mp off (\<lambda>j. \<exists>t<bd. j \<in> set (thread_accesses bd t n cgs 0))
              (\<lambda>j. compute (load_lane nm mp g off n cgs a j)) a"
  obtain tr where tr:
    "device_run_block nm compute mp bd g off n cgs (a, []) = Some (Inr (?A, tr))"
    "loads tr = map (\<lambda>j. off + j) (block_accesses bd n cgs)"
    "stores tr = map (\<lambda>j. off + j) (block_accesses bd n cgs)"
    using device_threads_exact [OF assms order_refl, of nm compute]
    unfolding device_run_block_def block_accesses_def by blast
  have "Some ?A = run_block nm compute mp bd g off n cgs a"
    unfolding run_block_def
    using assms(1,5,2,3) order_refl by (rule threads_write [symmetric])
  also have "\<dots> = Some (chunk_update nm compute mp g off n cgs a)"
    using assms(1,5,2,3) by (rule run_block_is_chunk_update)
  finally have A: "?A = chunk_result nm compute mp g off (off + min n cgs) a"
    using chunk_update_as_result [of nm compute mp g off n cgs a] by simp
  have inj: "inj_on (\<lambda>j. off + j) (set (block_accesses bd n cgs))"
    by (simp add: inj_on_def)
  have d: "distinct (stores tr)"
    unfolding tr(3) using distinct_block_accesses [OF assms(1)] inj by (simp add: distinct_map)
  have "set (stores tr) = (\<lambda>j. off + j) ` {i. 0 \<le> i \<and> in_guard n cgs i}"
    unfolding tr(3) using set_block_accesses [OF assms(1)] by simp
  also have "\<dots> = {k. off \<le> k \<and> k < off + min n cgs}"
  proof (rule set_eqI)
    fix k
    have "k \<in> (\<lambda>j. off + j) ` {i. 0 \<le> i \<and> in_guard n cgs i}
          \<longleftrightarrow> (0 \<le> k - off \<and> in_guard n cgs (k - off))"
      by (auto simp: image_iff intro: exI [of _ "k - off"])
    then show "k \<in> (\<lambda>j. off + j) ` {i. 0 \<le> i \<and> in_guard n cgs i}
               \<longleftrightarrow> k \<in> {k. off \<le> k \<and> k < off + min n cgs}"
      by (auto simp: in_guard_def)
  qed
  finally have s: "set (stores tr) = {k. off \<le> k \<and> k < off + min n cgs}" .
  from tr(1) A tr(2,3) d s show ?thesis
    by auto
qed

lemma checked_int_in_range:
  "- (2 ^ 31) \<le> x \<Longrightarrow> x < 2 ^ 31 \<Longrightarrow> checked_int x = Inr x"
  by (simp add: checked_int_def)

lemma device_functor_exact:
  fixes ts :: "('t, 'a::{plus,minus,uminus,times,inverse,zero,one}) tensors"
  assumes "0 < bd" and "0 < cgs"
    and "tenosr_for_this_block tabi ! b = t"
    and "chunk_of_block tabi b = c"
    and "sizes tabi ! t = int N"
    and "0 \<le> c" and "c * cgs \<le> int N" and "int N < 2 ^ 31"
    and "min (int N - c * cgs) cgs + int (bd * PARALLEL_SIZE) \<le> 2 ^ 31"
    and "sized N mp (grad ! t) (tensor_arrays mp ts t)"
  shows "\<exists>tr. device_CudaKernelFunctor nm bd b cgs tabi grad b1 b2 b1_pow b2_pow eps lr md mp decay ts
              = Some (Inr (put_tensor_arrays mp t
                             (chunk_result nm
                                (compute_lane (sqrt_MT nm) b1 b2 (b1_pow ! 0) (b2_pow ! 0) eps (lr ! 0)
                                   md decay)
                                mp (grad ! t) (c * cgs) (min (int N) ((c + 1) * cgs))
                                (tensor_arrays mp ts t)) ts, tr)) \<and>
             loads tr = stores tr \<and> distinct (stores tr) \<and>
             set (stores tr) = {k. c * cgs \<le> k \<and> k < (c + 1) * cgs \<and> k < int N}"
proof -
  let ?compute = "compute_lane (sqrt_MT nm) b1 b2 (b1_pow ! 0) (b2_pow ! 0) eps (lr ! 0) md decay"
  let ?a = "tensor_arrays mp ts t"
  have off: "0 \<le> c * cgs"
    using assms(2,6) by simp
  have c_small: "c \<le> c * cgs"
    using assms(2,6) by (simp add: mult_le_cancel_left1)
  have chk1: "checked_int (compute_group_for_this_block tabi ! b
                           + start_compute_group_this_tensor tabi) = Inr c"
    unfolding assms(4) [unfolded chunk_of_block_def]
    using assms(6,7,8) c_small by (intro checked_int_in_range) linarith+
  have chk2: "checked_int (c * cgs) = Inr (c * cgs)"
    using assms(7,8) off by (intro checked_int_in_range) linarith+
  have chk3: "checked_int (sizes tabi ! t - c * cgs) = Inr (int N - c * cgs)"
    unfolding assms(5) using assms(7,8) off by (intro checked_int_in_range) linarith+
  have hi: "c * cgs + min (int N - c * cgs) cgs = min (int N) ((c + 1) * cgs)"
    by (simp add: min_def algebra_simps)
  obtain tr where tr:
    "device_run_block nm ?compute mp bd (grad ! t) (c * cgs) (int N - c * cgs) cgs (?a, [])
       = Some (Inr (chunk_result nm ?compute mp (grad ! t) (c * cgs)
                      (min (int N) ((c + 1) * cgs)) ?a, tr))"
    "loads tr = stores tr" "distinct (stores tr)"
    "set (stores tr) = {k. c * cgs \<le> k \<and> k < min (int N) ((c + 1) * cgs)}"
    using device_run_block_exact [OF assms(1) off order_refl assms(9,10), of nm ?compute]
    unfolding hi by auto
  have run: "device_CudaKernelFunctor nm bd b cgs tabi grad b1 b2 b1_pow b2_pow eps lr md mp decay ts
              = Some (Inr (put_tensor_arrays mp t
                             (chunk_result nm ?compute mp (grad ! t) (c * cgs)
                                (min (int N) ((c + 1) * cgs)) ?a) ts, tr))"
    unfolding device_CudaKernelFunctor_def Let_def assms(3) chk1 then_do_def
    by (simp only: sum.case chk2 chk3 prod.case tensor_arrays_def [symmetric] tr(1) option.case
        put_tensor_arrays_def)
  have set_eq: "set (stores tr) = {k. c * cgs \<le> k \<and> k < (c + 1) * cgs \<and> k < int N}"
    unfolding tr(4) by auto
  from run tr(2,3) set_eq show ?thesis
    by blast
qed

lemma sized_chunk_result [simp]:
  "sized N mp g (chunk_result nm compute mp g' lo hi a) = sized N mp g a"
  by (simp add: sized_def chunk_result_def)







text \<open>
  For a block as in the theorem below, the device leaves the tensors that the functor
  of the value-level section computes.
\<close>

lemma value_functor_exact:
  fixes ts :: "('t, 'a::{plus,minus,uminus,times,inverse,zero,one}) tensors"
  assumes "0 < bd"
    and "tenosr_for_this_block tabi ! b = t"
    and "chunk_of_block tabi b = c"
    and "sizes tabi ! t = int N"
    and "0 \<le> c * cgs" and "c * cgs \<le> int N"
    and "sized N mp (grad ! t) (tensor_arrays mp ts t)"
  shows "CudaKernelFunctor nm bd b cgs tabi grad b1 b2 b1_pow b2_pow eps lr md mp decay ts
         = Some (put_tensor_arrays mp t
                   (chunk_result nm
                      (compute_lane (sqrt_MT nm) b1 b2 (b1_pow ! 0) (b2_pow ! 0) eps (lr ! 0) md decay)
                      mp (grad ! t) (c * cgs) (min (int N) ((c + 1) * cgs))
                      (tensor_arrays mp ts t)) ts)"
proof -
  let ?compute = "compute_lane (sqrt_MT nm) b1 b2 (b1_pow ! 0) (b2_pow ! 0) eps (lr ! 0) md decay"
  let ?a = "tensor_arrays mp ts t"
  have hi: "c * cgs + min (int N - c * cgs) cgs = min (int N) ((c + 1) * cgs)"
    by (simp add: min_def algebra_simps)
  have "run_block nm ?compute mp bd (grad ! t) (c * cgs) (int N - c * cgs) cgs ?a
        = Some (chunk_update nm ?compute mp (grad ! t) (c * cgs) (int N - c * cgs) cgs ?a)"
    using assms(1,7,5) order_refl by (rule run_block_is_chunk_update)
  then have run: "run_block nm ?compute mp bd (grad ! t) (c * cgs) (int N - c * cgs) cgs ?a
        = Some (chunk_result nm ?compute mp (grad ! t) (c * cgs) (min (int N) ((c + 1) * cgs)) ?a)"
    by (simp only: chunk_update_as_result hi)
  show ?thesis
    unfolding CudaKernelFunctor_def Let_def assms(2) assms(3) [unfolded chunk_of_block_def] assms(4)
    by (simp only: tensor_arrays_def [symmetric] run option.case put_tensor_arrays_def)
qed

lemma device_functor_leaves_values:
  fixes ts :: "('t, 'a::{plus,minus,uminus,times,inverse,zero,one}) tensors"
  assumes "0 < bd" and "0 < cgs"
    and "tenosr_for_this_block tabi ! b = t"
    and "chunk_of_block tabi b = c"
    and "sizes tabi ! t = int N"
    and "0 \<le> c" and "c * cgs \<le> int N" and "int N < 2 ^ 31"
    and "min (int N - c * cgs) cgs + int (bd * PARALLEL_SIZE) \<le> 2 ^ 31"
    and "sized N mp (grad ! t) (tensor_arrays mp ts t)"
  shows "\<exists>ts' tr.
           device_CudaKernelFunctor nm bd b cgs tabi grad b1 b2 b1_pow b2_pow eps lr md mp decay ts
             = Some (Inr (ts', tr)) \<and>
           CudaKernelFunctor nm bd b cgs tabi grad b1 b2 b1_pow b2_pow eps lr md mp decay ts = Some ts'"
proof -
  have "0 \<le> c * cgs"
    using assms(2,6) by simp
  then show ?thesis
    using device_functor_exact [OF assms, of nm b1 b2 b1_pow b2_pow eps lr md decay]
      value_functor_exact [OF assms(1,3,4,5) _ assms(7,10), of nm b1 b2 b1_pow b2_pow eps lr md decay]
    by auto
qed



end
